theory Spec2Isabelle
  imports Main
begin


section \<open>The descent engine of Bowtie 2: data model\<close>

text \<open>
  The development embeds the best-first bidirectional descent engine (the driver
  \<open>DescentDriver::go\<close> and the member functions of \<open>Descent\<close>) as HOL functions.

  Conventions.
  \<^item> \<open>size_t\<close>, \<open>TReadOff\<close> and \<open>TIndexOff\<close> values are naturals. Where a subtraction can
    pass below zero, or the all-ones sentinel takes part in the arithmetic, the
    wrap-around is written out: modulo \<open>2 ^ 64\<close> for \<open>size_t\<close>, modulo \<open>2 ^ 32\<close> for the
    differences and sums of \<open>TIndexOff\<close> values and for the \<open>uint32_t\<close> fields of an
    edit.
  \<^item> \<open>TScore\<close> values are integers.
  \<^item> The release build is modelled: assertions are compiled out.
  \<^item> Reading an arena outside its bounds, which the source leaves undefined, yields
    the default record; writing there changes nothing. Reading a four-entry table
    outside 0..3 has no value in the model.
  \<^item> The FM index, the scoring scheme and the query are collaborators of the engine
    and are taken as records of functions.
\<close>

type_synonym TReadOff = nat
type_synonym TIndexOff = nat
type_synonym TScore = int
type_synonym TDescentId = nat
type_synonym TRootId = nat
type_synonym TRootPri = int

definition SIZE_MAX :: nat where
  "SIZE_MAX = 2 ^ 64 - 1"

definition size_sub :: "nat \<Rightarrow> nat \<Rightarrow> nat" where
  "size_sub a b = (if b \<le> a then a - b else a + 2 ^ 64 - b)"

definition size_add :: "nat \<Rightarrow> nat \<Rightarrow> nat" where
  "size_add a b = (a + b) mod 2 ^ 64"

definition u32 :: "int \<Rightarrow> nat" where
  "u32 x = nat (x mod 2 ^ 32)"

text \<open>
  Modelled from the spec: the type \<open>TIndexOff\<close> of the offsets into the index is
  declared outside the sources at hand; it is unsigned, and its differences and sums wrap
  around, here at 32 bits.
\<close>

definition ioff_sub :: "nat \<Rightarrow> nat \<Rightarrow> nat" where
  "ioff_sub a b = nat ((int a - int b) mod 2 ^ 32)"

definition ioff_add :: "nat \<Rightarrow> nat \<Rightarrow> nat" where
  "ioff_add a b = (a + b) mod 2 ^ 32"

text \<open>
  Reading entry \<open>j\<close> of one of the four-entry range tables. With \<open>j\<close> outside 0..3 the
  source reads past the table; the model gives that read no value of its own. Then
  entry \<open>j\<close> of a sequence or of \<open>fchr\<close>.
\<close>

definition rd :: "nat list \<Rightarrow> nat \<Rightarrow> nat" where
  "rd xs j = (if j < 4 then xs ! j else undefined)"

definition sq :: "nat list \<Rightarrow> nat \<Rightarrow> nat" where
  "sq xs j = (if j < length xs then xs ! j else 0)"

subsection \<open>Edits\<close>

datatype EditType = EDIT_TYPE_MM | EDIT_TYPE_READ_GAP | EDIT_TYPE_REF_GAP

text \<open>
  Modelled from the spec: the class \<open>Edit\<close> is declared outside the sources at hand.
  An edit is either uninitialised (the empty incoming edit of a root or of a bounce) or
  carries its read offset, reference character, read character, type and second
  offset \<open>pos2\<close>, which the constructor sets to a fixed default.
\<close>

record Edit =
  e_inited :: bool
  e_pos :: nat
  e_chr :: char
  e_qchr :: char
  e_type :: EditType
  e_pos2 :: nat

definition pos2_default :: nat where
  "pos2_default = 2 ^ 31 - 1"

definition e_null :: Edit where
  "e_null = \<lparr>e_inited = False, e_pos = 0, e_chr = CHR ''-'', e_qchr = CHR ''-'',
              e_type = EDIT_TYPE_MM, e_pos2 = pos2_default\<rparr>"

definition mkEdit :: "nat \<Rightarrow> char \<Rightarrow> char \<Rightarrow> EditType \<Rightarrow> Edit" where
  "mkEdit p c qc t = \<lparr>e_inited = True, e_pos = p, e_chr = c, e_qchr = qc, e_type = t,
                       e_pos2 = pos2_default\<rparr>"

definition inited :: "Edit \<Rightarrow> bool" where
  "inited e = e_inited e"

definition isReadGap :: "Edit \<Rightarrow> bool" where
  "isReadGap e = (e_inited e \<and> e_type e = EDIT_TYPE_READ_GAP)"

definition isRefGap :: "Edit \<Rightarrow> bool" where
  "isRefGap e = (e_inited e \<and> e_type e = EDIT_TYPE_REF_GAP)"

definition isMismatch :: "Edit \<Rightarrow> bool" where
  "isMismatch e = (e_inited e \<and> e_type e = EDIT_TYPE_MM)"

text \<open>The character tables \<open>"ACGTN"[j]\<close> and \<open>asc2dna\<close>.\<close>

definition dna2asc :: "nat \<Rightarrow> char" where
  "dna2asc j = (if j = 0 then CHR ''A'' else if j = 1 then CHR ''C''
                else if j = 2 then CHR ''G'' else if j = 3 then CHR ''T'' else CHR ''N'')"

definition asc2dna :: "char \<Rightarrow> nat" where
  "asc2dna ch = (if ch = CHR ''C'' then 1 else if ch = CHR ''G'' then 2
                 else if ch = CHR ''T'' then 3 else 0)"

subsection \<open>Position records\<close>

text \<open>
  Modelled from the spec: \<open>DescentPos\<close> and its flags are declared outside the sources
  at hand. The flag operations are one-shot claims: each returns true exactly once per
  value and marks that direction as taken; \<open>exhausted\<close> holds iff every branching
  option has been claimed. \<open>reset\<close> zeroes all ranges and flags and sets \<open>c\<close> to an
  invalid sentinel.
\<close>

record DescentPosFlags =
  mmExplored :: "bool list"
  rdgExplored :: "bool list"
  rfgExplored :: bool

definition flags_reset :: DescentPosFlags where
  "flags_reset = \<lparr>mmExplored = [False, False, False, False],
                   rdgExplored = [False, False, False, False],
                   rfgExplored = False\<rparr>"

definition exhausted :: "DescentPosFlags \<Rightarrow> bool" where
  "exhausted fl = (list_all id (mmExplored fl) \<and> list_all id (rdgExplored fl) \<and> rfgExplored fl)"

definition claimed :: "bool list \<Rightarrow> nat \<Rightarrow> bool" where
  "claimed xs j = (if j < length xs then xs ! j else True)"

definition mmExplore :: "DescentPosFlags \<Rightarrow> nat \<Rightarrow> bool \<times> DescentPosFlags" where
  "mmExplore fl j = (\<not> claimed (mmExplored fl) j, fl\<lparr>mmExplored := (mmExplored fl)[j := True]\<rparr>)"

definition rdgExplore :: "DescentPosFlags \<Rightarrow> nat \<Rightarrow> bool \<times> DescentPosFlags" where
  "rdgExplore fl j = (\<not> claimed (rdgExplored fl) j, fl\<lparr>rdgExplored := (rdgExplored fl)[j := True]\<rparr>)"

definition rfgExplore :: "DescentPosFlags \<Rightarrow> bool \<times> DescentPosFlags" where
  "rfgExplore fl = (\<not> rfgExplored fl, fl\<lparr>rfgExplored := True\<rparr>)"

record DescentPos =
  p_c :: int
  p_topf :: "TIndexOff list"
  p_botf :: "TIndexOff list"
  p_topb :: "TIndexOff list"
  p_botb :: "TIndexOff list"
  p_flags :: DescentPosFlags

definition pos_reset :: DescentPos where
  "pos_reset = \<lparr>p_c = -1, p_topf = [0, 0, 0, 0], p_botf = [0, 0, 0, 0],
                 p_topb = [0, 0, 0, 0], p_botb = [0, 0, 0, 0], p_flags = flags_reset\<rparr>"

subsection \<open>Arenas\<close>

text \<open>
  Modelled from the spec: \<open>EFactory\<close> is declared outside the sources at hand.
  \<open>alloc\<close> appends one default-constructed record and returns its id, \<open>size\<close> is the
  watermark, \<open>resize n\<close> truncates to \<open>n\<close>.
\<close>

definition alloc :: "'a \<Rightarrow> 'a list \<Rightarrow> nat \<times> 'a list" where
  "alloc dflt xs = (length xs, xs @ [dflt])"

definition resize :: "'a \<Rightarrow> nat \<Rightarrow> 'a list \<Rightarrow> 'a list" where
  "resize dflt n xs = take n xs @ replicate (n - length xs) dflt"

definition at :: "'a \<Rightarrow> 'a list \<Rightarrow> nat \<Rightarrow> 'a" where
  "at dflt xs i = (if i < length xs then xs ! i else dflt)"

abbreviation pfat :: "DescentPos list \<Rightarrow> nat \<Rightarrow> DescentPos" where
  "pfat pf i \<equiv> at pos_reset pf i"

subsection \<open>Priorities, edges and the five-slot ranker\<close>

text \<open>
  Modelled from the spec: \<open>DescentPriority\<close>, \<open>DescentEdge\<close> and \<open>DescentOutgoing\<close> are
  declared outside the sources at hand. Priorities compare lexicographically by
  penalty (lower first), depth (deeper first), width (narrower first) and root
  priority. The ranker keeps the five best edges offered to \<open>update\<close>;
  \<open>rotate\<close> removes and returns the best and shifts the rest up.
\<close>

record DescentPriority =
  pri_pen :: TScore
  pri_depth :: nat
  pri_width :: TIndexOff
  pri_rootpri :: TRootPri

definition pri_less :: "DescentPriority \<Rightarrow> DescentPriority \<Rightarrow> bool" where
  "pri_less a b =
     (if pri_pen a < pri_pen b then True else if pri_pen b < pri_pen a then False
      else if pri_depth b < pri_depth a then True else if pri_depth a < pri_depth b then False
      else if pri_width a < pri_width b then True else if pri_width b < pri_width a then False
      else pri_rootpri a < pri_rootpri b)"

record DescentEdge =
  edge_e :: Edit
  edge_off5p :: TReadOff
  edge_pri :: DescentPriority
  edge_posFlag :: nat

definition pri_null :: DescentPriority where
  "pri_null = \<lparr>pri_pen = 0, pri_depth = 0, pri_width = 0, pri_rootpri = 0\<rparr>"

definition edge_null :: DescentEdge where
  "edge_null = \<lparr>edge_e = e_null, edge_off5p = 0, edge_pri = pri_null, edge_posFlag = 0\<rparr>"

definition edge_init :: "Edit \<Rightarrow> TReadOff \<Rightarrow> DescentPriority \<Rightarrow> nat \<Rightarrow> DescentEdge" where
  "edge_init ed off p d = \<lparr>edge_e = ed, edge_off5p = off, edge_pri = p, edge_posFlag = d\<rparr>"

type_synonym DescentOutgoing = "DescentEdge list"

fun insert_edge :: "DescentEdge \<Rightarrow> DescentEdge list \<Rightarrow> DescentEdge list" where
  "insert_edge x [] = [x]"
| "insert_edge x (y # ys) = (if pri_less (edge_pri x) (edge_pri y) then x # y # ys else y # insert_edge x ys)"

definition out_update :: "DescentOutgoing \<Rightarrow> DescentEdge \<Rightarrow> DescentOutgoing" where
  "out_update out x = take 5 (insert_edge x out)"

definition out_empty :: "DescentOutgoing \<Rightarrow> bool" where
  "out_empty out = (out = [])"

definition bestPri :: "DescentOutgoing \<Rightarrow> DescentPriority" where
  "bestPri out = (case out of [] \<Rightarrow> pri_null | x # _ \<Rightarrow> edge_pri x)"

definition rotate :: "DescentOutgoing \<Rightarrow> DescentEdge \<times> DescentOutgoing" where
  "rotate out = (case out of [] \<Rightarrow> (edge_null, []) | x # xs \<Rightarrow> (x, xs))"

text \<open>
  \<open>updateFlags\<close> of a ranker slot refreshes the exploration flag of the slot's
  transition in its originating position record.
\<close>

definition updateFlags :: "DescentEdge \<Rightarrow> DescentPos list \<Rightarrow> DescentPos list" where
  "updateFlags x pf =
     (let d = edge_posFlag x; p = pfat pf d; fl = p_flags p in
      if \<not> inited (edge_e x) then pf
      else if isReadGap (edge_e x) then pf[d := p\<lparr>p_flags := snd (rdgExplore fl (asc2dna (e_chr (edge_e x))))\<rparr>]
      else if isRefGap (edge_e x) then pf[d := p\<lparr>p_flags := snd (rfgExplore fl)\<rparr>]
      else pf[d := p\<lparr>p_flags := snd (mmExplore fl (asc2dna (e_chr (edge_e x))))\<rparr>])"

subsection \<open>Redundancy filter\<close>

text \<open>
  Modelled from the spec: \<open>DescentRedundancyChecker\<close> is declared outside the sources at
  hand. The filter stores the minimum penalty admitted for each key
  \<open>(strand, al5pi, al5pf, ref_span, topf, botf)\<close>. \<open>check\<close> returns true, and records the
  penalty, unless the key has been admitted at a penalty not above the given one;
  \<open>contains\<close> is the read-only query used when planning an edge.
\<close>

type_synonym RedKey = "bool \<times> nat \<times> nat \<times> nat \<times> nat \<times> nat"
type_synonym Redundancy = "RedKey \<Rightarrow> TScore option"

definition re_contains :: "Redundancy \<Rightarrow> RedKey \<Rightarrow> TScore \<Rightarrow> bool" where
  "re_contains re k p = (case re k of None \<Rightarrow> False | Some p0 \<Rightarrow> p0 \<le> p)"

definition re_check :: "Redundancy \<Rightarrow> RedKey \<Rightarrow> TScore \<Rightarrow> bool \<times> Redundancy" where
  "re_check re k p = (if re_contains re k p then (False, re) else (True, re(k \<mapsto> p)))"

subsection \<open>Collaborators: query, roots, configurations, scoring, index\<close>

record DescentQuery =
  q_seq :: "nat list"
  q_seqrc :: "nat list"
  q_get :: "TReadOff \<Rightarrow> bool \<Rightarrow> int \<times> int"
  q_getc :: "TReadOff \<Rightarrow> bool \<Rightarrow> int"

definition qlength :: "DescentQuery \<Rightarrow> nat" where
  "qlength q = length (q_seq q)"

record DescentRoot =
  r_off5p :: TReadOff
  r_l2r :: bool
  r_fw :: bool
  r_pri :: TRootPri

record DescentConfig =
  cf_cons :: "nat \<Rightarrow> TScore"

record Scoring =
  sc_mm :: "int \<Rightarrow> int \<Rightarrow> TScore"
  sc_readGapOpen :: TScore
  sc_readGapExtend :: TScore
  sc_refGapOpen :: TScore
  sc_refGapExtend :: TScore
  sc_gapbar :: nat

record Metrics =
  bwops :: nat
  bwops_bi :: nat
  bwops_1 :: nat

subsection \<open>Descents\<close>

text \<open>
  The members of \<open>Descent\<close> used by the member functions under study; member \<open>x_\<close> of
  the source is field \<open>d_x\<close>.
\<close>

record Descent =
  d_rid :: TRootId
  d_al5pi :: TReadOff
  d_al5pf :: TReadOff
  d_l2r :: bool
  d_gapadd :: int
  d_off5p_i :: TReadOff
  d_topf :: TIndexOff
  d_botf :: TIndexOff
  d_topb :: TIndexOff
  d_botb :: TIndexOff
  d_descid :: TDescentId
  d_parent :: TDescentId
  d_pen :: TScore
  d_posid :: nat
  d_len :: nat
  d_out :: DescentOutgoing
  d_edit :: Edit
  d_lastRecalc :: bool

definition descent_null :: Descent where
  "descent_null = \<lparr>d_rid = 0, d_al5pi = 0, d_al5pf = 0, d_l2r = False, d_gapadd = 0,
     d_off5p_i = 0, d_topf = 0, d_botf = 0, d_topb = 0, d_botb = 0, d_descid = 0,
     d_parent = SIZE_MAX, d_pen = 0, d_posid = SIZE_MAX, d_len = 0, d_out = [],
     d_edit = e_null, d_lastRecalc = True\<rparr>"

abbreviation dfat :: "Descent list \<Rightarrow> nat \<Rightarrow> Descent" where
  "dfat df i \<equiv> at descent_null df i"

text \<open>
  Modelled from the spec: \<open>Descent::empty\<close> and \<open>Descent::root\<close> are defined outside the
  sources at hand. A descent is empty when its ranker is empty and the last
  recalculation was complete; it is a root when it has no parent.
\<close>

definition empty :: "Descent \<Rightarrow> bool" where
  "empty dsc = (d_lastRecalc dsc \<and> out_empty (d_out dsc))"

definition root :: "Descent \<Rightarrow> bool" where
  "root dsc = (d_parent dsc = SIZE_MAX)"

section \<open>recalcOutgoing: branch enumeration\<close>

text \<open>
  The edges offered to \<open>out_.update\<close> are collected in a trace, in the order of the
  calls, each tagged with the block of the source that emitted it.
\<close>

datatype EdgeKind = K_MM | K_RDG_EX | K_RFG_EX | K_RDG_OP | K_RFG_OP

type_synonym Trace = "(EdgeKind \<times> DescentEdge) list"

definition ref_span :: "nat \<Rightarrow> nat \<Rightarrow> int \<Rightarrow> nat" where
  "ref_span cur5pi cur5pf ga = nat ((int cur5pf - int cur5pi + 1 + ga) mod 2 ^ 64)"

definition nrefal_of :: "nat \<Rightarrow> nat \<Rightarrow> int \<Rightarrow> nat" where
  "nrefal_of cur5pi cur5pf ga = nat ((int cur5pf - int cur5pi + ga) mod 2 ^ 64)"

definition tbl_t :: "Descent \<Rightarrow> DescentPos \<Rightarrow> nat list" where
  "tbl_t dsc p = (if d_l2r dsc then p_topb p else p_topf p)"

definition tbl_b :: "Descent \<Rightarrow> DescentPos \<Rightarrow> nat list" where
  "tbl_b dsc p = (if d_l2r dsc then p_botb p else p_botf p)"

definition tbl_tp :: "Descent \<Rightarrow> DescentPos \<Rightarrow> nat list" where
  "tbl_tp dsc p = (if d_l2r dsc then p_topf p else p_topb p)"

definition tbl_bp :: "Descent \<Rightarrow> DescentPos \<Rightarrow> nat list" where
  "tbl_bp dsc p = (if d_l2r dsc then p_botf p else p_botb p)"

text \<open>One round of the mismatch loop (lines 385--411), for nucleotide \<open>j\<close>.\<close>

definition mm_step ::
  "Redundancy \<Rightarrow> bool \<Rightarrow> TRootPri \<Rightarrow> Descent \<Rightarrow> nat \<Rightarrow> nat \<Rightarrow> TReadOff \<Rightarrow> nat \<Rightarrow> nat \<Rightarrow>
   DescentPos \<Rightarrow> int \<Rightarrow> TScore \<Rightarrow> nat \<Rightarrow> Trace \<times> DescentPosFlags \<Rightarrow> Trace \<times> DescentPosFlags" where
  "mm_step re fw rootpri dsc cur5pi cur5pf off5p depth d p c pen_mm j = (\<lambda>(es, fl).
     if int j = c then (es, fl)
     else if rd (tbl_b dsc p) j \<le> rd (tbl_t dsc p) j then (es, fl)
     else
       let (ok, fl1) = mmExplore fl j in
       if \<not> ok then (es, fl1)
       else
         let topf = rd (p_topf p) j; botf = rd (p_botf p) j in
         if re_contains re (fw, cur5pi, cur5pf, ref_span cur5pi cur5pf (d_gapadd dsc), topf, botf)
              (d_pen dsc + pen_mm)
         then (es, fl1)
         else
           let width = ioff_sub (rd (tbl_b dsc p) j) (rd (tbl_t dsc p) j);
               edit = mkEdit (u32 (int off5p)) (dna2asc j) (dna2asc (nat c)) EDIT_TYPE_MM;
               pri = \<lparr>pri_pen = d_pen dsc + pen_mm, pri_depth = depth, pri_width = width,
                      pri_rootpri = rootpri\<rparr>
           in (es @ [(K_MM, edge_init edit off5p pri d)], fl1))"

text \<open>
  One round of a read-gap loop, for nucleotide \<open>j\<close>: the extension of a read gap
  (lines 439--469, tag \<open>K_RDG_EX\<close>) and the opening of one (lines 509--537, tag
  \<open>K_RDG_OP\<close>) differ in the penalty and in \<open>pos2\<close> of the edit.
\<close>

definition rdg_step ::
  "EdgeKind \<Rightarrow> TScore \<Rightarrow> nat \<Rightarrow> Redundancy \<Rightarrow> bool \<Rightarrow> TRootPri \<Rightarrow> Descent \<Rightarrow> nat \<Rightarrow> nat \<Rightarrow>
   nat \<Rightarrow> nat \<Rightarrow> TReadOff \<Rightarrow> nat \<Rightarrow> nat \<Rightarrow>
   DescentPos \<Rightarrow> nat \<Rightarrow> Trace \<times> DescentPosFlags \<Rightarrow> Trace \<times> DescentPosFlags" where
  "rdg_step kind pen_rdg p2 re fw rootpri dsc cur5pi cur5pf cur5pi_i cur5pf_i off5p depth d p j =
   (\<lambda>(es, fl).
     if rd (tbl_b dsc p) j \<le> rd (tbl_t dsc p) j then (es, fl)
     else
       let (ok, fl1) = rdgExplore fl j in
       if \<not> ok then (es, fl1)
       else
         let topf = rd (p_topf p) j; botf = rd (p_botf p) j in
         if re_contains re (fw, cur5pi_i, cur5pf_i, ref_span cur5pi cur5pf (d_gapadd dsc), topf, botf)
              (d_pen dsc + pen_rdg)
         then (es, fl1)
         else
           let width = ioff_sub (rd (tbl_b dsc p) j) (rd (tbl_t dsc p) j);
               off = u32 (int (u32 (int off5p)) + (if d_l2r dsc then 0 else 1));
               edit = (mkEdit off (dna2asc j) (CHR ''-'') EDIT_TYPE_READ_GAP)\<lparr>e_pos2 := p2\<rparr>;
               pri = \<lparr>pri_pen = d_pen dsc + pen_rdg, pri_depth = depth, pri_width = width,
                      pri_rootpri = rootpri\<rparr>
           in (es @ [(kind, edge_init edit off5p pri d)], fl1))"

text \<open>
  A reference-gap block (\<open>topd\<close>, \<open>botd\<close> are the source's \<open>top\<close>, \<open>bot\<close>): the extension (lines 474--504, tag \<open>K_RFG_EX\<close>) and the
  opening (lines 541--571, tag \<open>K_RFG_OP\<close>) differ in the penalty only.
\<close>

definition rfg_step ::
  "EdgeKind \<Rightarrow> TScore \<Rightarrow> Redundancy \<Rightarrow> bool \<Rightarrow> TRootPri \<Rightarrow> Descent \<Rightarrow> nat \<Rightarrow> nat \<Rightarrow>
   TReadOff \<Rightarrow> nat \<Rightarrow> nat \<Rightarrow> TIndexOff \<Rightarrow> TIndexOff \<Rightarrow> TIndexOff \<Rightarrow> TIndexOff \<Rightarrow> int \<Rightarrow>
   Trace \<times> DescentPosFlags \<Rightarrow> Trace \<times> DescentPosFlags" where
  "rfg_step kind pen_rfg re fw rootpri dsc cur5pi cur5pf off5p depth d topd botd topp botp c =
   (\<lambda>(es, fl).
     let (ok, fl1) = rfgExplore fl in
     if \<not> ok then (es, fl1)
     else
       let topf = (if d_l2r dsc then topp else topd);
           botf = (if d_l2r dsc then botp else botd);
           nrefal = nrefal_of cur5pi cur5pf (d_gapadd dsc)
       in
       if re_contains re (fw, cur5pi, cur5pf, nrefal, topf, botf) (d_pen dsc + pen_rfg)
       then (es, fl1)
       else
         let width = ioff_sub botd topd;
             edit = mkEdit (u32 (int off5p)) (CHR ''-'') (dna2asc (nat c)) EDIT_TYPE_REF_GAP;
             pri = \<lparr>pri_pen = d_pen dsc + pen_rfg, pri_depth = depth, pri_width = width,
                    pri_rootpri = rootpri\<rparr>
         in (es @ [(kind, edge_init edit off5p pri d)], fl1))"

text \<open>
  The total width of the four ranges of a position and the test that all of it lies
  under the read character \<open>c\<close> (lines 419--424). The differences and their sum are
  taken in \<open>TIndexOff\<close>, so they wrap around where a range has its end below its start.
\<close>

definition totwidth :: "nat list \<Rightarrow> nat list \<Rightarrow> nat" where
  "totwidth t b =
     ioff_add (ioff_add (ioff_add (ioff_sub (rd b 0) (rd t 0)) (ioff_sub (rd b 1) (rd t 1)))
                 (ioff_sub (rd b 2) (rd t 2))) (ioff_sub (rd b 3) (rd t 3))"

definition allmatch :: "nat list \<Rightarrow> nat list \<Rightarrow> int \<Rightarrow> bool" where
  "allmatch t b c = (totwidth t b = ioff_sub (rd b (nat c)) (rd t (nat c)))"

text \<open>
  The body of the enumeration loop at one read position (lines 362--574). It returns
  the edges emitted there and the flags of the position record afterwards; \<open>topd\<close>,
  \<open>botd\<close> stand for the source's \<open>top\<close>, \<open>bot\<close>.
\<close>

definition recalc_pos ::
  "DescentQuery \<Rightarrow> Scoring \<Rightarrow> Redundancy \<Rightarrow> DescentRoot list \<Rightarrow> DescentConfig list \<Rightarrow> Descent \<Rightarrow>
   TReadOff \<Rightarrow> nat \<Rightarrow> nat \<Rightarrow> nat \<Rightarrow> nat \<Rightarrow> nat \<Rightarrow>
   TIndexOff \<Rightarrow> TIndexOff \<Rightarrow> TIndexOff \<Rightarrow> TIndexOff \<Rightarrow> DescentPos \<Rightarrow> Trace \<times> DescentPosFlags" where
  "recalc_pos q sc re rs cs dsc off5p off3p depth d cur5pi cur5pf topd botd topp botp p =
   (let fw = r_fw (rs ! d_rid dsc);
        rootpri = r_pri (rs ! d_rid dsc);
        toward3p = (d_l2r dsc = fw);
        maxpen = cf_cons (cs ! d_rid dsc) depth;
        diff = maxpen - d_pen dsc;
        t = tbl_t dsc p;
        b = tbl_b dsc p;
        (c, qq) = q_get q off5p fw;
        fl0 = p_flags p
    in
    if \<not> exhausted fl0 \<and> diff > 0 then
      let pen_mm = sc_mm sc c qq;
          r1 = (if pen_mm \<le> diff
                then fold (mm_step re fw rootpri dsc cur5pi cur5pf off5p depth d p c pen_mm)
                       [0, 1, 2, 3] ([], fl0)
                else ([], fl0));
          gapsAllowed = (off5p \<ge> sc_gapbar sc \<and> off3p \<ge> sc_gapbar sc)
      in
      if gapsAllowed then
        let am = allmatch t b c;
            cur5pi_i = (if toward3p then cur5pi else size_add cur5pi 1);
            cur5pf_i = (if toward3p then size_sub cur5pf 1 else cur5pf);
            atroot = (off5p = d_off5p_i dsc \<and> inited (d_edit dsc));
            rdex = (atroot \<and> sc_readGapExtend sc \<le> diff \<and> isReadGap (d_edit dsc));
            r2 = (if rdex
                  then fold (rdg_step K_RDG_EX (sc_readGapExtend sc)
                               (u32 (int (e_pos2 (d_edit dsc)) + (if d_l2r dsc then 1 else -1)))
                               re fw rootpri dsc cur5pi cur5pf cur5pi_i cur5pf_i off5p depth d p)
                         [0, 1, 2, 3] r1
                  else r1);
            rfex = (atroot \<and> sc_refGapExtend sc \<le> diff \<and> isRefGap (d_edit dsc));
            r3 = (if rfex
                  then rfg_step K_RFG_EX (sc_refGapExtend sc) re fw rootpri dsc cur5pi cur5pf
                         off5p depth d topd botd topp botp c r2
                  else r2);
            r4 = (if \<not> am \<and> sc_readGapOpen sc \<le> diff \<and> \<not> rdex
                  then fold (rdg_step K_RDG_OP (sc_readGapOpen sc) pos2_default
                               re fw rootpri dsc cur5pi cur5pf cur5pi_i cur5pf_i off5p depth d p)
                         [0, 1, 2, 3] r3
                  else r3);
            r5 = (if \<not> am \<and> sc_refGapOpen sc \<le> diff \<and> \<not> rfex
                  then rfg_step K_RFG_OP (sc_refGapOpen sc) re fw rootpri dsc cur5pi cur5pf
                         off5p depth d topd botd topp botp c r4
                  else r4)
        in r5
      else r1
    else ([], fl0))"

text \<open>
  The enumeration loop (lines 359--598), from the root of the descent outwards. The
  record index \<open>d\<close> starts at \<open>posid_\<close>, which is the all-ones sentinel only while the
  descent owns no position record; the source then reads outside the arena, and the
  model lets \<open>d\<close> run on past the sentinel.
\<close>

function recalc_loop ::
  "DescentQuery \<Rightarrow> Scoring \<Rightarrow> Redundancy \<Rightarrow> DescentRoot list \<Rightarrow> DescentConfig list \<Rightarrow> Descent \<Rightarrow>
   bool \<Rightarrow> nat \<Rightarrow> nat \<Rightarrow> TReadOff \<Rightarrow> nat \<Rightarrow> nat \<Rightarrow> nat \<Rightarrow> nat \<Rightarrow> nat \<Rightarrow>
   TIndexOff \<Rightarrow> TIndexOff \<Rightarrow> TIndexOff \<Rightarrow> TIndexOff \<Rightarrow> DescentPos list \<Rightarrow> Trace \<times> DescentPos list" where
  "recalc_loop q sc re rs cs dsc toward3p extrai extraf off5p off3p depth d cur5pi cur5pf
     topd botd topp botp pf =
   (if off5p \<ge> d_al5pi dsc - extrai \<and> off5p \<le> d_al5pf dsc + extraf then
      let p = pfat pf d;
          r = recalc_pos q sc re rs cs dsc off5p off3p depth d cur5pi cur5pf topd botd topp botp p;
          pf1 = pf[d := p\<lparr>p_flags := snd r\<rparr>];
          c = nat (fst (q_get q off5p (r_fw (rs ! d_rid dsc))))
      in
      if toward3p then
        if off3p = 0 then (fst r, pf1)
        else
          (case recalc_loop q sc re rs cs dsc toward3p extrai extraf (off5p + 1) (off3p - 1)
                  (depth + 1) (d + 1) cur5pi (cur5pf + 1)
                  (rd (tbl_t dsc p) c) (rd (tbl_b dsc p) c) (rd (tbl_tp dsc p) c) (rd (tbl_bp dsc p) c) pf1
           of (es, pf2) \<Rightarrow> (fst r @ es, pf2))
      else
        if off5p = 0 then (fst r, pf1)
        else
          (case recalc_loop q sc re rs cs dsc toward3p extrai extraf (off5p - 1) (off3p + 1)
                  (depth + 1) (d + 1) (size_sub cur5pi 1) cur5pf
                  (rd (tbl_t dsc p) c) (rd (tbl_b dsc p) c) (rd (tbl_tp dsc p) c) (rd (tbl_bp dsc p) c) pf1
           of (es, pf2) \<Rightarrow> (fst r @ es, pf2))
    else ([], pf))"
  by pat_completeness auto
termination
  by (relation "measure (\<lambda>(q, sc, re, rs, cs, dsc, toward3p, extrai, extraf, off5p, rest).
        if toward3p then d_al5pf dsc + extraf + 1 - off5p else off5p)") auto

declare recalc_loop.simps [simp del]

text \<open>The enumeration from the initial offsets (lines 311--358).\<close>

definition recalc_edges ::
  "DescentQuery \<Rightarrow> Scoring \<Rightarrow> Redundancy \<Rightarrow> DescentPos list \<Rightarrow> DescentRoot list \<Rightarrow>
   DescentConfig list \<Rightarrow> Descent \<Rightarrow> Trace \<times> DescentPos list" where
  "recalc_edges q sc re pf rs cs dsc =
   (let fw = r_fw (rs ! d_rid dsc);
        toward3p = (d_l2r dsc = fw);
        off5p = d_off5p_i dsc;
        off3p = size_sub (size_sub (qlength q) off5p) 1;
        depth = (if toward3p then size_sub off5p (d_al5pi dsc) else size_sub (d_al5pf dsc) off5p);
        extraf = (if toward3p \<and> d_al5pf dsc < size_sub (qlength q) 1 then 1 else 0);
        extrai = (if \<not> toward3p \<and> d_al5pi dsc > 0 then 1 else 0);
        cur5pi = (if toward3p then d_al5pi dsc else off5p);
        cur5pf = (if toward3p then off5p else d_al5pf dsc);
        topd = (if d_l2r dsc then d_topb dsc else d_topf dsc);
        botd = (if d_l2r dsc then d_botb dsc else d_botf dsc);
        topp = (if d_l2r dsc then d_topf dsc else d_topb dsc);
        botp = (if d_l2r dsc then d_botf dsc else d_botb dsc)
    in recalc_loop q sc re rs cs dsc toward3p extrai extraf off5p off3p depth (d_posid dsc)
         cur5pi cur5pf topd botd topp botp pf)"

text \<open>
  \<open>recalcOutgoing\<close> offers every emitted edge to the ranker, sets \<open>lastRecalc_\<close> and
  refreshes the flags of the five slots (lines 599--605). It returns the number of
  edges found, the descent and the position arena.
\<close>

definition recalcOutgoing ::
  "DescentQuery \<Rightarrow> Scoring \<Rightarrow> Redundancy \<Rightarrow> DescentPos list \<Rightarrow> DescentRoot list \<Rightarrow>
   DescentConfig list \<Rightarrow> Descent \<Rightarrow> nat \<times> Descent \<times> DescentPos list" where
  "recalcOutgoing q sc re pf rs cs dsc =
   (let r = recalc_edges q sc re pf rs cs dsc;
        out1 = foldl out_update (d_out dsc) (map snd (fst r));
        nout = length (fst r);
        pf2 = fold updateFlags out1 (snd r)
    in (nout, dsc\<lparr>d_out := out1, d_lastRecalc := (nout \<le> 5)\<rparr>, pf2))"

section \<open>State of a search\<close>

text \<open>
  The index is used through its interface only. A side locus is the row it was
  initialised from, or invalid.
\<close>

type_synonym SideLocus = "nat option"

record Ebwt =
  ftabChars :: nat
  fchr :: "nat list"
  ftabLoHi :: "nat list \<Rightarrow> nat \<Rightarrow> bool \<Rightarrow> TIndexOff \<times> TIndexOff"
  mapBiLFEx :: "SideLocus \<Rightarrow> SideLocus \<Rightarrow> nat list \<Rightarrow> nat list \<Rightarrow> nat list \<Rightarrow> nat list \<Rightarrow>
                nat list \<times> nat list \<times> nat list \<times> nat list"
  mapLF1 :: "TIndexOff \<Rightarrow> SideLocus \<Rightarrow> int"

text \<open>
  Modelled from the spec: \<open>DescentAlignmentSink\<close> is defined outside the sources at
  hand. \<open>reportAlignment\<close> appends the hit (SA range in both indices, leaf descent,
  root, trailing edit, penalty) unless a hit with the same SA ranges is recorded.
\<close>

record Hit =
  h_topf :: TIndexOff
  h_botf :: TIndexOff
  h_topb :: TIndexOff
  h_botb :: TIndexOff
  h_descid :: TDescentId
  h_rid :: TRootId
  h_edit :: Edit
  h_pen :: TScore

definition same_range :: "Hit \<Rightarrow> Hit \<Rightarrow> bool" where
  "same_range x y = (h_topf x = h_topf y \<and> h_botf x = h_botf y \<and> h_topb x = h_topb y \<and> h_botb x = h_botb y)"

definition reportAlignment :: "Hit list \<Rightarrow> Hit \<Rightarrow> Hit list" where
  "reportAlignment sink h = (if list_ex (same_range h) sink then sink else sink @ [h])"

text \<open>
  Modelled from the spec: \<open>EHeap\<close> is defined outside the sources at hand. The frontier
  is a min-heap of pairs (priority, descent id); \<open>pop\<close> removes a least pair.
\<close>

type_synonym TDescentPair = "DescentPriority \<times> TDescentId"

definition pair_less :: "TDescentPair \<Rightarrow> TDescentPair \<Rightarrow> bool" where
  "pair_less a b = (pri_less (fst a) (fst b) \<or> (\<not> pri_less (fst b) (fst a) \<and> snd a < snd b))"

fun heap_min :: "TDescentPair \<Rightarrow> TDescentPair list \<Rightarrow> TDescentPair" where
  "heap_min m [] = m"
| "heap_min m (x # xs) = heap_min (if pair_less x m then x else m) xs"

definition heap_insert :: "TDescentPair list \<Rightarrow> TDescentPair \<Rightarrow> TDescentPair list" where
  "heap_insert h x = h @ [x]"

definition heap_pop :: "TDescentPair list \<Rightarrow> TDescentPair \<times> TDescentPair list" where
  "heap_pop h = (case h of [] \<Rightarrow> ((pri_null, 0), [])
                 | x # xs \<Rightarrow> (let m = heap_min x xs in (m, remove1 m h)))"

record State =
  st_df :: "Descent list"
  st_pf :: "DescentPos list"
  st_re :: Redundancy
  st_heap :: "TDescentPair list"
  st_alsink :: "Hit list"
  st_met :: Metrics

record Env =
  env_q :: DescentQuery
  env_sc :: Scoring
  env_fw :: Ebwt
  env_bw :: Ebwt
  env_rs :: "DescentRoot list"
  env_cs :: "DescentConfig list"

section \<open>followMatches: exact extension\<close>

definition nobranchDepth :: nat where
  "nobranchDepth = 20"

text \<open>
  One round of the initial direction loop (lines 1073--1100): either the direction is
  flipped and the loop continues (\<open>Inl\<close>), or it breaks with \<open>toward3p\<close> and \<open>off5p\<close>.
\<close>

definition fm_dir_step :: "DescentQuery \<Rightarrow> bool \<Rightarrow> Descent \<Rightarrow> Descent + bool \<times> TReadOff" where
  "fm_dir_step q fw dsc =
   (let toward3p = (d_l2r dsc = fw) in
    if toward3p then
      if d_al5pf dsc = size_sub (qlength q) 1 then Inl (dsc\<lparr>d_l2r := \<not> d_l2r dsc\<rparr>)
      else Inr (toward3p, if d_al5pi dsc = d_al5pf dsc then d_al5pi dsc else d_al5pf dsc + 1)
    else
      if d_al5pi dsc = 0 then Inl (dsc\<lparr>d_l2r := \<not> d_l2r dsc\<rparr>)
      else Inr (toward3p, if d_al5pi dsc = d_al5pf dsc then d_al5pi dsc
                          else size_sub (d_al5pi dsc) 1))"

text \<open>
  The loop changes nothing but \<open>l2r_\<close>: after two flips in a row it is back in its
  initial state and never ends, which is the value \<open>None\<close>.
\<close>

definition fm_direction :: "DescentQuery \<Rightarrow> bool \<Rightarrow> Descent \<Rightarrow> (Descent \<times> bool \<times> TReadOff) option" where
  "fm_direction q fw dsc =
   (case fm_dir_step q fw dsc of
      Inr r \<Rightarrow> Some (dsc, r)
    | Inl dsc1 \<Rightarrow>
        (case fm_dir_step q fw dsc1 of
           Inr r \<Rightarrow> Some (dsc1, r)
         | Inl dsc2 \<Rightarrow> None))"

text \<open>The local variables of \<open>followMatches\<close> together with what it mutates.\<close>

record FMLocals =
  l_dsc :: Descent
  l_pf :: "DescentPos list"
  l_re :: Redundancy
  l_met :: Metrics
  l_topf :: TIndexOff
  l_botf :: TIndexOff
  l_topb :: TIndexOff
  l_botb :: TIndexOff
  l_off5p :: TReadOff
  l_tloc :: SideLocus
  l_bloc :: SideLocus
  l_firstPos :: bool
  l_branches :: bool
  l_hitEnd :: bool
  l_done :: bool
  l_fail :: bool

definition nextLocsBi ::
  "bool \<Rightarrow> TIndexOff \<Rightarrow> TIndexOff \<Rightarrow> TIndexOff \<Rightarrow> TIndexOff \<Rightarrow> SideLocus \<times> SideLocus" where
  "nextLocsBi ltr topf botf topb botb =
   (if ltr then
      (if ioff_sub botb topb = 1 then (Some topb, None) else (Some topb, Some botb))
    else
      (if ioff_sub botf topf = 1 then (Some topf, None) else (Some topf, Some botf)))"

text \<open>
  Installing the range of character \<open>ch\<close> in the position record \<open>id\<close> (lines
  1202--1206 and 1246--1250).
\<close>

definition set_pos_range ::
  "DescentPos list \<Rightarrow> nat \<Rightarrow> int \<Rightarrow> TIndexOff \<Rightarrow> TIndexOff \<Rightarrow> TIndexOff \<Rightarrow> TIndexOff \<Rightarrow> DescentPos list" where
  "set_pos_range pf i ch topf botf topb botb =
   (let p = pfat pf i in
    pf[i := p\<lparr>p_c := ch,
               p_topf := (p_topf p)[nat ch := topf], p_botf := (p_botf p)[nat ch := botf],
               p_topb := (p_topb p)[nat ch := topb], p_botb := (p_botb p)[nat ch := botb]\<rparr>])"

text \<open>
  The first step of a root descent (lines 1117--1260): a jump through the ftab, or one
  character through fchr. Each of the two returns \<open>None\<close> where the source returns
  false for an empty range.
\<close>

definition fm_ftab :: "Env \<Rightarrow> bool \<Rightarrow> bool \<Rightarrow> FMLocals \<Rightarrow> FMLocals option" where
  "fm_ftab env fw toward3p l =
   (let q = env_q env;
        dsc = l_dsc l;
        off5p = l_off5p l;
        ftabLen = ftabChars (env_fw env);
        rseq = (if fw then q_seq q else q_seqrc q);
        qend = size_sub (qlength q) 1;
        off0 = (if fw then off5p else size_sub (size_sub (qlength q) off5p) 1);
        off_r2l = (if d_l2r dsc then off0 else size_sub off0 (ftabLen - 1));
        lohi = ftabLoHi (env_fw env) rseq off_r2l False;
        topf = fst lohi;
        botf = snd lohi
    in
    if botf = topf then None
    else
      let c_r2l = sq rseq off_r2l;
          off_l2r = (if d_l2r dsc then off0 else size_sub off0 (ftabLen - 1));
          lohib = ftabLoHi (env_bw env) rseq off_l2r False;
          topb = fst lohib;
          botb = snd lohib;
          c_l2r = sq rseq (off_l2r + ftabLen - 1);
          off5p1 = (if toward3p then off5p + ftabLen else size_sub off5p ftabLen);
          al5pf1 = (if toward3p then d_al5pf dsc + (ftabLen - 1) else d_al5pf dsc);
          al5pi1 = (if toward3p then d_al5pi dsc else size_sub (d_al5pi dsc) (ftabLen - 1));
          hitEnd = (if toward3p then al5pf1 = qend else al5pi1 = 0);
          done = (hitEnd \<and> (if toward3p then al5pi1 = 0 else al5pf1 = qend));
          first = length (l_pf l);
          pf1 = l_pf l @ replicate ftabLen pos_reset;
          i = first + ftabLen - 1;
          posid1 = (if l_firstPos l then first else d_posid dsc);
          ch = int (if d_l2r dsc then c_l2r else c_r2l);
          pf2 = set_pos_range pf1 i ch topf botf topb botb
      in Some (l\<lparr>l_dsc := dsc\<lparr>d_len := d_len dsc + ftabLen, d_al5pi := al5pi1, d_al5pf := al5pf1,
                                d_posid := posid1\<rparr>,
                l_pf := pf2, l_topf := topf, l_botf := botf, l_topb := topb, l_botb := botb,
                l_off5p := off5p1, l_firstPos := False, l_hitEnd := hitEnd, l_done := done\<rparr>))"

definition fm_fchr :: "Env \<Rightarrow> bool \<Rightarrow> bool \<Rightarrow> FMLocals \<Rightarrow> FMLocals option" where
  "fm_fchr env fw toward3p l =
   (let q = env_q env;
        dsc = l_dsc l;
        off5p = l_off5p l;
        qend = size_sub (qlength q) 1;
        rdc = q_getc q off5p fw;
        topf = sq (fchr (env_fw env)) (nat rdc);
        botf = sq (fchr (env_fw env)) (nat (rdc + 1))
    in
    if botf = topf then None
    else
      let off5p1 = (if toward3p then off5p + 1 else size_sub off5p 1);
          hitEnd = (if toward3p then d_al5pf dsc = qend else d_al5pi dsc = 0);
          done = (hitEnd \<and> (if toward3p then d_al5pi dsc = 0 else d_al5pf dsc = qend));
          i = length (l_pf l);
          pf1 = l_pf l @ [pos_reset];
          posid1 = (if l_firstPos l then i else d_posid dsc);
          pf2 = set_pos_range pf1 i rdc topf botf topf botf
      in Some (l\<lparr>l_dsc := dsc\<lparr>d_len := d_len dsc + 1, d_posid := posid1\<rparr>,
                l_pf := pf2, l_topf := topf, l_botf := botf, l_topb := topf, l_botb := botf,
                l_off5p := off5p1, l_firstPos := False, l_hitEnd := hitEnd, l_done := done\<rparr>))"

text \<open>The redundancy key of the alignment so far (line 1257).\<close>

definition fm_key :: "bool \<Rightarrow> FMLocals \<Rightarrow> RedKey" where
  "fm_key fw l =
   (fw, d_al5pi (l_dsc l), d_al5pf (l_dsc l),
    ref_span (d_al5pi (l_dsc l)) (d_al5pf (l_dsc l)) (d_gapadd (l_dsc l)), l_topf l, l_botf l)"

text \<open>
  The choice between the two (lines 1120--1127), and the redundancy check after
  either (lines 1254--1259). The result is false when \<open>followMatches\<close> returns false
  here.
\<close>

definition ftabFits :: "Env \<Rightarrow> bool \<Rightarrow> TReadOff \<Rightarrow> bool" where
  "ftabFits env toward3p off5p =
   (if toward3p \<and> ftabChars (env_fw env) + off5p > qlength (env_q env) then False
    else if \<not> toward3p \<and> off5p < ftabChars (env_fw env) then False
    else True)"

definition fm_root :: "Env \<Rightarrow> bool \<Rightarrow> bool \<Rightarrow> FMLocals \<Rightarrow> bool \<times> FMLocals" where
  "fm_root env fw toward3p l =
   (let ftabLen = ftabChars (env_fw env);
        r1 = (if ftabLen > 1 \<and> ftabLen \<le> nobranchDepth \<and> ftabFits env toward3p (l_off5p l)
              then fm_ftab env fw toward3p l
              else fm_fchr env fw toward3p l)
    in
    case r1 of
      None \<Rightarrow> (False, l)
    | Some l1 \<Rightarrow>
        let r = re_check (l_re l1) (fm_key fw l1) (d_pen (l_dsc l1))
        in if \<not> fst r then (False, l1) else (True, l1\<lparr>l_re := snd r\<rparr>))"

text \<open>
  The bidirectional LF step of one round (lines 1306--1351): \<open>mapBiLFEx\<close> fills the
  four tables from the loci; \<open>mapLF1\<close> yields the one character that extends a single
  row. The result holds the tables \<open>t\<close>, \<open>b\<close>, \<open>tp\<close>, \<open>bp\<close>, whether the read character
  failed to match, \<open>branches\<close>, and the metrics.
\<close>

definition fm_lf ::
  "Env \<Rightarrow> bool \<Rightarrow> FMLocals \<Rightarrow>
   (nat list \<times> nat list \<times> nat list \<times> nat list) \<times> bool \<times> bool \<times> Metrics" where
  "fm_lf env fw l =
   (let rdc = q_getc (env_q env) (l_off5p l) fw;
        r = nat rdc;
        width = ioff_sub (l_botf l) (l_topf l);
        ltr = d_l2r (l_dsc l);
        ebwt = (if ltr then env_bw env else env_fw env);
        z = [0, 0, 0, 0]
    in
    if l_bloc l \<noteq> None then
      let tp0 = replicate 4 (if ltr then l_topf l else l_topb l);
          bp0 = replicate 4 (if ltr then l_botf l else l_botb l);
          tbl = mapBiLFEx ebwt (l_tloc l) (l_bloc l) z z tp0 bp0;
          t = fst tbl;
          b = fst (snd tbl)
      in (tbl, rd b r \<le> rd t r, l_branches l \<or> ioff_sub (rd b r) (rd t r) < width,
          (l_met l)\<lparr>bwops := bwops (l_met l) + 1, bwops_bi := bwops_bi (l_met l) + 1\<rparr>)
    else
      let ntop = (if ltr then l_topb l else l_topf l);
          cc = mapLF1 ebwt ntop (l_tloc l);
          fl = (cc \<noteq> rdc);
          tbl = (if cc \<ge> 0
                 then (z[nat cc := ntop], z[nat cc := ntop + 1],
                       z[nat cc := (if ltr then l_topf l else l_topb l)],
                       z[nat cc := (if ltr then l_botf l else l_botb l)])
                 else (z, z, z, z))
      in (tbl, fl, l_branches l \<or> fl,
          (l_met l)\<lparr>bwops := bwops (l_met l) + 1, bwops_1 := bwops_1 (l_met l) + 1\<rparr>))"

text \<open>
  The redundancy key of the alignment extended by one character (lines 1387--1393).
\<close>

definition fm_next_key :: "bool \<Rightarrow> bool \<Rightarrow> Descent \<Rightarrow> TIndexOff \<Rightarrow> TIndexOff \<Rightarrow> RedKey" where
  "fm_next_key fw toward3p dsc topf botf =
   (let al5pf = (if toward3p then d_al5pf dsc + 1 else d_al5pf dsc);
        al5pi = (if toward3p then d_al5pi dsc else size_sub (d_al5pi dsc) 1)
    in (fw, al5pi, al5pf, ref_span al5pi al5pf (d_gapadd dsc), topf, botf))"

text \<open>One round of the extension loop (lines 1298--1419).\<close>

definition fm_iter :: "Env \<Rightarrow> bool \<Rightarrow> bool \<Rightarrow> FMLocals \<Rightarrow> FMLocals" where
  "fm_iter env fw toward3p l =
   (let q = env_q env;
        dsc = l_dsc l;
        rdc = q_getc q (l_off5p l) fw;
        r = nat rdc;
        ltr = d_l2r dsc;
        qend = size_sub (qlength q) 1;
        lf = fm_lf env fw l;
        t = fst (fst lf);
        b = fst (snd (fst lf));
        tp = fst (snd (snd (fst lf)));
        bp = snd (snd (snd (fst lf)));
        fail1 = fst (snd lf);
        branches1 = fst (snd (snd lf));
        met1 = snd (snd (snd lf));
        topf = (if ltr then rd tp r else rd t r);
        botf = (if ltr then rd bp r else rd b r);
        topb = (if ltr then rd t r else rd tp r);
        botb = (if ltr then rd b r else rd bp r);
        tf = (if ltr then tp else t);
        bf = (if ltr then bp else b);
        tb = (if ltr then t else tp);
        bb = (if ltr then b else bp);
        a = alloc pos_reset (l_pf l);
        posid1 = (if l_firstPos l then fst a else d_posid dsc);
        k = posid1 + d_len dsc;
        pf2 = (snd a)[k := pos_reset\<lparr>p_c := rdc,
                 p_topf := map (rd tf) [0, 1, 2, 3], p_botf := map (rd bf) [0, 1, 2, 3],
                 p_topb := map (rd tb) [0, 1, 2, 3], p_botb := map (rd bb) [0, 1, 2, 3]\<rparr>];
        key = fm_next_key fw toward3p dsc topf botf;
        ck = (if \<not> fail1 then re_check (l_re l) key (d_pen dsc) else (False, l_re l));
        fail2 = (if \<not> fail1 then \<not> fst ck else fail1);
        al5pi1 = (if \<not> fail2 then fst (snd key) else d_al5pi dsc);
        al5pf1 = (if \<not> fail2 then fst (snd (snd key)) else d_al5pf dsc);
        len1 = (if \<not> fail2 then d_len dsc + 1 else d_len dsc);
        off5p1 = (if \<not> fail2 then (if toward3p then l_off5p l + 1 else size_sub (l_off5p l) 1)
                  else l_off5p l);
        atEnd = (\<not> fail2 \<and> (if toward3p then al5pf1 = qend else al5pi1 = 0));
        hitEnd = (if atEnd then True else l_hitEnd l);
        done = (if atEnd then (if toward3p then al5pi1 = 0 else al5pf1 = qend) else l_done l);
        locs = (if \<not> fail2 \<and> \<not> hitEnd then nextLocsBi ltr (rd tf r) (rd bf r) (rd tb r) (rd bb r)
                else (l_tloc l, l_bloc l))
    in l\<lparr>l_dsc := dsc\<lparr>d_posid := posid1, d_len := len1, d_al5pi := al5pi1, d_al5pf := al5pf1\<rparr>,
          l_pf := pf2, l_re := snd ck, l_met := met1,
          l_topf := topf, l_botf := botf, l_topb := topb, l_botb := botb,
          l_off5p := off5p1, l_tloc := fst locs, l_bloc := snd locs, l_firstPos := False,
          l_branches := branches1, l_hitEnd := hitEnd, l_done := done, l_fail := fail2\<rparr>)"

text \<open>
  The extension loop. Each round reads one more character of the query, so more than
  \<open>fuel\<close> rounds, with \<open>fuel\<close> above the length of the query, read outside the query:
  the model has no value for such a run.
\<close>

fun fm_loop :: "nat \<Rightarrow> Env \<Rightarrow> bool \<Rightarrow> bool \<Rightarrow> FMLocals \<Rightarrow> FMLocals option" where
  "fm_loop 0 env fw toward3p l = (if \<not> l_fail l \<and> \<not> l_hitEnd l then None else Some l)"
| "fm_loop (Suc n) env fw toward3p l =
     (if \<not> l_fail l \<and> \<not> l_hitEnd l then fm_loop n env fw toward3p (fm_iter env fw toward3p l)
      else Some l)"

text \<open>
  The locals once the direction is settled (lines 1068--1116): the range of the
  descent, \<open>off5p\<close> and \<open>off5p_i\<close>, no position allocated yet, all flags false.
\<close>

definition fm_start :: "Descent \<Rightarrow> State \<Rightarrow> TReadOff \<Rightarrow> FMLocals" where
  "fm_start dsc st off5p =
   \<lparr>l_dsc = dsc\<lparr>d_off5p_i := off5p\<rparr>, l_pf = st_pf st, l_re = st_re st, l_met = st_met st,
    l_topf = d_topf dsc, l_botf = d_botf dsc, l_topb = d_topb dsc, l_botb = d_botb dsc,
    l_off5p = off5p, l_tloc = None, l_bloc = None, l_firstPos = True, l_branches = False,
    l_hitEnd = False, l_done = False, l_fail = False\<rparr>"

text \<open>The loci of the range after the first step (line 1290).\<close>

definition fm_locs :: "FMLocals \<Rightarrow> FMLocals" where
  "fm_locs l =
   (let locs = nextLocsBi (d_l2r (l_dsc l)) (l_topf l) (l_botf l) (l_topb l) (l_botb l)
    in l\<lparr>l_tloc := fst locs, l_bloc := snd locs\<rparr>)"

text \<open>What \<open>followMatches\<close> hands back besides the mutated state.\<close>

record FMResult =
  fm_ret :: bool
  fm_dsc :: Descent
  fm_branches :: bool
  fm_hitEnd :: bool
  fm_done :: bool
  fm_topf_bounce :: TIndexOff
  fm_botf_bounce :: TIndexOff
  fm_topb_bounce :: TIndexOff
  fm_botb_bounce :: TIndexOff

text \<open>
  The exits after the first step and after the loop (lines 1261--1287 and 1423--1451):
  a full alignment is reported, an extremity hands the range over for the bounce.
\<close>

definition fm_exit :: "State \<Rightarrow> FMLocals \<Rightarrow> FMResult \<times> State" where
  "fm_exit st l =
   (let dsc = l_dsc l;
        st1 = st\<lparr>st_pf := l_pf l, st_re := l_re l, st_met := l_met l\<rparr>;
        res = \<lparr>fm_ret = True, fm_dsc = dsc, fm_branches = l_branches l, fm_hitEnd = l_hitEnd l,
               fm_done = l_done l, fm_topf_bounce = 0, fm_botf_bounce = 0, fm_topb_bounce = 0,
               fm_botb_bounce = 0\<rparr>
    in
    if l_done l then
      (res, st1\<lparr>st_alsink := reportAlignment (st_alsink st1)
                    \<lparr>h_topf = l_topf l, h_botf = l_botf l, h_topb = l_topb l, h_botb = l_botb l,
                     h_descid = d_descid dsc, h_rid = d_rid dsc, h_edit = e_null,
                     h_pen = d_pen dsc\<rparr>\<rparr>)
    else if l_hitEnd l then
      (res\<lparr>fm_topf_bounce := l_topf l, fm_botf_bounce := l_botf l,
            fm_topb_bounce := l_topb l, fm_botb_bounce := l_botb l\<rparr>, st1)
    else (res, st1))"

definition followMatches :: "Env \<Rightarrow> Descent \<Rightarrow> State \<Rightarrow> (FMResult \<times> State) option" where
  "followMatches env dsc st =
   (let q = env_q env;
        fw = r_fw (env_rs env ! d_rid dsc)
    in
    case fm_direction q fw dsc of
      None \<Rightarrow> None
    | Some (dsc0, toward3p, off5p) \<Rightarrow>
        let l0 = fm_start dsc0 st off5p;
            r = (if root (l_dsc l0) then fm_root env fw toward3p l0 else (True, l0));
            l1 = snd r
        in
        if \<not> fst r then
          Some (\<lparr>fm_ret = False, fm_dsc = l_dsc l1, fm_branches = False, fm_hitEnd = l_hitEnd l1,
                  fm_done = l_done l1, fm_topf_bounce = 0, fm_botf_bounce = 0,
                  fm_topb_bounce = 0, fm_botb_bounce = 0\<rparr>,
                st\<lparr>st_pf := l_pf l1, st_re := l_re l1, st_met := l_met l1\<rparr>)
        else if l_done l1 \<or> l_hitEnd l1 then Some (fm_exit st l1)
        else
          case fm_loop (qlength q + 1) env fw toward3p (fm_locs l1) of
            None \<Rightarrow> None
          | Some l3 \<Rightarrow> Some (fm_exit st l3))"

section \<open>Descent::init and bounce\<close>

text \<open>
  The member assignments of the branching \<open>init\<close> (lines 117--143) and of the root
  \<open>init\<close> (lines 220--236).
\<close>

definition mk_branch ::
  "Descent list \<Rightarrow> TRootId \<Rightarrow> TReadOff \<Rightarrow> TReadOff \<Rightarrow> TIndexOff \<Rightarrow> TIndexOff \<Rightarrow> TIndexOff \<Rightarrow>
   TIndexOff \<Rightarrow> bool \<Rightarrow> nat \<Rightarrow> TDescentId \<Rightarrow> TScore \<Rightarrow> Edit \<Rightarrow> Descent" where
  "mk_branch df rid al5pi al5pf topf botf topb botb ltr descid parent pn ed =
   \<lparr>d_rid = rid, d_al5pi = al5pi, d_al5pf = al5pf, d_l2r = ltr,
    d_gapadd = d_gapadd (dfat df parent) +
       (if inited ed then (if isReadGap ed then 1 else if isRefGap ed then -1 else 0) else 0),
    d_off5p_i = 0, d_topf = topf, d_botf = botf, d_topb = topb, d_botb = botb,
    d_descid = descid, d_parent = parent, d_pen = pn, d_posid = SIZE_MAX, d_len = 0,
    d_out = [], d_edit = ed, d_lastRecalc = True\<rparr>"

definition mk_root :: "DescentRoot list \<Rightarrow> TRootId \<Rightarrow> nat \<Rightarrow> Descent" where
  "mk_root rs rid descid =
   \<lparr>d_rid = rid, d_al5pi = r_off5p (rs ! rid), d_al5pf = r_off5p (rs ! rid),
    d_l2r = r_l2r (rs ! rid), d_gapadd = 0, d_off5p_i = 0,
    d_topf = 0, d_botf = 0, d_topb = 0, d_botb = 0,
    d_descid = descid, d_parent = SIZE_MAX, d_pen = 0, d_posid = SIZE_MAX, d_len = 0,
    d_out = [], d_edit = e_null, d_lastRecalc = True\<rparr>"

text \<open>
  The child that \<open>bounce\<close> initialises (lines 737--754), as the branching \<open>init\<close>
  assigns it: \<open>df\<close> is the arena after the allocation of the child, \<open>descid\<close> its index.
\<close>

definition bounce_child ::
  "Descent list \<Rightarrow> TDescentId \<Rightarrow> Descent \<Rightarrow> TIndexOff \<Rightarrow> TIndexOff \<Rightarrow> TIndexOff \<Rightarrow> TIndexOff \<Rightarrow> Descent" where
  "bounce_child df descid dsc topf botf topb botb =
     mk_branch df (d_rid dsc) (d_al5pi dsc) (d_al5pf dsc) topf botf topb botb
       (\<not> d_l2r dsc) descid (d_descid dsc) (d_pen dsc) e_null"

text \<open>
  The common remainder of both \<open>init\<close> functions (lines 149--196 and 237--285) for the
  descent stored at \<open>this\<close>, and \<open>bounce\<close> (lines 714--772), which initialises a child
  in turn. The recursion between the two is bounded by \<open>fuel\<close>; running out of it is
  the value \<open>None\<close>.
\<close>

fun init_run :: "nat \<Rightarrow> Env \<Rightarrow> nat \<Rightarrow> Descent \<Rightarrow> State \<Rightarrow> (bool \<times> State) option"
and bounce ::
  "nat \<Rightarrow> Env \<Rightarrow> Descent \<Rightarrow> TIndexOff \<Rightarrow> TIndexOff \<Rightarrow> TIndexOff \<Rightarrow> TIndexOff \<Rightarrow> State \<Rightarrow> (bool \<times> State) option"
where
  "init_run 0 env this dsc0 st = None"
| "init_run (Suc n) env this dsc0 st =
     (case followMatches env dsc0 (st\<lparr>st_df := (st_df st)[this := dsc0]\<rparr>) of
        None \<Rightarrow> None
      | Some (r, st1) \<Rightarrow>
          let dsc1 = fm_dsc r;
              st2 = st1\<lparr>st_df := (st_df st1)[this := dsc1]\<rparr>
          in
          (case (if fm_hitEnd r \<and> \<not> fm_done r
                 then bounce n env dsc1 (fm_topf_bounce r) (fm_botf_bounce r)
                        (fm_topb_bounce r) (fm_botb_bounce r) st2
                 else Some (False, st2)) of
             None \<Rightarrow> None
           | Some (bounceSucc, st3) \<Rightarrow>
               if fm_ret r then
                 let rc = recalcOutgoing (env_q env) (env_sc env) (st_re st3) (st_pf st3)
                            (env_rs env) (env_cs env) dsc1;
                     dsc2 = fst (snd rc);
                     st4 = st3\<lparr>st_pf := snd (snd rc), st_df := (st_df st3)[this := dsc2]\<rparr>;
                     st5 = (if \<not> empty dsc2
                            then st4\<lparr>st_heap := heap_insert (st_heap st4) (bestPri (d_out dsc2), d_descid dsc2)\<rparr>
                            else st4)
                 in Some (\<not> empty dsc2 \<or> bounceSucc, st5)
               else Some (\<not> empty dsc1 \<or> bounceSucc, st3)))"
| "bounce n env dsc topf botf topb botb st =
     (let dfsz = length (st_df st);
          pfsz = length (st_pf st);
          a = alloc descent_null (st_df st);
          st1 = st\<lparr>st_df := snd a\<rparr>;
          child = bounce_child (st_df st1) (fst a) dsc topf botf topb botb
      in
      case init_run n env (fst a) child st1 of
        None \<Rightarrow> None
      | Some (succ, st2) \<Rightarrow>
          Some (succ,
                if \<not> succ
                then st2\<lparr>st_df := resize descent_null dfsz (st_df st2),
                         st_pf := resize pos_reset pfsz (st_pf st2)\<rparr>
                else st2))"

definition Descent_init ::
  "nat \<Rightarrow> Env \<Rightarrow> nat \<Rightarrow> TRootId \<Rightarrow> TReadOff \<Rightarrow> TReadOff \<Rightarrow> TIndexOff \<Rightarrow> TIndexOff \<Rightarrow> TIndexOff \<Rightarrow>
   TIndexOff \<Rightarrow> bool \<Rightarrow> nat \<Rightarrow> TDescentId \<Rightarrow> TScore \<Rightarrow> Edit \<Rightarrow> State \<Rightarrow> (bool \<times> State) option" where
  "Descent_init fuel env this rid al5pi al5pf topf botf topb botb ltr descid parent pn ed st =
     init_run fuel env this
       (mk_branch (st_df st) rid al5pi al5pf topf botf topb botb ltr descid parent pn ed) st"

definition Descent_init_root ::
  "nat \<Rightarrow> Env \<Rightarrow> nat \<Rightarrow> TRootId \<Rightarrow> nat \<Rightarrow> State \<Rightarrow> (bool \<times> State) option" where
  "Descent_init_root fuel env this rid descid st =
     init_run fuel env this (mk_root (env_rs env) rid descid) st"

section \<open>followBestOutgoing: one branch step\<close>

text \<open>
  The extremes of the child, the offset \<open>doff\<close> of the edit into the descent, and the
  flags \<open>hitEnd\<close> and \<open>done\<close> (lines 821--862).
\<close>

definition fbo_target ::
  "DescentQuery \<Rightarrow> bool \<Rightarrow> Descent \<Rightarrow> DescentEdge \<Rightarrow> TReadOff \<times> TReadOff \<times> nat \<times> bool \<times> bool" where
  "fbo_target q toward3p dsc x =
   (let edoff = edge_off5p x;
        qend = size_sub (qlength q) 1
    in
    if toward3p then
      let al5pf_new = (if isReadGap (edge_e x) then size_sub edoff 1 else edoff);
          hitEnd = (al5pf_new = qend);
          done = (hitEnd \<and> d_al5pi dsc = 0)
      in (d_al5pi dsc, al5pf_new, size_sub edoff (d_off5p_i dsc), hitEnd, done)
    else
      let al5pi_new = (if isReadGap (edge_e x) then edoff + 1 else edoff);
          hitEnd = (al5pi_new = 0);
          done = (hitEnd \<and> d_al5pf dsc = qend)
      in (al5pi_new, d_al5pf dsc, size_sub (d_off5p_i dsc) edoff, hitEnd, done))"

text \<open>The destination SA range of the edge (lines 877--908).\<close>

definition fbo_range ::
  "DescentPos list \<Rightarrow> Descent \<Rightarrow> Edit \<Rightarrow> nat \<Rightarrow> TIndexOff \<times> TIndexOff \<times> TIndexOff \<times> TIndexOff" where
  "fbo_range pf dsc ed doff =
   (let d0 = size_add (d_posid dsc) doff in
    if isRefGap ed then
      if doff = 0 then (d_topf dsc, d_botf dsc, d_topb dsc, d_botb dsc)
      else
        let p = pfat pf (size_sub d0 1);
            ch = nat (p_c p)
        in (rd (p_topf p) ch, rd (p_botf p) ch, rd (p_topb p) ch, rd (p_botb p) ch)
    else
      let p = pfat pf d0;
          ch = asc2dna (e_chr ed)
      in (rd (p_topf p) ch, rd (p_botf p) ch, rd (p_topb p) ch, rd (p_botb p) ch))"

text \<open>The re-insertion at the end of the function (lines 968--971).\<close>

definition fbo_reinsert :: "nat \<Rightarrow> State \<Rightarrow> State" where
  "fbo_reinsert this st =
   (let dsc = dfat (st_df st) this in
    if \<not> empty dsc
    then st\<lparr>st_heap := heap_insert (st_heap st) (bestPri (d_out dsc), d_descid dsc)\<rparr>
    else st)"

text \<open>
  Taking the best edge (lines 801--820): the edge is rotated out; if that leaves
  \<open>out_\<close> empty and the last recalculation was not final, the edges are recalculated,
  and the loop is left if there is none.
\<close>

record FBOPick =
  pk_edge :: DescentEdge
  pk_best :: DescentPriority
  pk_break :: bool
  pk_dsc :: Descent
  pk_st :: State

definition fbo_pick :: "Env \<Rightarrow> nat \<Rightarrow> State \<Rightarrow> FBOPick" where
  "fbo_pick env this st =
   (let dsc = dfat (st_df st) this;
        ro = rotate (d_out dsc);
        dsc1 = dsc\<lparr>d_out := snd ro\<rparr>;
        again = (out_empty (d_out dsc1) \<and> \<not> d_lastRecalc dsc1);
        rc = recalcOutgoing (env_q env) (env_sc env) (st_re st) (st_pf st) (env_rs env) (env_cs env) dsc1;
        dsc2 = (if again then fst (snd rc) else dsc1)
    in \<lparr>pk_edge = fst ro, pk_best = bestPri (d_out dsc), pk_break = (again \<and> empty dsc2),
        pk_dsc = dsc2,
        pk_st = st\<lparr>st_pf := (if again then snd (snd rc) else st_pf st),
                    st_df := (st_df st)[this := dsc2]\<rparr>\<rparr>)"

text \<open>The alignment reported when the edge completes the read (lines 917--932).\<close>

definition fbo_hit ::
  "Descent \<Rightarrow> DescentEdge \<Rightarrow> DescentPriority \<Rightarrow>
   TIndexOff \<times> TIndexOff \<times> TIndexOff \<times> TIndexOff \<Rightarrow> Hit" where
  "fbo_hit dsc x best rg =
   \<lparr>h_topf = fst rg, h_botf = fst (snd rg), h_topb = fst (snd (snd rg)), h_botb = snd (snd (snd rg)),
    h_descid = d_descid dsc, h_rid = d_rid dsc, h_edit = edge_e x, h_pen = pri_pen best\<rparr>"

text \<open>
  The body of the \<open>while\<close> loop runs at most once: every path through it ends in
  \<open>break\<close> or \<open>return\<close>.
\<close>

definition followBestOutgoing :: "nat \<Rightarrow> Env \<Rightarrow> nat \<Rightarrow> State \<Rightarrow> State option" where
  "followBestOutgoing fuel env this st =
   (if out_empty (d_out (dfat (st_df st) this)) then Some (fbo_reinsert this st)
    else
      let pk = fbo_pick env this st;
          x = pk_edge pk;
          dsc2 = pk_dsc pk;
          st1 = pk_st pk;
          toward3p = (d_l2r dsc2 = r_fw (env_rs env ! d_rid dsc2))
      in
      if pk_break pk then Some (fbo_reinsert this st1)
      else
        let tg = fbo_target (env_q env) toward3p dsc2 x;
            al5pi_new = fst tg;
            al5pf_new = fst (snd tg);
            doff = fst (snd (snd tg));
            hitEnd = fst (snd (snd (snd tg)));
            done = snd (snd (snd (snd tg)));
            ltr = (if \<not> done \<and> hitEnd then \<not> d_l2r dsc2 else d_l2r dsc2);
            dfsz = length (st_df st1);
            pfsz = length (st_pf st1);
            a = alloc descent_null (st_df st1);
            st2 = st1\<lparr>st_df := snd a\<rparr>;
            rg = fbo_range (st_pf st2) dsc2 (edge_e x) doff
        in
        if done then
          Some (st2\<lparr>st_alsink := reportAlignment (st_alsink st2) (fbo_hit dsc2 x (pk_best pk) rg)\<rparr>)
        else
          (case Descent_init fuel env (fst a) (d_rid dsc2) al5pi_new al5pf_new
                  (fst rg) (fst (snd rg)) (fst (snd (snd rg))) (snd (snd (snd rg)))
                  ltr (fst a) (d_descid dsc2) (pri_pen (pk_best pk)) (edge_e x) st2 of
             None \<Rightarrow> None
           | Some (succ, st3) \<Rightarrow>
               Some (fbo_reinsert this
                 (if \<not> succ
                  then st3\<lparr>st_df := resize descent_null dfsz (st_df st3),
                           st_pf := resize pos_reset pfsz (st_pf st3)\<rparr>
                  else st3))))"

section \<open>DescentDriver::go\<close>

text \<open>One round of the seeding loop (lines 35--61), for root \<open>i\<close>.\<close>

definition go_seed_step :: "nat \<Rightarrow> Env \<Rightarrow> nat \<Rightarrow> State \<Rightarrow> State option" where
  "go_seed_step fuel env i st =
   (let dfsz = length (st_df st);
        pfsz = length (st_pf st);
        a = alloc descent_null (st_df st);
        st1 = st\<lparr>st_df := snd a\<rparr>
    in
    case Descent_init_root fuel env (fst a) i (fst a) st1 of
      None \<Rightarrow> None
    | Some (succ, st2) \<Rightarrow>
        Some (if \<not> succ
              then st2\<lparr>st_df := resize descent_null dfsz (st_df st2),
                       st_pf := resize pos_reset pfsz (st_pf st2)\<rparr>
              else st2))"

fun go_seed :: "nat \<Rightarrow> Env \<Rightarrow> nat list \<Rightarrow> State \<Rightarrow> State option" where
  "go_seed fuel env [] st = Some st"
| "go_seed fuel env (i # is) st =
     (case go_seed_step fuel env i st of None \<Rightarrow> None | Some st1 \<Rightarrow> go_seed fuel env is st1)"

text \<open>
  The main loop (lines 63--83) pops the best descent and follows its best edge until
  the heap is empty; \<open>n\<close> bounds the number of rounds.
\<close>

fun go_loop :: "nat \<Rightarrow> nat \<Rightarrow> Env \<Rightarrow> State \<Rightarrow> State option" where
  "go_loop 0 fuel env st = (if st_heap st = [] then Some st else None)"
| "go_loop (Suc n) fuel env st =
     (if st_heap st = [] then Some st
      else
        let p = heap_pop (st_heap st) in
        case followBestOutgoing fuel env (snd (fst p)) (st\<lparr>st_heap := snd p\<rparr>) of
          None \<Rightarrow> None
        | Some st1 \<Rightarrow> go_loop n fuel env st1)"

definition go :: "nat \<Rightarrow> nat \<Rightarrow> Env \<Rightarrow> State \<Rightarrow> State option" where
  "go n fuel env st =
   (case go_seed fuel env [0..<length (env_rs env)] st of
      None \<Rightarrow> None
    | Some st1 \<Rightarrow> go_loop n fuel env st1)"

section \<open>Vocabulary of the properties\<close>

text \<open>
  The cost of a candidate edit of each kind at a read offset, as the scoring scheme
  gives it.
\<close>

definition kind_cost :: "DescentQuery \<Rightarrow> Scoring \<Rightarrow> bool \<Rightarrow> TReadOff \<Rightarrow> EdgeKind \<Rightarrow> TScore" where
  "kind_cost q sc fw off5p k =
     (case k of
        K_MM \<Rightarrow> sc_mm sc (fst (q_get q off5p fw)) (snd (q_get q off5p fw))
      | K_RDG_EX \<Rightarrow> sc_readGapExtend sc
      | K_RFG_EX \<Rightarrow> sc_refGapExtend sc
      | K_RDG_OP \<Rightarrow> sc_readGapOpen sc
      | K_RFG_OP \<Rightarrow> sc_refGapOpen sc)"

text \<open>
  What holds of an emitted edge: budget is left at its depth, its cost fits, its
  priority carries the total penalty, a gap keeps \<open>gapbar\<close> from the 5' end, and a gap
  is opened only where the ranges are not all match.
\<close>

definition edge_fact ::
  "DescentQuery \<Rightarrow> Scoring \<Rightarrow> DescentRoot list \<Rightarrow> DescentConfig list \<Rightarrow> Descent \<Rightarrow> DescentPos \<Rightarrow>
   EdgeKind \<times> DescentEdge \<Rightarrow> bool" where
  "edge_fact q sc rs cs dsc p kx =
   (let fw = r_fw (rs ! d_rid dsc);
        x = snd kx;
        c = fst (q_get q (edge_off5p x) fw);
        diff = cf_cons (cs ! d_rid dsc) (pri_depth (edge_pri x)) - d_pen dsc;
        cost = kind_cost q sc fw (edge_off5p x) (fst kx)
    in 0 < diff \<and> cost \<le> diff \<and> pri_pen (edge_pri x) = d_pen dsc + cost \<and>
       (fst kx \<noteq> K_MM \<longrightarrow> sc_gapbar sc \<le> edge_off5p x) \<and>
       (fst kx = K_RDG_OP \<or> fst kx = K_RFG_OP \<longrightarrow> \<not> allmatch (tbl_t dsc p) (tbl_b dsc p) c))"

text \<open>
  A candidate of kind \<open>k\<close> (towards nucleotide \<open>j\<close>, for a mismatch or a read gap) at
  one read position: everything \<open>recalcOutgoing\<close> asks of it apart from the budget.
\<close>

definition candidate ::
  "DescentQuery \<Rightarrow> Scoring \<Rightarrow> Redundancy \<Rightarrow> DescentRoot list \<Rightarrow> DescentConfig list \<Rightarrow> Descent \<Rightarrow>
   TReadOff \<Rightarrow> nat \<Rightarrow> nat \<Rightarrow> nat \<Rightarrow> nat \<Rightarrow>
   TIndexOff \<Rightarrow> TIndexOff \<Rightarrow> TIndexOff \<Rightarrow> TIndexOff \<Rightarrow> DescentPos \<Rightarrow> EdgeKind \<Rightarrow> nat \<Rightarrow> bool" where
  "candidate q sc re rs cs dsc off5p off3p depth cur5pi cur5pf topd botd topp botp p k j =
   (let fw = r_fw (rs ! d_rid dsc);
        toward3p = (d_l2r dsc = fw);
        diff = cf_cons (cs ! d_rid dsc) depth - d_pen dsc;
        t = tbl_t dsc p;
        b = tbl_b dsc p;
        c = fst (q_get q off5p fw);
        fl = p_flags p;
        total = d_pen dsc + kind_cost q sc fw off5p k;
        gapsAllowed = (off5p \<ge> sc_gapbar sc \<and> off3p \<ge> sc_gapbar sc);
        am = allmatch t b c;
        cur5pi_i = (if toward3p then cur5pi else size_add cur5pi 1);
        cur5pf_i = (if toward3p then size_sub cur5pf 1 else cur5pf);
        atroot = (off5p = d_off5p_i dsc \<and> inited (d_edit dsc));
        rdex = (atroot \<and> sc_readGapExtend sc \<le> diff \<and> isReadGap (d_edit dsc));
        rfex = (atroot \<and> sc_refGapExtend sc \<le> diff \<and> isRefGap (d_edit dsc));
        span = ref_span cur5pi cur5pf (d_gapadd dsc);
        mass = (j < 4 \<and> rd t j < rd b j);
        seen_rdg = re_contains re (fw, cur5pi_i, cur5pf_i, span, rd (p_topf p) j, rd (p_botf p) j) total;
        seen_rfg = re_contains re (fw, cur5pi, cur5pf, nrefal_of cur5pi cur5pf (d_gapadd dsc),
                     (if d_l2r dsc then topp else topd), (if d_l2r dsc then botp else botd)) total
    in
    \<not> exhausted fl \<and>
    (case k of
       K_MM \<Rightarrow> mass \<and> int j \<noteq> c \<and> \<not> claimed (mmExplored fl) j \<and>
               \<not> re_contains re (fw, cur5pi, cur5pf, span, rd (p_topf p) j, rd (p_botf p) j) total
     | K_RDG_EX \<Rightarrow> gapsAllowed \<and> atroot \<and> isReadGap (d_edit dsc) \<and> mass \<and>
               \<not> claimed (rdgExplored fl) j \<and> \<not> seen_rdg
     | K_RFG_EX \<Rightarrow> gapsAllowed \<and> atroot \<and> isRefGap (d_edit dsc) \<and> \<not> rfgExplored fl \<and> \<not> seen_rfg
     | K_RDG_OP \<Rightarrow> gapsAllowed \<and> \<not> am \<and> \<not> rdex \<and> mass \<and>
               \<not> claimed (rdgExplored fl) j \<and> \<not> seen_rdg
     | K_RFG_OP \<Rightarrow> gapsAllowed \<and> \<not> am \<and> \<not> rfex \<and> \<not> rfgExplored fl \<and> \<not> seen_rfg))"

text \<open>The mismatch edges of a trace.\<close>

definition is_mm :: "EdgeKind \<times> DescentEdge \<Rightarrow> bool" where
  "is_mm kx = (fst kx = K_MM)"

text \<open>The mismatch edges of one read position: the mismatch block alone.\<close>

definition mm_part ::
  "DescentQuery \<Rightarrow> Scoring \<Rightarrow> Redundancy \<Rightarrow> DescentRoot list \<Rightarrow> DescentConfig list \<Rightarrow> Descent \<Rightarrow>
   TReadOff \<Rightarrow> nat \<Rightarrow> nat \<Rightarrow> nat \<Rightarrow> nat \<Rightarrow> DescentPos \<Rightarrow> Trace" where
  "mm_part q sc re rs cs dsc off5p depth d cur5pi cur5pf p =
   (let fw = r_fw (rs ! d_rid dsc);
        diff = cf_cons (cs ! d_rid dsc) depth - d_pen dsc;
        c = fst (q_get q off5p fw);
        pen_mm = sc_mm sc c (snd (q_get q off5p fw))
    in if \<not> exhausted (p_flags p) \<and> diff > 0 \<and> pen_mm \<le> diff
       then filter is_mm (fst (fold (mm_step re fw (r_pri (rs ! d_rid dsc)) dsc cur5pi cur5pf off5p depth d p c pen_mm)
                       [0, 1, 2, 3] ([], p_flags p)))
       else [])"

section \<open>Concrete instances\<close>

text \<open>
  A four-character read of A's (and one of N's), a scoring scheme with mismatch
  penalty 3 and N penalty 0, a left-to-right forward root at offset 0, a consistency
  function that grants nothing at depth 0 and 3 from depth 1 on, and a descent that has
  matched two characters.
\<close>

definition ex_q :: DescentQuery where
  "ex_q = \<lparr>q_seq = [0, 0, 0, 0], q_seqrc = [3, 3, 3, 3], q_get = (\<lambda>off fw. (0, 30)), q_getc = (\<lambda>off fw. 0)\<rparr>"
definition ex_qn :: DescentQuery where
  "ex_qn = \<lparr>q_seq = [4, 4, 4, 4], q_seqrc = [4, 4, 4, 4], q_get = (\<lambda>off fw. (4, 30)), q_getc = (\<lambda>off fw. 4)\<rparr>"
definition ex_sc :: Scoring where
  "ex_sc = \<lparr>sc_mm = (\<lambda>c q. if c > 3 then 0 else 3), sc_readGapOpen = 5, sc_readGapExtend = 3, sc_refGapOpen = 5, sc_refGapExtend = 3, sc_gapbar = 1\<rparr>"
definition ex_rs :: "DescentRoot list" where
  "ex_rs = [\<lparr>r_off5p = 0, r_l2r = True, r_fw = True, r_pri = 0\<rparr>]"
definition ex_cs :: "DescentConfig list" where
  "ex_cs = [\<lparr>cf_cons = (\<lambda>d. if d < 1 then 0 else 3)\<rparr>]"
definition ex_p :: DescentPos where
  "ex_p = pos_reset\<lparr>p_c := 0, p_topf := [10, 20, 0, 0], p_botf := [12, 21, 0, 0], p_topb := [30, 40, 0, 0], p_botb := [32, 41, 0, 0]\<rparr>"
definition ex_d :: Descent where
  "ex_d = descent_null\<lparr>d_al5pi := 0, d_al5pf := 1, d_l2r := True, d_posid := 0, d_len := 2, d_off5p_i := 0\<rparr>"

text \<open>
  A consistency function that grants 5 everywhere; a read of thirty A's with a
  consistency function that grants nothing before depth 20, and a descent that starts
  at depth 20.
\<close>

definition ex_cs5 :: "DescentConfig list" where
  "ex_cs5 = [\<lparr>cf_cons = (\<lambda>d. 5)\<rparr>]"
definition ex_q30 :: DescentQuery where
  "ex_q30 = \<lparr>q_seq = replicate 30 0, q_seqrc = replicate 30 3, q_get = (\<lambda>off fw. (0, 30)), q_getc = (\<lambda>off fw. 0)\<rparr>"
definition ex_cs20 :: "DescentConfig list" where
  "ex_cs20 = [\<lparr>cf_cons = (\<lambda>d. if d < 20 then 0 else 3)\<rparr>]"
definition ex_d20 :: Descent where
  "ex_d20 = descent_null\<lparr>d_al5pi := 0, d_al5pf := 21, d_l2r := True, d_posid := 0, d_len := 2, d_off5p_i := 20\<rparr>"

text \<open>
  A toy index with a two-character ftab whose every lookup yields the range 5--7, and
  whose LF step sends the range to itself under A; a two-character read; a fresh
  search state.
\<close>

definition ex_ix :: Ebwt where
  "ex_ix = \<lparr>ftabChars = 2, fchr = [0, 10, 20, 30, 40], ftabLoHi = (\<lambda>s off rev. (5, 7)),
            mapBiLFEx = (\<lambda>tl bl t b tp bp.
               (t[0 := (case tl of None \<Rightarrow> 0 | Some x \<Rightarrow> x)],
                b[0 := (case bl of None \<Rightarrow> 0 | Some x \<Rightarrow> x)], tp, bp)),
            mapLF1 = (\<lambda>top tl. 0)\<rparr>"
definition ex_q2 :: DescentQuery where
  "ex_q2 = \<lparr>q_seq = [0, 0], q_seqrc = [3, 3], q_get = (\<lambda>off fw. (0, 30)), q_getc = (\<lambda>off fw. 0)\<rparr>"
definition ex_env :: Env where
  "ex_env = \<lparr>env_q = ex_q, env_sc = ex_sc, env_fw = ex_ix, env_bw = ex_ix, env_rs = ex_rs, env_cs = ex_cs\<rparr>"
definition ex_env2 :: Env where
  "ex_env2 = ex_env\<lparr>env_q := ex_q2\<rparr>"
definition ex_st :: State where
  "ex_st = \<lparr>st_df = [], st_pf = [], st_re = Map.empty, st_heap = [], st_alsink = [],
            st_met = \<lparr>bwops = 0, bwops_bi = 0, bwops_1 = 0\<rparr>\<rparr>"


text \<open>
  A search state whose redundancy filter has already admitted, at penalty 0, the key
  of the alignment of the first three characters; the locals of \<open>followMatches\<close> at
  the root, and after its first step.
\<close>

definition ex_st_red :: State where
  "ex_st_red = ex_st\<lparr>st_re := [(True, 0, 2, 3, 5, 7) \<mapsto> 0]\<rparr>"
definition ex_l0 :: FMLocals where
  "ex_l0 = fm_start (mk_root ex_rs 0 0) ex_st_red 0"
definition ex_l1 :: FMLocals where
  "ex_l1 = fm_locs (snd (fm_root ex_env True True ex_l0))"


text \<open>A right-to-left forward root at offset 1, which extends toward the 5' end.\<close>

definition ex_rs5 :: "DescentRoot list" where
  "ex_rs5 = [\<lparr>r_off5p = 1, r_l2r = False, r_fw = True, r_pri = 0\<rparr>]"



section \<open>Properties of recalcOutgoing\<close>

lemma mm_step_mem:
  assumes "kx \<in> set (fst (mm_step re fw rootpri dsc cur5pi cur5pf off5p depth d p c pen_mm j (es, fl)))"
  shows "kx \<in> set es \<or>
         (fst kx = K_MM \<and> int j \<noteq> c \<and> rd (tbl_t dsc p) j < rd (tbl_b dsc p) j \<and>
          edge_off5p (snd kx) = off5p \<and> edge_posFlag (snd kx) = d \<and>
          pri_depth (edge_pri (snd kx)) = depth \<and>
          pri_pen (edge_pri (snd kx)) = d_pen dsc + pen_mm)"
  using assms
  by (auto simp: mm_step_def Let_def edge_init_def split: if_splits prod.splits)

lemma rdg_step_mem:
  assumes "kx \<in> set (fst (rdg_step kind pen_rdg p2 re fw rootpri dsc cur5pi cur5pf cur5pi_i cur5pf_i off5p depth d p j (es, fl)))"
  shows "kx \<in> set es \<or>
         (fst kx = kind \<and> rd (tbl_t dsc p) j < rd (tbl_b dsc p) j \<and>
          edge_off5p (snd kx) = off5p \<and> edge_posFlag (snd kx) = d \<and>
          pri_depth (edge_pri (snd kx)) = depth \<and>
          pri_pen (edge_pri (snd kx)) = d_pen dsc + pen_rdg)"
  using assms
  by (auto simp: rdg_step_def Let_def edge_init_def split: if_splits prod.splits)

lemma rfg_step_mem:
  assumes "kx \<in> set (fst (rfg_step kind pen_rfg re fw rootpri dsc cur5pi cur5pf off5p depth d topd botd topp botp c (es, fl)))"
  shows "kx \<in> set es \<or>
         (fst kx = kind \<and>
          edge_off5p (snd kx) = off5p \<and> edge_posFlag (snd kx) = d \<and>
          pri_depth (edge_pri (snd kx)) = depth \<and>
          pri_pen (edge_pri (snd kx)) = d_pen dsc + pen_rfg)"
  using assms
  by (auto simp: rfg_step_def Let_def edge_init_def split: if_splits prod.splits)

lemma fold_step_mem:
  assumes step: "\<And>j es fl kx. kx \<in> set (fst (f j (es, fl))) \<Longrightarrow> kx \<in> set es \<or> Q j kx"
      and mem: "kx \<in> set (fst (fold f js s))"
  shows "kx \<in> set (fst s) \<or> (\<exists>j\<in>set js. Q j kx)"
  using mem
proof (induction js arbitrary: s)
  case Nil
  then show ?case by simp
next
  case (Cons j js)
  obtain es fl where s: "s = (es, fl)" by (cases s)
  from Cons.prems have "kx \<in> set (fst (fold f js (f j s)))" by simp
  from Cons.IH [OF this] show ?case
  proof
    assume "kx \<in> set (fst (f j s))"
    with step [of kx j es fl] s show ?thesis by auto
  next
    assume "\<exists>j\<in>set js. Q j kx"
    then show ?thesis by auto
  qed
qed

lemma ioff_sub_same: "ioff_sub x x = 0"
  by (simp add: ioff_sub_def)

lemma ioff_sub_less: "ioff_sub x y < 2 ^ 32"
  by (simp add: ioff_sub_def nat_less_iff)

lemma ioff_add_zero: "ioff_add 0 (ioff_sub x y) = ioff_sub x y" "ioff_add (ioff_sub x y) 0 = ioff_sub x y"
  using ioff_sub_less [of x y] by (simp_all add: ioff_add_def)

lemma ioff_add_zero_zero: "ioff_add 0 0 = 0"
  by (simp add: ioff_add_def)

text \<open>
  Where the four ranges of a position are well formed and the read character is one of
  the four bases, the total width differs from the width under the read character
  only if another base has mass.
\<close>

lemma not_allmatch:
  assumes na: "\<not> allmatch t b c"
      and c: "0 \<le> c" "c \<le> 3"
      and wf: "\<forall>j<4. rd t j \<le> rd b j"
  shows "\<exists>j\<in>{0, 1, 2, 3::nat}. int j \<noteq> c \<and> rd t j < rd b j"
proof (rule ccontr)
  assume neg: "\<not> (\<exists>j\<in>{0, 1, 2, 3::nat}. int j \<noteq> c \<and> rd t j < rd b j)"
  have eq: "rd t j = rd b j" if j: "j < 4" "int j \<noteq> c" for j
  proof -
    from j(1) have "j \<in> {0, 1, 2, 3}" by auto
    with neg j(2) have "\<not> rd t j < rd b j" by blast
    moreover from wf j(1) have "rd t j \<le> rd b j" by blast
    ultimately show "rd t j = rd b j" by linarith
  qed
  from c consider "c = 0" | "c = 1" | "c = 2" | "c = 3" by linarith
  then have "allmatch t b c"
  proof cases
    case 1
    with eq [of 1] eq [of 2] eq [of 3] show ?thesis
      by (simp add: allmatch_def totwidth_def ioff_sub_same ioff_add_zero)
  next
    case 2
    with eq [of 0] eq [of 2] eq [of 3] show ?thesis
      by (simp add: allmatch_def totwidth_def ioff_sub_same ioff_add_zero)
  next
    case 3
    with eq [of 0] eq [of 1] eq [of 3] show ?thesis
      by (simp add: allmatch_def totwidth_def ioff_sub_same ioff_add_zero ioff_add_zero_zero)
  next
    case 4
    with eq [of 0] eq [of 1] eq [of 2] show ?thesis
      by (simp add: allmatch_def totwidth_def ioff_sub_same ioff_add_zero ioff_add_zero_zero)
  qed
  with na show False by simp
qed

lemma recalc_pos_mem:
  assumes mem: "kx \<in> set (fst (recalc_pos q sc re rs cs dsc off5p off3p depth d cur5pi cur5pf
                                   topd botd topp botp p))"
  shows "edge_off5p (snd kx) = off5p \<and> edge_posFlag (snd kx) = d \<and>
         pri_depth (edge_pri (snd kx)) = depth \<and> edge_fact q sc rs cs dsc p kx \<and>
         (fst kx \<noteq> K_MM \<longrightarrow> sc_gapbar sc \<le> off3p)"
proof -
  define fw where "fw = r_fw (rs ! d_rid dsc)"
  define rootpri where "rootpri = r_pri (rs ! d_rid dsc)"
  define diff where "diff = cf_cons (cs ! d_rid dsc) depth - d_pen dsc"
  define c where "c = fst (q_get q off5p fw)"
  define qq where "qq = snd (q_get q off5p fw)"
  define t where "t = tbl_t dsc p"
  define b where "b = tbl_b dsc p"
  define fl0 where "fl0 = p_flags p"
  define pen_mm where "pen_mm = sc_mm sc c qq"
  define toward3p where "toward3p = (d_l2r dsc = fw)"
  define r1 where "r1 = (if pen_mm \<le> diff
      then fold (mm_step re fw rootpri dsc cur5pi cur5pf off5p depth d p c pen_mm) [0, 1, 2, 3] ([], fl0)
      else ([], fl0))"
  define am where "am = allmatch t b c"
  define cur5pi_i where "cur5pi_i = (if toward3p then cur5pi else size_add cur5pi 1)"
  define cur5pf_i where "cur5pf_i = (if toward3p then size_sub cur5pf 1 else cur5pf)"
  define atroot where "atroot = (off5p = d_off5p_i dsc \<and> inited (d_edit dsc))"
  define rdex where "rdex = (atroot \<and> sc_readGapExtend sc \<le> diff \<and> isReadGap (d_edit dsc))"
  define r2 where "r2 = (if rdex
      then fold (rdg_step K_RDG_EX (sc_readGapExtend sc)
                   (u32 (int (e_pos2 (d_edit dsc)) + (if d_l2r dsc then 1 else -1)))
                   re fw rootpri dsc cur5pi cur5pf cur5pi_i cur5pf_i off5p depth d p) [0, 1, 2, 3] r1
      else r1)"
  define rfex where "rfex = (atroot \<and> sc_refGapExtend sc \<le> diff \<and> isRefGap (d_edit dsc))"
  define r3 where "r3 = (if rfex
      then rfg_step K_RFG_EX (sc_refGapExtend sc) re fw rootpri dsc cur5pi cur5pf
             off5p depth d topd botd topp botp c r2
      else r2)"
  define r4 where "r4 = (if \<not> am \<and> sc_readGapOpen sc \<le> diff \<and> \<not> rdex
      then fold (rdg_step K_RDG_OP (sc_readGapOpen sc) pos2_default
                   re fw rootpri dsc cur5pi cur5pf cur5pi_i cur5pf_i off5p depth d p) [0, 1, 2, 3] r3
      else r3)"
  define r5 where "r5 = (if \<not> am \<and> sc_refGapOpen sc \<le> diff \<and> \<not> rfex
      then rfg_step K_RFG_OP (sc_refGapOpen sc) re fw rootpri dsc cur5pi cur5pf
             off5p depth d topd botd topp botp c r4
      else r4)"
  define gapsAllowed where "gapsAllowed = (off5p \<ge> sc_gapbar sc \<and> off3p \<ge> sc_gapbar sc)"
  have unfold: "recalc_pos q sc re rs cs dsc off5p off3p depth d cur5pi cur5pf topd botd topp botp p =
        (if \<not> exhausted fl0 \<and> diff > 0 then (if gapsAllowed then r5 else r1) else ([], fl0))"
    unfolding recalc_pos_def Let_def split_def r5_def r4_def r3_def r2_def r1_def rfex_def rdex_def
      atroot_def cur5pf_i_def cur5pi_i_def am_def toward3p_def pen_mm_def fl0_def b_def t_def
      qq_def c_def diff_def rootpri_def fw_def gapsAllowed_def
    by simp
  define G where "G k cost kx \<longleftrightarrow> fst kx = k \<and> edge_off5p (snd kx) = off5p \<and> edge_posFlag (snd kx) = d \<and>
          pri_depth (edge_pri (snd kx)) = depth \<and> pri_pen (edge_pri (snd kx)) = d_pen dsc + cost"
    for k cost and kx :: "EdgeKind \<times> DescentEdge"
  have mmstep: "kx \<in> set (fst (mm_step re fw rootpri dsc cur5pi cur5pf off5p depth d p c pen_mm j (es, fl)))
      \<Longrightarrow> kx \<in> set es \<or> G K_MM pen_mm kx" for j es fl kx
    using mm_step_mem [of kx re fw rootpri dsc cur5pi cur5pf off5p depth d p c pen_mm j es fl]
    unfolding G_def by blast
  have rdgstep: "kx \<in> set (fst (rdg_step k pn p2 re fw rootpri dsc cur5pi cur5pf cur5pi_i cur5pf_i off5p depth d p j (es, fl)))
      \<Longrightarrow> kx \<in> set es \<or> G k pn kx" for k pn p2 j es fl kx
    using rdg_step_mem [of kx k pn p2 re fw rootpri dsc cur5pi cur5pf cur5pi_i cur5pf_i off5p depth d p j es fl]
    unfolding G_def by blast
  have rfgstep: "kx \<in> set (fst (rfg_step k pn re fw rootpri dsc cur5pi cur5pf off5p depth d topd botd topp botp c s))
      \<Longrightarrow> kx \<in> set (fst s) \<or> G k pn kx" for k pn s kx
    using rfg_step_mem [of kx k pn re fw rootpri dsc cur5pi cur5pf off5p depth d topd botd topp botp c "fst s" "snd s"]
    unfolding G_def by simp
  have m1: "pen_mm \<le> diff \<and> G K_MM pen_mm kx" if a: "kx \<in> set (fst r1)" for kx
  proof -
    from a have le: "pen_mm \<le> diff" by (auto simp: r1_def split: if_splits)
    have "kx \<in> set (fst ([]::Trace, fl0)) \<or> (\<exists>j\<in>set [0, 1, 2, 3::nat]. G K_MM pen_mm kx)"
      by (rule fold_step_mem [where f = "mm_step re fw rootpri dsc cur5pi cur5pf off5p depth d p c pen_mm"],
          erule mmstep) (use a le in \<open>simp add: r1_def\<close>)
    with le show ?thesis by simp
  qed
  have m2: "kx \<in> set (fst r1) \<or> (sc_readGapExtend sc \<le> diff \<and> G K_RDG_EX (sc_readGapExtend sc) kx)"
    if a: "kx \<in> set (fst r2)" for kx
  proof (cases rdex)
    case True
    have "kx \<in> set (fst r1) \<or> (\<exists>j\<in>set [0, 1, 2, 3::nat]. G K_RDG_EX (sc_readGapExtend sc) kx)"
      by (rule fold_step_mem [where f = "rdg_step K_RDG_EX (sc_readGapExtend sc)
                   (u32 (int (e_pos2 (d_edit dsc)) + (if d_l2r dsc then 1 else -1)))
                   re fw rootpri dsc cur5pi cur5pf cur5pi_i cur5pf_i off5p depth d p"],
          erule rdgstep) (use a True in \<open>simp add: r2_def\<close>)
    with True show ?thesis by (auto simp: rdex_def)
  next
    case False
    with a show ?thesis by (simp add: r2_def)
  qed
  have m3: "kx \<in> set (fst r3) \<Longrightarrow> kx \<in> set (fst r2) \<or> (sc_refGapExtend sc \<le> diff \<and> G K_RFG_EX (sc_refGapExtend sc) kx)" for kx
    using rfgstep [of kx K_RFG_EX "sc_refGapExtend sc" r2]
    by (auto simp: r3_def rfex_def split: if_splits)
  have m4: "kx \<in> set (fst r3) \<or> (\<not> am \<and> sc_readGapOpen sc \<le> diff \<and> G K_RDG_OP (sc_readGapOpen sc) kx)"
    if a: "kx \<in> set (fst r4)" for kx
  proof (cases "\<not> am \<and> sc_readGapOpen sc \<le> diff \<and> \<not> rdex")
    case True
    have "kx \<in> set (fst r3) \<or> (\<exists>j\<in>set [0, 1, 2, 3::nat]. G K_RDG_OP (sc_readGapOpen sc) kx)"
      by (rule fold_step_mem [where f = "rdg_step K_RDG_OP (sc_readGapOpen sc) pos2_default
                   re fw rootpri dsc cur5pi cur5pf cur5pi_i cur5pf_i off5p depth d p"],
          erule rdgstep) (use a True in \<open>simp add: r4_def\<close>)
    with True show ?thesis by auto
  next
    case False
    with a show ?thesis by (simp add: r4_def)
  qed
  have m5: "kx \<in> set (fst r5) \<Longrightarrow> kx \<in> set (fst r4) \<or> (\<not> am \<and> sc_refGapOpen sc \<le> diff \<and> G K_RFG_OP (sc_refGapOpen sc) kx)" for kx
    using rfgstep [of kx K_RFG_OP "sc_refGapOpen sc" r4]
    by (auto simp: r5_def split: if_splits)
  from mem have ne: "\<not> exhausted fl0" "0 < diff"
    and cases: "(gapsAllowed \<and> kx \<in> set (fst r5)) \<or> kx \<in> set (fst r1)"
    by (auto simp: unfold split: if_splits)
  from cases consider
      (mm) "pen_mm \<le> diff" "G K_MM pen_mm kx"
    | (rdex) "gapsAllowed" "sc_readGapExtend sc \<le> diff" "G K_RDG_EX (sc_readGapExtend sc) kx"
    | (rfex) "gapsAllowed" "sc_refGapExtend sc \<le> diff" "G K_RFG_EX (sc_refGapExtend sc) kx"
    | (rdop) "gapsAllowed" "\<not> am" "sc_readGapOpen sc \<le> diff" "G K_RDG_OP (sc_readGapOpen sc) kx"
    | (rfop) "gapsAllowed" "\<not> am" "sc_refGapOpen sc \<le> diff" "G K_RFG_OP (sc_refGapOpen sc) kx"
    using m1 m2 m3 m4 m5 by blast
  then show ?thesis
  proof cases
    case mm
    with ne show ?thesis
      by (simp add: G_def edge_fact_def kind_cost_def Let_def fw_def c_def qq_def pen_mm_def diff_def)
  next
    case rdex
    with ne show ?thesis
      by (simp add: G_def edge_fact_def kind_cost_def Let_def diff_def gapsAllowed_def)
  next
    case rfex
    with ne show ?thesis
      by (simp add: G_def edge_fact_def kind_cost_def Let_def diff_def gapsAllowed_def)
  next
    case rdop
    with ne show ?thesis
      by (simp add: G_def edge_fact_def kind_cost_def Let_def diff_def gapsAllowed_def fw_def c_def t_def b_def
            am_def)
  next
    case rfop
    with ne show ?thesis
      by (simp add: G_def edge_fact_def kind_cost_def Let_def diff_def gapsAllowed_def fw_def c_def t_def b_def
            am_def)
  qed
qed

lemma at_update_other: "i \<noteq> j \<Longrightarrow> at dflt (xs[j := v]) i = at dflt xs i"
  by (simp add: at_def)

lemma at_update_above: "Suc j \<le> i \<Longrightarrow> at dflt (xs[j := v]) i = at dflt xs i"
  by (simp add: at_def)

lemma recalc_loop_mem:
  assumes "kx \<in> set (fst (recalc_loop q sc re rs cs dsc toward3p extrai extraf off5p off3p depth d
                              cur5pi cur5pf topd botd topp botp pf))"
  shows "d \<le> edge_posFlag (snd kx) \<and>
         edge_fact q sc rs cs dsc (pfat pf (edge_posFlag (snd kx))) kx \<and>
         (off5p + off3p + 1 = qlength q \<longrightarrow> fst kx \<noteq> K_MM \<longrightarrow>
            edge_off5p (snd kx) + sc_gapbar sc < qlength q)"
  using assms
proof (induction q sc re rs cs dsc toward3p extrai extraf off5p off3p depth d cur5pi cur5pf
         topd botd topp botp pf rule: recalc_loop.induct)
  case (1 q sc re rs cs dsc toward3p extrai extraf off5p off3p depth d cur5pi cur5pf topd botd topp botp pf)
  define p where "p = pfat pf d"
  define r where "r = recalc_pos q sc re rs cs dsc off5p off3p depth d cur5pi cur5pf topd botd topp botp p"
  define pf1 where "pf1 = pf[d := p\<lparr>p_flags := snd r\<rparr>]"
  define cc where "cc = nat (fst (q_get q off5p (r_fw (rs ! d_rid dsc))))"
  have here: "kx \<in> set (fst r) \<Longrightarrow> ?case"
    using recalc_pos_mem [of kx q sc re rs cs dsc off5p off3p depth d cur5pi cur5pf topd botd topp botp p]
    by (auto simp: r_def p_def)
  have other: "d + 1 \<le> edge_posFlag (snd kx) \<and>
         edge_fact q sc rs cs dsc (pfat pf1 (edge_posFlag (snd kx))) kx \<and>
         (off5p' + off3p' + 1 = qlength q \<longrightarrow> fst kx \<noteq> K_MM \<longrightarrow>
            edge_off5p (snd kx) + sc_gapbar sc < qlength q)
         \<Longrightarrow> (off5p + off3p + 1 = qlength q \<Longrightarrow> off5p' + off3p' + 1 = qlength q) \<Longrightarrow> ?case"
    for off5p' off3p'
    by (clarsimp simp: pf1_def at_update_above)
  from "1.prems" have inrange: "off5p \<ge> d_al5pi dsc - extrai \<and> off5p \<le> d_al5pf dsc + extraf"
    by (subst (asm) recalc_loop.simps) (auto split: if_splits)
  show ?case
  proof (cases toward3p)
    case True
    show ?thesis
    proof (cases "off3p = 0")
      case z: True
      with "1.prems" True inrange have "kx \<in> set (fst r)"
        by (subst (asm) recalc_loop.simps) (simp add: Let_def r_def p_def)
      then show ?thesis by (rule here)
    next
      case nz: False
      let ?rec = "recalc_loop q sc re rs cs dsc toward3p extrai extraf (off5p + 1) (off3p - 1)
                  (depth + 1) (d + 1) cur5pi (cur5pf + 1)
                  (rd (tbl_t dsc p) cc) (rd (tbl_b dsc p) cc) (rd (tbl_tp dsc p) cc) (rd (tbl_bp dsc p) cc) pf1"
      from "1.prems" True nz inrange have "kx \<in> set (fst r) \<or> kx \<in> set (fst ?rec)"
        by (subst (asm) recalc_loop.simps)
           (auto simp: Let_def r_def p_def pf1_def cc_def split: prod.splits)
      then show ?thesis
      proof
        assume "kx \<in> set (fst r)" then show ?thesis by (rule here)
      next
        assume a: "kx \<in> set (fst ?rec)"
        from "1.IH"(1) [OF inrange p_def r_def pf1_def cc_def True nz a]
        show ?thesis by (rule other) (use nz in simp)
      qed
    qed
  next
    case False
    show ?thesis
    proof (cases "off5p = 0")
      case z: True
      with "1.prems" False inrange have "kx \<in> set (fst r)"
        by (subst (asm) recalc_loop.simps) (simp add: Let_def r_def p_def)
      then show ?thesis by (rule here)
    next
      case nz: False
      let ?rec = "recalc_loop q sc re rs cs dsc toward3p extrai extraf (off5p - 1) (off3p + 1)
                  (depth + 1) (d + 1) (size_sub cur5pi 1) cur5pf
                  (rd (tbl_t dsc p) cc) (rd (tbl_b dsc p) cc) (rd (tbl_tp dsc p) cc) (rd (tbl_bp dsc p) cc) pf1"
      from "1.prems" False nz inrange have "kx \<in> set (fst r) \<or> kx \<in> set (fst ?rec)"
        by (subst (asm) recalc_loop.simps)
           (auto simp: Let_def r_def p_def pf1_def cc_def split: prod.splits)
      then show ?thesis
      proof
        assume "kx \<in> set (fst r)" then show ?thesis by (rule here)
      next
        assume a: "kx \<in> set (fst ?rec)"
        from "1.IH"(2) [OF inrange p_def r_def pf1_def cc_def False nz a]
        show ?thesis by (rule other) (use nz in simp)
      qed
    qed
  qed
qed


lemma recalc_edges_mem:
  assumes "kx \<in> set (fst (recalc_edges q sc re pf rs cs dsc))"
  shows "d_posid dsc \<le> edge_posFlag (snd kx) \<and>
         edge_fact q sc rs cs dsc (pfat pf (edge_posFlag (snd kx))) kx \<and>
         (d_off5p_i dsc < qlength q \<longrightarrow> fst kx \<noteq> K_MM \<longrightarrow>
            edge_off5p (snd kx) + sc_gapbar sc < qlength q)"
proof -
  have "d_off5p_i dsc < qlength q \<Longrightarrow>
        d_off5p_i dsc + size_sub (size_sub (qlength q) (d_off5p_i dsc)) 1 + 1 = qlength q"
    by (auto simp: size_sub_def)
  with recalc_loop_mem [OF assms [unfolded recalc_edges_def Let_def]] show ?thesis
    by blast
qed

lemma claimed_update: "claimed (xs[j := True]) i = (claimed xs i \<or> (i = j \<and> j < length xs))"
  by (cases "i = j") (auto simp: claimed_def)

lemma mm_step_mono: "set es \<subseteq> set (fst (mm_step re fw rootpri dsc cur5pi cur5pf off5p depth d p c pen_mm j (es, fl)))"
  by (auto simp: mm_step_def Let_def split: prod.splits)

lemma rdg_step_mono: "set es \<subseteq> set (fst (rdg_step kind pn p2 re fw rootpri dsc cur5pi cur5pf cur5pi_i cur5pf_i off5p depth d p j (es, fl)))"
  by (auto simp: rdg_step_def Let_def split: prod.splits)

lemma rfg_step_mono: "set (fst s) \<subseteq> set (fst (rfg_step kind pn re fw rootpri dsc cur5pi cur5pf off5p depth d topd botd topp botp c s))"
  by (cases s) (auto simp: rfg_step_def Let_def split: prod.splits)

lemma fold_mono:
  assumes "\<And>j es fl. set es \<subseteq> set (fst (f j (es, fl)))"
  shows "set (fst s) \<subseteq> set (fst (fold f js s))"
proof (induction js arbitrary: s)
  case Nil
  show ?case by simp
next
  case (Cons j js)
  obtain es fl where s: "s = (es, fl)" by (cases s)
  have "set (fst s) \<subseteq> set (fst (f j s))" using assms [of es j fl] s by simp
  also have "\<dots> \<subseteq> set (fst (fold f js (f j s)))" by (rule Cons.IH)
  finally show ?case by simp
qed

text \<open>What a step leaves alone in the flags.\<close>

lemma mm_step_flags:
  "rdgExplored (snd (mm_step re fw rootpri dsc cur5pi cur5pf off5p depth d p c pen_mm j (es, fl))) = rdgExplored fl"
  "rfgExplored (snd (mm_step re fw rootpri dsc cur5pi cur5pf off5p depth d p c pen_mm j (es, fl))) = rfgExplored fl"
  "i \<noteq> j \<Longrightarrow> claimed (mmExplored (snd (mm_step re fw rootpri dsc cur5pi cur5pf off5p depth d p c pen_mm j (es, fl)))) i
     = claimed (mmExplored fl) i"
  by (auto simp: mm_step_def mmExplore_def Let_def claimed_update split: prod.splits)

lemma rdg_step_flags:
  "rfgExplored (snd (rdg_step kind pn p2 re fw rootpri dsc cur5pi cur5pf cur5pi_i cur5pf_i off5p depth d p j (es, fl))) = rfgExplored fl"
  "i \<noteq> j \<Longrightarrow> claimed (rdgExplored (snd (rdg_step kind pn p2 re fw rootpri dsc cur5pi cur5pf cur5pi_i cur5pf_i off5p depth d p j (es, fl)))) i
     = claimed (rdgExplored fl) i"
  by (auto simp: rdg_step_def rdgExplore_def Let_def claimed_update split: prod.splits)

lemma rfg_step_flags:
  "rdgExplored (snd (rfg_step kind pn re fw rootpri dsc cur5pi cur5pf off5p depth d topd botd topp botp c s)) = rdgExplored (snd s)"
  by (cases s) (auto simp: rfg_step_def rfgExplore_def Let_def split: prod.splits)

lemma fold_keeps:
  assumes "\<And>j es fl. g (snd (f j (es, fl))) = g fl"
  shows "g (snd (fold f js s)) = g (snd s)"
proof (induction js arbitrary: s)
  case Nil
  show ?case by simp
next
  case (Cons j js)
  obtain es fl where s: "s = (es, fl)" by (cases s)
  show ?case using Cons.IH [of "f j s"] assms [of j es fl] s by simp
qed

text \<open>A round emits its edge when nothing stands against it.\<close>

lemma mm_step_emit:
  assumes "int j \<noteq> c" "rd (tbl_t dsc p) j < rd (tbl_b dsc p) j" "\<not> claimed (mmExplored fl) j"
    "\<not> re_contains re (fw, cur5pi, cur5pf, ref_span cur5pi cur5pf (d_gapadd dsc), rd (p_topf p) j, rd (p_botf p) j)
         (d_pen dsc + pen_mm)"
  shows "\<exists>x. (K_MM, x) \<in> set (fst (mm_step re fw rootpri dsc cur5pi cur5pf off5p depth d p c pen_mm j (es, fl)))
           \<and> pri_pen (edge_pri x) = d_pen dsc + pen_mm \<and> pri_depth (edge_pri x) = depth
           \<and> e_chr (edge_e x) = dna2asc j \<and> e_type (edge_e x) = EDIT_TYPE_MM"
  using assms
  by (auto simp: mm_step_def mmExplore_def Let_def edge_init_def mkEdit_def)

lemma rdg_step_emit:
  assumes "rd (tbl_t dsc p) j < rd (tbl_b dsc p) j" "\<not> claimed (rdgExplored fl) j"
    "\<not> re_contains re (fw, cur5pi_i, cur5pf_i, ref_span cur5pi cur5pf (d_gapadd dsc), rd (p_topf p) j, rd (p_botf p) j)
         (d_pen dsc + pn)"
  shows "\<exists>x. (kind, x) \<in> set (fst (rdg_step kind pn p2 re fw rootpri dsc cur5pi cur5pf cur5pi_i cur5pf_i off5p depth d p j (es, fl)))
           \<and> pri_pen (edge_pri x) = d_pen dsc + pn \<and> pri_depth (edge_pri x) = depth
           \<and> e_chr (edge_e x) = dna2asc j \<and> e_type (edge_e x) = EDIT_TYPE_READ_GAP"
  using assms
  by (auto simp: rdg_step_def rdgExplore_def Let_def edge_init_def mkEdit_def)

lemma rfg_step_emit:
  assumes "\<not> rfgExplored (snd s)"
    "\<not> re_contains re (fw, cur5pi, cur5pf, nrefal_of cur5pi cur5pf (d_gapadd dsc),
          (if d_l2r dsc then topp else topd), (if d_l2r dsc then botp else botd)) (d_pen dsc + pn)"
  shows "\<exists>x. (kind, x) \<in> set (fst (rfg_step kind pn re fw rootpri dsc cur5pi cur5pf off5p depth d topd botd topp botp c s))
           \<and> pri_pen (edge_pri x) = d_pen dsc + pn \<and> pri_depth (edge_pri x) = depth
           \<and> e_type (edge_e x) = EDIT_TYPE_REF_GAP"
  using assms
  by (cases s) (auto simp: rfg_step_def rfgExplore_def Let_def edge_init_def mkEdit_def)

lemma fold_emit:
  assumes keep: "\<And>i j es fl. i \<noteq> j \<Longrightarrow> free i (snd (f j (es, fl))) = free i fl"
      and mono: "\<And>j es fl. set es \<subseteq> set (fst (f j (es, fl)))"
      and emit: "\<And>es fl. free j fl \<Longrightarrow> \<exists>x. (k, x) \<in> set (fst (f j (es, fl))) \<and> Q x"
      and "j \<in> set js" "distinct js" "free j (snd s)"
  shows "\<exists>x. (k, x) \<in> set (fst (fold f js s)) \<and> Q x"
  using assms(4-6)
proof (induction js arbitrary: s)
  case Nil
  then show ?case by simp
next
  case (Cons i js)
  obtain es fl where s: "s = (es, fl)" by (cases s)
  show ?case
  proof (cases "i = j")
    case True
    from emit [of fl es] Cons.prems(3) s obtain x where x: "(k, x) \<in> set (fst (f j s))" "Q x" by auto
    have "set (fst (f j s)) \<subseteq> set (fst (fold f js (f j s)))"
      by (rule fold_mono) (rule mono)
    with x True show ?thesis by auto
  next
    case False
    with Cons.prems have "j \<in> set js" "distinct js" by auto
    moreover have "free j (snd (f i s))" using keep [of j i es fl] False Cons.prems(3) s by simp
    ultimately show ?thesis using Cons.IH [of "f i s"] by simp
  qed
qed

lemma recalc_pos_accepts:
  assumes cand: "candidate q sc re rs cs dsc off5p off3p depth cur5pi cur5pf topd botd topp botp p k j"
      and pos: "0 < kind_cost q sc (r_fw (rs ! d_rid dsc)) off5p k"
      and eq: "d_pen dsc + kind_cost q sc (r_fw (rs ! d_rid dsc)) off5p k = cf_cons (cs ! d_rid dsc) depth"
  shows "\<exists>x. (k, x) \<in> set (fst (recalc_pos q sc re rs cs dsc off5p off3p depth d cur5pi cur5pf
                                   topd botd topp botp p))
             \<and> pri_pen (edge_pri x) = cf_cons (cs ! d_rid dsc) depth \<and> pri_depth (edge_pri x) = depth"
proof -
  define fw where "fw = r_fw (rs ! d_rid dsc)"
  define rootpri where "rootpri = r_pri (rs ! d_rid dsc)"
  define diff where "diff = cf_cons (cs ! d_rid dsc) depth - d_pen dsc"
  define c where "c = fst (q_get q off5p fw)"
  define qq where "qq = snd (q_get q off5p fw)"
  define t where "t = tbl_t dsc p"
  define b where "b = tbl_b dsc p"
  define fl0 where "fl0 = p_flags p"
  define pen_mm where "pen_mm = sc_mm sc c qq"
  define toward3p where "toward3p = (d_l2r dsc = fw)"
  define F1 where "F1 = mm_step re fw rootpri dsc cur5pi cur5pf off5p depth d p c pen_mm"
  define r1 where "r1 = (if pen_mm \<le> diff then fold F1 [0, 1, 2, 3] ([], fl0) else ([], fl0))"
  define am where "am = allmatch t b c"
  define cur5pi_i where "cur5pi_i = (if toward3p then cur5pi else size_add cur5pi 1)"
  define cur5pf_i where "cur5pf_i = (if toward3p then size_sub cur5pf 1 else cur5pf)"
  define atroot where "atroot = (off5p = d_off5p_i dsc \<and> inited (d_edit dsc))"
  define rdex where "rdex = (atroot \<and> sc_readGapExtend sc \<le> diff \<and> isReadGap (d_edit dsc))"
  define F2 where "F2 = rdg_step K_RDG_EX (sc_readGapExtend sc)
                   (u32 (int (e_pos2 (d_edit dsc)) + (if d_l2r dsc then 1 else -1)))
                   re fw rootpri dsc cur5pi cur5pf cur5pi_i cur5pf_i off5p depth d p"
  define r2 where "r2 = (if rdex then fold F2 [0, 1, 2, 3] r1 else r1)"
  define rfex where "rfex = (atroot \<and> sc_refGapExtend sc \<le> diff \<and> isRefGap (d_edit dsc))"
  define F3 where "F3 = rfg_step K_RFG_EX (sc_refGapExtend sc) re fw rootpri dsc cur5pi cur5pf
             off5p depth d topd botd topp botp c"
  define r3 where "r3 = (if rfex then F3 r2 else r2)"
  define F4 where "F4 = rdg_step K_RDG_OP (sc_readGapOpen sc) pos2_default
                   re fw rootpri dsc cur5pi cur5pf cur5pi_i cur5pf_i off5p depth d p"
  define r4 where "r4 = (if \<not> am \<and> sc_readGapOpen sc \<le> diff \<and> \<not> rdex
      then fold F4 [0, 1, 2, 3] r3 else r3)"
  define F5 where "F5 = rfg_step K_RFG_OP (sc_refGapOpen sc) re fw rootpri dsc cur5pi cur5pf
             off5p depth d topd botd topp botp c"
  define r5 where "r5 = (if \<not> am \<and> sc_refGapOpen sc \<le> diff \<and> \<not> rfex then F5 r4 else r4)"
  define gapsAllowed where "gapsAllowed = (off5p \<ge> sc_gapbar sc \<and> off3p \<ge> sc_gapbar sc)"
  have unfold: "recalc_pos q sc re rs cs dsc off5p off3p depth d cur5pi cur5pf topd botd topp botp p =
        (if \<not> exhausted fl0 \<and> diff > 0 then (if gapsAllowed then r5 else r1) else ([], fl0))"
    unfolding recalc_pos_def Let_def split_def r5_def r4_def r3_def r2_def r1_def rfex_def rdex_def
      atroot_def cur5pf_i_def cur5pi_i_def am_def toward3p_def pen_mm_def fl0_def b_def t_def
      qq_def c_def diff_def rootpri_def fw_def gapsAllowed_def F1_def F2_def F3_def F4_def F5_def
    by simp
  define cost where "cost = kind_cost q sc fw off5p k"
  have cost: "0 < cost" "d_pen dsc + cost = cf_cons (cs ! d_rid dsc) depth" "cost = diff"
    using pos eq by (simp_all add: cost_def fw_def diff_def)
  have dpos: "0 < diff" using cost by simp
  from cand have ne: "\<not> exhausted fl0" by (simp add: candidate_def Let_def fl0_def)
  have mo2: "set (fst s) \<subseteq> set (fst (fold F2 js s))" for s js
    unfolding F2_def by (rule fold_mono) (rule rdg_step_mono)
  have mo4: "set (fst s) \<subseteq> set (fst (fold F4 js s))" for s js
    unfolding F4_def by (rule fold_mono) (rule rdg_step_mono)
  have s12: "set (fst r1) \<subseteq> set (fst r2)"
    using mo2 [of r1 "[0, 1, 2, 3]"] by (simp add: r2_def del: fold_simps)
  have s23: "set (fst r2) \<subseteq> set (fst r3)"
    using rfg_step_mono [of r2] by (simp add: r3_def F3_def)
  have s34: "set (fst r3) \<subseteq> set (fst r4)"
    using mo4 [of r3 "[0, 1, 2, 3]"] by (simp add: r4_def del: fold_simps)
  have s45: "set (fst r4) \<subseteq> set (fst r5)"
    using rfg_step_mono [of r4] by (simp add: r5_def F5_def)
  have k1: "rdgExplored (snd (fold F1 js s)) = rdgExplored (snd s)" for js s
    unfolding F1_def by (rule fold_keeps) (rule mm_step_flags(1))
  have k1': "rfgExplored (snd (fold F1 js s)) = rfgExplored (snd s)" for js s
    unfolding F1_def by (rule fold_keeps) (rule mm_step_flags(2))
  have k2: "rfgExplored (snd (fold F2 js s)) = rfgExplored (snd s)" for js s
    unfolding F2_def by (rule fold_keeps) (rule rdg_step_flags(1))
  have fl1: "rdgExplored (snd r1) = rdgExplored fl0" "rfgExplored (snd r1) = rfgExplored fl0"
    using k1 [of "[0, 1, 2, 3]" "([], fl0)"] k1' [of "[0, 1, 2, 3]" "([], fl0)"]
    by (simp_all add: r1_def del: fold_simps)
  have fl2: "rfgExplored (snd r2) = rfgExplored fl0"
    using k2 [of "[0, 1, 2, 3]" r1] fl1 by (simp add: r2_def del: fold_simps)
  have fl3: "rdgExplored (snd r3) = rdgExplored (snd r2)"
    unfolding r3_def F3_def by (simp add: rfg_step_flags)
  let ?G = "\<lambda>x. pri_pen (edge_pri x) = cf_cons (cs ! d_rid dsc) depth \<and> pri_depth (edge_pri x) = depth"
  have goal: "(\<exists>x. (k, x) \<in> set (fst (if gapsAllowed then r5 else r1)) \<and> ?G x) \<Longrightarrow> ?thesis"
    using ne dpos by (simp add: unfold)
  have in1: "y \<in> set (fst r1) \<Longrightarrow> y \<in> set (fst (if gapsAllowed then r5 else r1))" for y
    using s12 s23 s34 s45 by auto
  have in2: "y \<in> set (fst r2) \<Longrightarrow> y \<in> set (fst r5)" for y
    using s23 s34 s45 by auto
  have in3: "y \<in> set (fst r3) \<Longrightarrow> y \<in> set (fst r5)" for y
    using s34 s45 by auto
  have in4: "y \<in> set (fst r4) \<Longrightarrow> y \<in> set (fst r5)" for y
    using s45 by auto
  show ?thesis
  proof (cases k)
    case K_MM
    with cand have h: "j < 4" "int j \<noteq> c" "rd t j < rd b j" "\<not> claimed (mmExplored fl0) j"
      "\<not> re_contains re (fw, cur5pi, cur5pf, ref_span cur5pi cur5pf (d_gapadd dsc), rd (p_topf p) j, rd (p_botf p) j)
           (d_pen dsc + pen_mm)"
      by (simp_all add: candidate_def Let_def fw_def c_def t_def b_def fl0_def kind_cost_def pen_mm_def qq_def)
    have pm: "pen_mm = cost" using K_MM by (simp add: cost_def kind_cost_def pen_mm_def c_def qq_def)
    have "\<exists>x. (K_MM, x) \<in> set (fst (fold F1 [0, 1, 2, 3] ([], fl0))) \<and>
            (pri_pen (edge_pri x) = d_pen dsc + pen_mm \<and> pri_depth (edge_pri x) = depth
             \<and> e_chr (edge_e x) = dna2asc j \<and> e_type (edge_e x) = EDIT_TYPE_MM)"
      unfolding F1_def
      by (rule fold_emit [where free = "\<lambda>i fl. \<not> claimed (mmExplored fl) i" and j = j])
         (use h in \<open>auto simp: mm_step_flags(3) t_def b_def intro: mm_step_mono [THEN subsetD] mm_step_emit\<close>)
    then obtain x where "(K_MM, x) \<in> set (fst r1)" "?G x"
      using pm cost by (auto simp: r1_def simp del: fold_simps)
    with K_MM show ?thesis by (intro goal) (blast intro: in1)
  next
    case K_RDG_EX
    with cand have h: "gapsAllowed" "rdex" "j < 4" "rd t j < rd b j" "\<not> claimed (rdgExplored fl0) j"
      "\<not> re_contains re (fw, cur5pi_i, cur5pf_i, ref_span cur5pi cur5pf (d_gapadd dsc), rd (p_topf p) j, rd (p_botf p) j)
           (d_pen dsc + sc_readGapExtend sc)"
      using cost
      by (simp_all add: candidate_def Let_def fw_def c_def t_def b_def fl0_def kind_cost_def
            gapsAllowed_def rdex_def atroot_def cur5pi_i_def cur5pf_i_def toward3p_def cost_def)
    have "\<exists>x. (K_RDG_EX, x) \<in> set (fst (fold F2 [0, 1, 2, 3] r1)) \<and>
            (pri_pen (edge_pri x) = d_pen dsc + sc_readGapExtend sc \<and> pri_depth (edge_pri x) = depth
             \<and> e_chr (edge_e x) = dna2asc j \<and> e_type (edge_e x) = EDIT_TYPE_READ_GAP)"
      unfolding F2_def
      by (rule fold_emit [where free = "\<lambda>i fl. \<not> claimed (rdgExplored fl) i" and j = j])
         (use h fl1 in \<open>auto simp: rdg_step_flags(2) t_def b_def intro: rdg_step_mono [THEN subsetD] rdg_step_emit\<close>)
    then obtain x where "(K_RDG_EX, x) \<in> set (fst r2)" "?G x"
      using cost h K_RDG_EX by (auto simp: r2_def cost_def kind_cost_def simp del: fold_simps)
    with K_RDG_EX h show ?thesis by (intro goal) (auto intro: in2)
  next
    case K_RFG_EX
    with cand have h: "gapsAllowed" "rfex" "\<not> rfgExplored fl0"
      "\<not> re_contains re (fw, cur5pi, cur5pf, nrefal_of cur5pi cur5pf (d_gapadd dsc),
          (if d_l2r dsc then topp else topd), (if d_l2r dsc then botp else botd)) (d_pen dsc + sc_refGapExtend sc)"
      using cost
      by (simp_all add: candidate_def Let_def fw_def fl0_def kind_cost_def
            gapsAllowed_def rfex_def atroot_def cost_def)
    have "\<exists>x. (K_RFG_EX, x) \<in> set (fst (F3 r2)) \<and>
            (pri_pen (edge_pri x) = d_pen dsc + sc_refGapExtend sc \<and> pri_depth (edge_pri x) = depth
             \<and> e_type (edge_e x) = EDIT_TYPE_REF_GAP)"
      unfolding F3_def by (rule rfg_step_emit) (use h fl2 in auto)
    then obtain x where "(K_RFG_EX, x) \<in> set (fst r3)" "?G x"
      using cost h K_RFG_EX by (auto simp: r3_def cost_def kind_cost_def)
    with K_RFG_EX h show ?thesis by (intro goal) (auto intro: in3)
  next
    case K_RDG_OP
    with cand have h: "gapsAllowed" "\<not> am" "\<not> rdex" "j < 4" "rd t j < rd b j" "\<not> claimed (rdgExplored fl0) j"
      "\<not> re_contains re (fw, cur5pi_i, cur5pf_i, ref_span cur5pi cur5pf (d_gapadd dsc), rd (p_topf p) j, rd (p_botf p) j)
           (d_pen dsc + sc_readGapOpen sc)"
      by (simp_all add: candidate_def Let_def fw_def c_def t_def b_def fl0_def kind_cost_def
            gapsAllowed_def rdex_def atroot_def cur5pi_i_def cur5pf_i_def toward3p_def am_def diff_def)
    have r21: "r2 = r1" using h by (simp add: r2_def)
    have "\<exists>x. (K_RDG_OP, x) \<in> set (fst (fold F4 [0, 1, 2, 3] r3)) \<and>
            (pri_pen (edge_pri x) = d_pen dsc + sc_readGapOpen sc \<and> pri_depth (edge_pri x) = depth
             \<and> e_chr (edge_e x) = dna2asc j \<and> e_type (edge_e x) = EDIT_TYPE_READ_GAP)"
      unfolding F4_def
      by (rule fold_emit [where free = "\<lambda>i fl. \<not> claimed (rdgExplored fl) i" and j = j])
         (use h fl1 fl3 r21 in \<open>auto simp: rdg_step_flags(2) t_def b_def intro: rdg_step_mono [THEN subsetD] rdg_step_emit\<close>)
    then obtain x where "(K_RDG_OP, x) \<in> set (fst r4)" "?G x"
      using cost h K_RDG_OP by (auto simp: r4_def cost_def kind_cost_def simp del: fold_simps)
    with K_RDG_OP h show ?thesis by (intro goal) (auto intro: in4)
  next
    case K_RFG_OP
    with cand have h: "gapsAllowed" "\<not> am" "\<not> rfex" "\<not> rfgExplored fl0"
      "\<not> re_contains re (fw, cur5pi, cur5pf, nrefal_of cur5pi cur5pf (d_gapadd dsc),
          (if d_l2r dsc then topp else topd), (if d_l2r dsc then botp else botd)) (d_pen dsc + sc_refGapOpen sc)"
      by (simp_all add: candidate_def Let_def fw_def c_def t_def b_def fl0_def kind_cost_def
            gapsAllowed_def rfex_def atroot_def am_def diff_def)
    have k4: "rfgExplored (snd (fold F4 js s)) = rfgExplored (snd s)" for js s
      unfolding F4_def by (rule fold_keeps) (rule rdg_step_flags(1))
    have r32: "r3 = r2" using h by (simp add: r3_def)
    have fl4: "rfgExplored (snd r4) = rfgExplored fl0"
      using k4 [of "[0, 1, 2, 3]" r3] fl2 r32 by (simp add: r4_def del: fold_simps)
    have "\<exists>x. (K_RFG_OP, x) \<in> set (fst (F5 r4)) \<and>
            (pri_pen (edge_pri x) = d_pen dsc + sc_refGapOpen sc \<and> pri_depth (edge_pri x) = depth
             \<and> e_type (edge_e x) = EDIT_TYPE_REF_GAP)"
      unfolding F5_def by (rule rfg_step_emit) (use h fl4 in auto)
    then obtain x where "(K_RFG_OP, x) \<in> set (fst r5)" "?G x"
      using cost h K_RFG_OP by (auto simp: r5_def cost_def kind_cost_def)
    with K_RFG_OP h show ?thesis by (intro goal) auto
  qed
qed

lemmas ex_defs = ex_q_def ex_qn_def ex_sc_def ex_rs_def ex_cs_def ex_p_def ex_d_def
lemmas recalc_defs = recalc_edges_def recalc_pos_def mm_step_def rdg_step_def rfg_step_def
  qlength_def size_sub_def size_add_def at_def rd_def tbl_t_def tbl_b_def tbl_tp_def tbl_bp_def
  pos_reset_def flags_reset_def descent_null_def exhausted_def mmExplore_def rdgExplore_def rfgExplore_def
  claimed_def re_contains_def ioff_sub_def ioff_add_def totwidth_def allmatch_def ref_span_def nrefal_of_def edge_init_def mkEdit_def u32_def dna2asc_def
  inited_def isReadGap_def isRefGap_def e_null_def pos2_default_def SIZE_MAX_def

lemma rdg_step_filter:
  "kind \<noteq> K_MM \<Longrightarrow>
   filter is_mm (fst (rdg_step kind pn p2 re fw rootpri dsc cur5pi cur5pf cur5pi_i cur5pf_i off5p depth d p j s))
     = filter is_mm (fst s)"
  by (cases s) (auto simp: rdg_step_def is_mm_def Let_def split: prod.splits)

lemma rfg_step_filter:
  "kind \<noteq> K_MM \<Longrightarrow>
   filter is_mm (fst (rfg_step kind pn re fw rootpri dsc cur5pi cur5pf off5p depth d topd botd topp botp c s))
     = filter is_mm (fst s)"
  by (cases s) (auto simp: rfg_step_def is_mm_def Let_def split: prod.splits)

lemma fold_filter:
  assumes "\<And>j s. filter P (fst (f j s)) = filter P (fst s)"
  shows "filter P (fst (fold f js s)) = filter P (fst s)"
  by (induction js arbitrary: s) (simp_all add: assms)

lemma recalc_pos_mm:
  "filter is_mm (fst (recalc_pos q sc re rs cs dsc off5p off3p depth d cur5pi cur5pf topd botd topp botp p))
     = mm_part q sc re rs cs dsc off5p depth d cur5pi cur5pf p"
proof -
  define fw where "fw = r_fw (rs ! d_rid dsc)"
  define rootpri where "rootpri = r_pri (rs ! d_rid dsc)"
  define diff where "diff = cf_cons (cs ! d_rid dsc) depth - d_pen dsc"
  define c where "c = fst (q_get q off5p fw)"
  define qq where "qq = snd (q_get q off5p fw)"
  define t where "t = tbl_t dsc p"
  define b where "b = tbl_b dsc p"
  define fl0 where "fl0 = p_flags p"
  define pen_mm where "pen_mm = sc_mm sc c qq"
  define toward3p where "toward3p = (d_l2r dsc = fw)"
  define F1 where "F1 = mm_step re fw rootpri dsc cur5pi cur5pf off5p depth d p c pen_mm"
  define r1 where "r1 = (if pen_mm \<le> diff then fold F1 [0, 1, 2, 3] ([], fl0) else ([], fl0))"
  define am where "am = allmatch t b c"
  define cur5pi_i where "cur5pi_i = (if toward3p then cur5pi else size_add cur5pi 1)"
  define cur5pf_i where "cur5pf_i = (if toward3p then size_sub cur5pf 1 else cur5pf)"
  define atroot where "atroot = (off5p = d_off5p_i dsc \<and> inited (d_edit dsc))"
  define rdex where "rdex = (atroot \<and> sc_readGapExtend sc \<le> diff \<and> isReadGap (d_edit dsc))"
  define F2 where "F2 = rdg_step K_RDG_EX (sc_readGapExtend sc)
                   (u32 (int (e_pos2 (d_edit dsc)) + (if d_l2r dsc then 1 else -1)))
                   re fw rootpri dsc cur5pi cur5pf cur5pi_i cur5pf_i off5p depth d p"
  define r2 where "r2 = (if rdex then fold F2 [0, 1, 2, 3] r1 else r1)"
  define rfex where "rfex = (atroot \<and> sc_refGapExtend sc \<le> diff \<and> isRefGap (d_edit dsc))"
  define F3 where "F3 = rfg_step K_RFG_EX (sc_refGapExtend sc) re fw rootpri dsc cur5pi cur5pf
             off5p depth d topd botd topp botp c"
  define r3 where "r3 = (if rfex then F3 r2 else r2)"
  define F4 where "F4 = rdg_step K_RDG_OP (sc_readGapOpen sc) pos2_default
                   re fw rootpri dsc cur5pi cur5pf cur5pi_i cur5pf_i off5p depth d p"
  define r4 where "r4 = (if \<not> am \<and> sc_readGapOpen sc \<le> diff \<and> \<not> rdex
      then fold F4 [0, 1, 2, 3] r3 else r3)"
  define F5 where "F5 = rfg_step K_RFG_OP (sc_refGapOpen sc) re fw rootpri dsc cur5pi cur5pf
             off5p depth d topd botd topp botp c"
  define r5 where "r5 = (if \<not> am \<and> sc_refGapOpen sc \<le> diff \<and> \<not> rfex then F5 r4 else r4)"
  define gapsAllowed where "gapsAllowed = (off5p \<ge> sc_gapbar sc \<and> off3p \<ge> sc_gapbar sc)"
  have unfold: "recalc_pos q sc re rs cs dsc off5p off3p depth d cur5pi cur5pf topd botd topp botp p =
        (if \<not> exhausted fl0 \<and> diff > 0 then (if gapsAllowed then r5 else r1) else ([], fl0))"
    unfolding recalc_pos_def Let_def split_def r5_def r4_def r3_def r2_def r1_def rfex_def rdex_def
      atroot_def cur5pf_i_def cur5pi_i_def am_def toward3p_def pen_mm_def fl0_def b_def t_def
      qq_def c_def diff_def rootpri_def fw_def gapsAllowed_def F1_def F2_def F3_def F4_def F5_def
    by simp
  have e2: "filter is_mm (fst r2) = filter is_mm (fst r1)"
    unfolding r2_def F2_def by (simp add: fold_filter rdg_step_filter del: fold_simps)
  have e3: "filter is_mm (fst r3) = filter is_mm (fst r2)"
    unfolding r3_def F3_def by (simp add: rfg_step_filter)
  have e4: "filter is_mm (fst r4) = filter is_mm (fst r3)"
    unfolding r4_def F4_def by (simp add: fold_filter rdg_step_filter del: fold_simps)
  have e5: "filter is_mm (fst r5) = filter is_mm (fst r4)"
    unfolding r5_def F5_def by (simp add: rfg_step_filter)
  have "filter is_mm (fst (if gapsAllowed then r5 else r1)) = filter is_mm (fst r1)"
    by (simp add: e2 e3 e4 e5)
  then show ?thesis
    unfolding unfold mm_part_def Let_def
    by (simp add: r1_def F1_def fl0_def diff_def pen_mm_def c_def qq_def fw_def rootpri_def del: fold_simps)
qed

lemma mm_part_gapbar:
  "mm_part q (sc\<lparr>sc_gapbar := g\<rparr>) re rs cs dsc off5p depth d cur5pi cur5pf p
     = mm_part q sc re rs cs dsc off5p depth d cur5pi cur5pf p"
  by (simp add: mm_part_def)

lemma recalc_loop_mm_gapbar:
  assumes "\<forall>i\<ge>d. pfat pf' i = pfat pf i"
  shows "filter is_mm (fst (recalc_loop q (sc\<lparr>sc_gapbar := g\<rparr>) re rs cs dsc toward3p extrai extraf off5p off3p
                              depth d cur5pi cur5pf topd botd topp botp pf'))
       = filter is_mm (fst (recalc_loop q sc re rs cs dsc toward3p extrai extraf off5p off3p
                              depth d cur5pi cur5pf topd botd topp botp pf))"
  using assms
proof (induction q sc re rs cs dsc toward3p extrai extraf off5p off3p depth d cur5pi cur5pf
         topd botd topp botp pf arbitrary: pf' rule: recalc_loop.induct)
  case (1 q sc re rs cs dsc toward3p extrai extraf off5p off3p depth d cur5pi cur5pf topd botd topp botp pf)
  let ?sc' = "sc\<lparr>sc_gapbar := g\<rparr>"
  define p where "p = pfat pf d"
  define r where "r = recalc_pos q sc re rs cs dsc off5p off3p depth d cur5pi cur5pf topd botd topp botp p"
  define r' where "r' = recalc_pos q ?sc' re rs cs dsc off5p off3p depth d cur5pi cur5pf topd botd topp botp p"
  define pf1 where "pf1 = pf[d := p\<lparr>p_flags := snd r\<rparr>]"
  define pf1' where "pf1' = pf'[d := p\<lparr>p_flags := snd r'\<rparr>]"
  define cc where "cc = nat (fst (q_get q off5p (r_fw (rs ! d_rid dsc))))"
  have p': "pfat pf' d = p" using "1.prems" by (simp add: p_def)
  have rr: "filter is_mm (fst r') = filter is_mm (fst r)"
    by (simp add: r_def r'_def recalc_pos_mm mm_part_gapbar)
  have agree: "\<forall>i\<ge>d + 1. pfat pf1' i = pfat pf1 i"
    using "1.prems" by (simp add: pf1_def pf1'_def at_update_above)
  note L = recalc_loop.simps [of q sc re rs cs dsc toward3p extrai extraf off5p off3p depth d
                cur5pi cur5pf topd botd topp botp pf]
  note L' = recalc_loop.simps [of q ?sc' re rs cs dsc toward3p extrai extraf off5p off3p depth d
                cur5pi cur5pf topd botd topp botp pf']
  show ?case
  proof (cases "off5p \<ge> d_al5pi dsc - extrai \<and> off5p \<le> d_al5pf dsc + extraf")
    case False
    show ?thesis
      by (simp only: L L' False if_False fst_conv filter.simps)
  next
    case inrange: True
    show ?thesis
    proof (cases toward3p)
      case True
      show ?thesis
      proof (cases "off3p = 0")
        case z: True
        with True inrange rr show ?thesis
          by (subst L, subst L') (simp add: Let_def r_def r'_def p_def p')
      next
        case nz: False
        from "1.IH"(1) [OF inrange p_def r_def pf1_def cc_def True nz agree]
        have ih: "filter is_mm (fst (recalc_loop q ?sc' re rs cs dsc toward3p extrai extraf (off5p + 1) (off3p - 1)
                  (depth + 1) (d + 1) cur5pi (cur5pf + 1)
                  (rd (tbl_t dsc p) cc) (rd (tbl_b dsc p) cc) (rd (tbl_tp dsc p) cc) (rd (tbl_bp dsc p) cc) pf1'))
            = filter is_mm (fst (recalc_loop q sc re rs cs dsc toward3p extrai extraf (off5p + 1) (off3p - 1)
                  (depth + 1) (d + 1) cur5pi (cur5pf + 1)
                  (rd (tbl_t dsc p) cc) (rd (tbl_b dsc p) cc) (rd (tbl_tp dsc p) cc) (rd (tbl_bp dsc p) cc) pf1))" .
        from True inrange nz rr ih show ?thesis
          by (subst L, subst L')
             (simp add: Let_def split_def r_def r'_def p_def p' pf1_def pf1'_def cc_def)
      qed
    next
      case False
      show ?thesis
      proof (cases "off5p = 0")
        case z: True
        with False inrange rr show ?thesis
          by (subst L, subst L') (simp add: Let_def r_def r'_def p_def p')
      next
        case nz: False
        from "1.IH"(2) [OF inrange p_def r_def pf1_def cc_def False nz agree]
        have ih: "filter is_mm (fst (recalc_loop q ?sc' re rs cs dsc toward3p extrai extraf (off5p - 1) (off3p + 1)
                  (depth + 1) (d + 1) (size_sub cur5pi 1) cur5pf
                  (rd (tbl_t dsc p) cc) (rd (tbl_b dsc p) cc) (rd (tbl_tp dsc p) cc) (rd (tbl_bp dsc p) cc) pf1'))
            = filter is_mm (fst (recalc_loop q sc re rs cs dsc toward3p extrai extraf (off5p - 1) (off3p + 1)
                  (depth + 1) (d + 1) (size_sub cur5pi 1) cur5pf
                  (rd (tbl_t dsc p) cc) (rd (tbl_b dsc p) cc) (rd (tbl_tp dsc p) cc) (rd (tbl_bp dsc p) cc) pf1))" .
        from False inrange nz rr ih show ?thesis
          by (subst L, subst L')
             (simp add: Let_def split_def r_def r'_def p_def p' pf1_def pf1'_def cc_def)
      qed
    qed
  qed
qed

lemma recalc_edges_mm_gapbar:
  "filter is_mm (fst (recalc_edges q (sc\<lparr>sc_gapbar := g\<rparr>) re pf rs cs dsc))
     = filter is_mm (fst (recalc_edges q sc re pf rs cs dsc))"
  unfolding recalc_edges_def Let_def by (rule recalc_loop_mm_gapbar) simp

lemmas ex_defs2 = ex_cs5_def ex_q30_def ex_cs20_def ex_d20_def

section \<open>Properties of followMatches\<close>

lemma fm_ftab_len:
  "fm_ftab env fw toward3p l = Some l1 \<Longrightarrow> d_len (l_dsc l1) = d_len (l_dsc l) + ftabChars (env_fw env)"
  apply (simp only: fm_ftab_def Let_def)
  apply (split if_split_asm)
   apply simp
  apply (simp only: option.inject)
  apply (erule subst)
  apply simp
  done

lemma fm_fchr_len:
  "fm_fchr env fw toward3p l = Some l1 \<Longrightarrow> d_len (l_dsc l1) = d_len (l_dsc l) + 1"
  apply (simp only: fm_fchr_def Let_def)
  apply (split if_split_asm)
   apply simp
  apply (simp only: option.inject)
  apply (erule subst)
  apply simp
  done


lemma fm_root_cases:
  obtains (none) "fm_root env fw toward3p l = (False, l)"
  | (ftab) l1 where "1 < ftabChars (env_fw env)" "ftabChars (env_fw env) \<le> nobranchDepth"
      "ftabFits env toward3p (l_off5p l)" "fm_ftab env fw toward3p l = Some l1"
      "fm_root env fw toward3p l =
         (let r = re_check (l_re l1) (fm_key fw l1) (d_pen (l_dsc l1))
          in if \<not> fst r then (False, l1) else (True, l1\<lparr>l_re := snd r\<rparr>))"
  | (fchr) l1 where "\<not> (1 < ftabChars (env_fw env) \<and> ftabChars (env_fw env) \<le> nobranchDepth \<and>
                       ftabFits env toward3p (l_off5p l))"
      "fm_fchr env fw toward3p l = Some l1"
      "fm_root env fw toward3p l =
         (let r = re_check (l_re l1) (fm_key fw l1) (d_pen (l_dsc l1))
          in if \<not> fst r then (False, l1) else (True, l1\<lparr>l_re := snd r\<rparr>))"
proof -
  define U where "U \<longleftrightarrow> 1 < ftabChars (env_fw env) \<and> ftabChars (env_fw env) \<le> nobranchDepth \<and>
                       ftabFits env toward3p (l_off5p l)"
  define r1 where "r1 = (if U then fm_ftab env fw toward3p l else fm_fchr env fw toward3p l)"
  have eq: "fm_root env fw toward3p l =
     (case r1 of None \<Rightarrow> (False, l)
      | Some l1 \<Rightarrow>
         (let r = re_check (l_re l1) (fm_key fw l1) (d_pen (l_dsc l1))
          in if \<not> fst r then (False, l1) else (True, l1\<lparr>l_re := snd r\<rparr>)))"
    unfolding fm_root_def Let_def r1_def U_def by simp
  show thesis
  proof (cases r1)
    case None
    with eq have "fm_root env fw toward3p l = (False, l)" by simp
    then show thesis by (rule none)
  next
    case (Some l1)
    show thesis
    proof (cases U)
      case True
      with Some have "fm_ftab env fw toward3p l = Some l1" by (simp add: r1_def)
      moreover from eq Some have "fm_root env fw toward3p l =
         (let r = re_check (l_re l1) (fm_key fw l1) (d_pen (l_dsc l1))
          in if \<not> fst r then (False, l1) else (True, l1\<lparr>l_re := snd r\<rparr>))" by simp
      ultimately show thesis using True unfolding U_def by (intro ftab) auto
    next
      case False
      with Some have "fm_fchr env fw toward3p l = Some l1" by (simp add: r1_def)
      moreover from eq Some have "fm_root env fw toward3p l =
         (let r = re_check (l_re l1) (fm_key fw l1) (d_pen (l_dsc l1))
          in if \<not> fst r then (False, l1) else (True, l1\<lparr>l_re := snd r\<rparr>))" by simp
      ultimately show thesis using False unfolding U_def by (intro fchr) auto
    qed
  qed
qed

lemma fm_root_len:
  "d_len (l_dsc (snd (fm_root env fw toward3p l))) = d_len (l_dsc l) \<or>
   d_len (l_dsc (snd (fm_root env fw toward3p l))) = d_len (l_dsc l) + 1 \<or>
   (d_len (l_dsc (snd (fm_root env fw toward3p l))) = d_len (l_dsc l) + ftabChars (env_fw env) \<and>
    ftabChars (env_fw env) \<le> nobranchDepth)"
proof (cases rule: fm_root_cases [of env fw toward3p l])
  case none
  then show ?thesis by simp
next
  case (ftab l1)
  then show ?thesis using fm_ftab_len [of env fw toward3p l l1] by (simp add: Let_def)
next
  case (fchr l1)
  then show ?thesis using fm_fchr_len [of env fw toward3p l l1] by (simp add: Let_def)
qed

lemma set_pos_range_len: "length (set_pos_range pf i ch a b c d) = length pf"
  by (simp add: set_pos_range_def Let_def)

lemma fm_ftab_fields:
  assumes "fm_ftab env fw toward3p l = Some l1"
  shows "length (l_pf l1) = length (l_pf l) + ftabChars (env_fw env)"
    and "l_off5p l1 = (if toward3p then l_off5p l + ftabChars (env_fw env)
                       else size_sub (l_off5p l) (ftabChars (env_fw env)))"
    and "(l_topf l1, l_botf l1) =
         ftabLoHi (env_fw env) (if fw then q_seq (env_q env) else q_seqrc (env_q env))
           (let off0 = (if fw then l_off5p l
                        else size_sub (size_sub (qlength (env_q env)) (l_off5p l)) 1)
            in if d_l2r (l_dsc l) then off0 else size_sub off0 (ftabChars (env_fw env) - 1)) False"
    and "l_re l1 = l_re l"
    and "d_pen (l_dsc l1) = d_pen (l_dsc l)"
  using assms
  apply -
  apply (simp_all only: fm_ftab_def Let_def)
  apply (split if_split_asm, simp, simp only: option.inject, erule subst, simp add: set_pos_range_len)+
  done

lemma fm_fchr_fields:
  assumes "fm_fchr env fw toward3p l = Some l1"
  shows "length (l_pf l1) = length (l_pf l) + 1"
    and "l_off5p l1 = (if toward3p then l_off5p l + 1 else size_sub (l_off5p l) 1)"
    and "l_topf l1 = sq (fchr (env_fw env)) (nat (q_getc (env_q env) (l_off5p l) fw))"
    and "l_botf l1 = sq (fchr (env_fw env)) (nat (q_getc (env_q env) (l_off5p l) fw + 1))"
    and "l_re l1 = l_re l"
    and "d_pen (l_dsc l1) = d_pen (l_dsc l)"
  using assms
  apply -
  apply (simp_all only: fm_fchr_def Let_def)
  apply (split if_split_asm, simp, simp only: option.inject, erule subst, simp add: set_pos_range_len)+
  done

lemma ftabFits_iff:
  "ftabFits env toward3p off5p \<longleftrightarrow>
   (if toward3p then off5p + ftabChars (env_fw env) \<le> qlength (env_q env)
    else ftabChars (env_fw env) \<le> off5p)"
  by (auto simp add: ftabFits_def)


lemma fm_root_success:
  assumes "fst (fm_root env fw toward3p l)"
  obtains (ftab) l1 where "1 < ftabChars (env_fw env)" "ftabChars (env_fw env) \<le> nobranchDepth"
      "ftabFits env toward3p (l_off5p l)" "fm_ftab env fw toward3p l = Some l1"
      "fst (re_check (l_re l1) (fm_key fw l1) (d_pen (l_dsc l1)))"
      "snd (fm_root env fw toward3p l) =
         l1\<lparr>l_re := snd (re_check (l_re l1) (fm_key fw l1) (d_pen (l_dsc l1)))\<rparr>"
  | (fchr) l1 where "\<not> (1 < ftabChars (env_fw env) \<and> ftabChars (env_fw env) \<le> nobranchDepth \<and>
                       ftabFits env toward3p (l_off5p l))"
      "fm_fchr env fw toward3p l = Some l1"
      "fst (re_check (l_re l1) (fm_key fw l1) (d_pen (l_dsc l1)))"
      "snd (fm_root env fw toward3p l) =
         l1\<lparr>l_re := snd (re_check (l_re l1) (fm_key fw l1) (d_pen (l_dsc l1)))\<rparr>"
proof (cases rule: fm_root_cases [of env fw toward3p l])
  case none
  with assms show ?thesis by simp
next
  case (ftab l1)
  from assms ftab(5) have c: "fst (re_check (l_re l1) (fm_key fw l1) (d_pen (l_dsc l1)))"
    by (simp add: Let_def split: if_split_asm)
  with ftab(5) have "snd (fm_root env fw toward3p l) =
         l1\<lparr>l_re := snd (re_check (l_re l1) (fm_key fw l1) (d_pen (l_dsc l1)))\<rparr>"
    by (simp add: Let_def)
  with ftab c show ?thesis by (intro that(1))
next
  case (fchr l1)
  from assms fchr(3) have c: "fst (re_check (l_re l1) (fm_key fw l1) (d_pen (l_dsc l1)))"
    by (simp add: Let_def split: if_split_asm)
  with fchr(3) have "snd (fm_root env fw toward3p l) =
         l1\<lparr>l_re := snd (re_check (l_re l1) (fm_key fw l1) (d_pen (l_dsc l1)))\<rparr>"
    by (simp add: Let_def)
  with fchr c show ?thesis by (intro that(2))
qed


lemmas ex_defs3 = ex_ix_def ex_q2_def ex_env_def ex_env2_def ex_st_def
lemmas fm_defs = fm_root_def fm_ftab_def fm_fchr_def ftabFits_def fm_start_def mk_root_def
  nobranchDepth_def set_pos_range_def re_check_def fm_key_def sq_def fm_lf_def fm_next_key_def
  fm_iter_def fm_exit_def followMatches_def fm_direction_def fm_dir_step_def nextLocsBi_def alloc_def
  root_def reportAlignment_def same_range_def


lemma fm_root_key:
  "fm_key fw (l\<lparr>l_re := x\<rparr>) = fm_key fw l"
  by (simp add: fm_key_def)

lemma fm_root_check:
  "(\<not> fst (re_check (l_re l) (fm_key fw (snd (fm_root env fw toward3p l))) (d_pen (l_dsc l))) \<longrightarrow>
      \<not> fst (fm_root env fw toward3p l)) \<and>
   (fst (fm_root env fw toward3p l) \<longrightarrow>
      l_re (snd (fm_root env fw toward3p l)) =
      snd (re_check (l_re l) (fm_key fw (snd (fm_root env fw toward3p l))) (d_pen (l_dsc l))))"
proof (cases "fst (fm_root env fw toward3p l)")
  case False
  then show ?thesis by simp
next
  case True
  then show ?thesis
  proof (cases rule: fm_root_success)
    case (ftab l1)
    with True fm_ftab_fields(4,5) [OF ftab(4)] show ?thesis by (simp add: fm_root_key)
  next
    case (fchr l1)
    with True fm_fchr_fields(5,6) [OF fchr(2)] show ?thesis by (simp add: fm_root_key)
  qed
qed

lemma fm_iter_check:
  assumes "\<not> fst (snd (fm_lf env fw l))"
  shows "l_fail (fm_iter env fw toward3p l) =
           (\<not> fst (re_check (l_re l)
              (fm_next_key fw toward3p (l_dsc l) (l_topf (fm_iter env fw toward3p l))
                 (l_botf (fm_iter env fw toward3p l))) (d_pen (l_dsc l))))"
    and "l_re (fm_iter env fw toward3p l) =
           snd (re_check (l_re l)
              (fm_next_key fw toward3p (l_dsc l) (l_topf (fm_iter env fw toward3p l))
                 (l_botf (fm_iter env fw toward3p l))) (d_pen (l_dsc l)))"
  using assms by (simp_all add: fm_iter_def Let_def)

lemma fm_iter_fields:
  "d_len (l_dsc (fm_iter env fw toward3p l)) =
     (if l_fail (fm_iter env fw toward3p l) then d_len (l_dsc l) else d_len (l_dsc l) + 1)"
  "d_al5pi (l_dsc (fm_iter env fw toward3p l)) =
     (if l_fail (fm_iter env fw toward3p l) \<or> toward3p then d_al5pi (l_dsc l)
      else size_sub (d_al5pi (l_dsc l)) 1)"
  "d_al5pf (l_dsc (fm_iter env fw toward3p l)) =
     (if l_fail (fm_iter env fw toward3p l) \<or> \<not> toward3p then d_al5pf (l_dsc l)
      else d_al5pf (l_dsc l) + 1)"
  "l_off5p (fm_iter env fw toward3p l) =
     (if l_fail (fm_iter env fw toward3p l) then l_off5p l
      else if toward3p then l_off5p l + 1 else size_sub (l_off5p l) 1)"
  "length (l_pf (fm_iter env fw toward3p l)) = length (l_pf l) + 1"
  "d_pen (l_dsc (fm_iter env fw toward3p l)) = d_pen (l_dsc l)"
  "d_gapadd (l_dsc (fm_iter env fw toward3p l)) = d_gapadd (l_dsc l)"
  by (simp_all add: fm_iter_def Let_def fm_next_key_def alloc_def)

lemma fm_iter_stall:
  assumes "l_fail (fm_iter env fw toward3p l)"
  shows "l_hitEnd (fm_iter env fw toward3p l) = l_hitEnd l"
    and "l_done (fm_iter env fw toward3p l) = l_done l"
proof -
  define ck where "ck = (if \<not> fst (snd (fm_lf env fw l))
     then re_check (l_re l) (fm_next_key fw toward3p (l_dsc l) (l_topf (fm_iter env fw toward3p l))
                 (l_botf (fm_iter env fw toward3p l))) (d_pen (l_dsc l)) else (False, l_re l))"
  define fail2 where "fail2 = (if \<not> fst (snd (fm_lf env fw l)) then \<not> fst ck else fst (snd (fm_lf env fw l)))"
  have f: "l_fail (fm_iter env fw toward3p l) = fail2"
    by (simp add: fm_iter_def Let_def fail2_def ck_def)
  have h: "fail2 \<Longrightarrow> l_hitEnd (fm_iter env fw toward3p l) = l_hitEnd l"
    by (auto simp add: fm_iter_def Let_def fail2_def ck_def split: if_split_asm)
  have d: "fail2 \<Longrightarrow> l_done (fm_iter env fw toward3p l) = l_done l"
    by (auto simp add: fm_iter_def Let_def fail2_def ck_def split: if_split_asm)
  from assms f have "fail2" by simp
  with h d show "l_hitEnd (fm_iter env fw toward3p l) = l_hitEnd l"
    and "l_done (fm_iter env fw toward3p l) = l_done l" by auto
qed

lemma fm_exit_ret: "fm_exit st l = (r, st') \<Longrightarrow> fm_ret r"
  by (auto simp add: fm_exit_def Let_def split: if_split_asm)

lemma fm_direction_parent:
  "fm_direction q fw dsc = Some (dsc0, r) \<Longrightarrow> d_parent dsc0 = d_parent dsc"
  by (auto simp add: fm_direction_def fm_dir_step_def Let_def split: sum.splits if_split_asm)

lemma followMatches_ret:
  assumes "fm_direction (env_q env) (r_fw (env_rs env ! d_rid dsc)) dsc = Some (dsc0, toward3p, off5p)"
      and "followMatches env dsc st = Some (r, st')"
  shows "fm_ret r =
         (root dsc \<longrightarrow> fst (fm_root env (r_fw (env_rs env ! d_rid dsc)) toward3p (fm_start dsc0 st off5p)))"
proof -
  have rt: "root (l_dsc (fm_start dsc0 st off5p)) = root dsc"
    using fm_direction_parent [OF assms(1)] by (simp add: fm_start_def root_def)
  show ?thesis
    using assms(2)
    by (auto simp add: followMatches_def Let_def assms(1) rt split: if_split_asm option.splits
          dest: fm_exit_ret simp del: fm_loop.simps)
qed



lemma fm_loop_numeral:
  "fm_loop (numeral k) env fw tw l = fm_loop (Suc (pred_numeral k)) env fw tw l"
  by (simp add: numeral_eq_Suc)


lemmas ex_defs4 = ex_st_red_def ex_l0_def

lemma fm_direction_some:
  assumes "\<not> (d_al5pi dsc = 0 \<and> d_al5pf dsc = size_sub (qlength q) 1)"
  obtains dsc0 toward3p off5p where
    "fm_direction q fw dsc = Some (dsc0, toward3p, off5p)"
    "dsc0 = dsc \<or> dsc0 = dsc\<lparr>d_l2r := \<not> d_l2r dsc\<rparr>"
    "toward3p = (d_l2r dsc0 = fw)"
    "toward3p \<longrightarrow> d_al5pf dsc \<noteq> size_sub (qlength q) 1"
    "\<not> toward3p \<longrightarrow> d_al5pi dsc \<noteq> 0"
    "off5p = (if d_al5pi dsc = d_al5pf dsc then d_al5pi dsc
              else if toward3p then d_al5pf dsc + 1 else size_sub (d_al5pi dsc) 1)"
proof (cases "d_l2r dsc = fw")
  case True
  show thesis
  proof (cases "d_al5pf dsc = size_sub (qlength q) 1")
    case False
    with True show thesis
      by (intro that [of dsc True]) (auto simp add: fm_direction_def fm_dir_step_def Let_def)
  next
    case e: True
    with assms have "d_al5pi dsc \<noteq> 0" by simp
    with True e show thesis
      by (intro that [of "dsc\<lparr>d_l2r := \<not> d_l2r dsc\<rparr>" False])
         (auto simp add: fm_direction_def fm_dir_step_def Let_def)
  qed
next
  case False
  show thesis
  proof (cases "d_al5pi dsc = 0")
    case z: False
    with False show thesis
      by (intro that [of dsc False]) (auto simp add: fm_direction_def fm_dir_step_def Let_def)
  next
    case z: True
    with assms have "d_al5pf dsc \<noteq> size_sub (qlength q) 1" by simp
    with False z show thesis
      by (intro that [of "dsc\<lparr>d_l2r := \<not> d_l2r dsc\<rparr>" True])
         (auto simp add: fm_direction_def fm_dir_step_def Let_def)
  qed
qed

lemma fm_iter_hitEnd:
  assumes "\<not> l_fail (fm_iter env fw toward3p l)"
  shows "l_hitEnd (fm_iter env fw toward3p l) =
         ((if toward3p then d_al5pf (l_dsc (fm_iter env fw toward3p l)) = size_sub (qlength (env_q env)) 1
           else d_al5pi (l_dsc (fm_iter env fw toward3p l)) = 0) \<or> l_hitEnd l)"
proof -
  define ck where "ck = (if \<not> fst (snd (fm_lf env fw l))
     then re_check (l_re l) (fm_next_key fw toward3p (l_dsc l) (l_topf (fm_iter env fw toward3p l))
                 (l_botf (fm_iter env fw toward3p l))) (d_pen (l_dsc l)) else (False, l_re l))"
  define fail2 where "fail2 = (if \<not> fst (snd (fm_lf env fw l)) then \<not> fst ck else fst (snd (fm_lf env fw l)))"
  have f: "l_fail (fm_iter env fw toward3p l) = fail2"
    by (simp add: fm_iter_def Let_def fail2_def ck_def)
  have h: "\<not> fail2 \<Longrightarrow> ?thesis"
    by (auto simp add: fm_iter_def Let_def fail2_def ck_def fm_next_key_def split: if_split_asm)
  from assms f h show ?thesis by simp
qed

text \<open>
  The extension loop ends within the characters left on the side of the extension.
\<close>

lemma fm_loop_total:
  assumes "\<not> l_hitEnd l \<and> \<not> l_fail l \<longrightarrow>
             (if toward3p then d_al5pf (l_dsc l) < size_sub (qlength (env_q env)) 1
              else 0 < d_al5pi (l_dsc l))"
      and "(if toward3p then size_sub (qlength (env_q env)) 1 - d_al5pf (l_dsc l)
            else d_al5pi (l_dsc l)) \<le> n"
  shows "\<exists>l'. fm_loop n env fw toward3p l = Some l'"
  using assms
proof (induction n arbitrary: l)
  case 0
  then show ?case by (auto split: if_split_asm)
next
  case (Suc n)
  show ?case
  proof (cases "\<not> l_fail l \<and> \<not> l_hitEnd l")
    case False
    then show ?thesis by auto
  next
    case True
    let ?l = "fm_iter env fw toward3p l"
    show ?thesis
    proof (cases "l_fail ?l")
      case f: True
      then have "fm_loop n env fw toward3p ?l = Some ?l" by (cases n) simp_all
      with True show ?thesis by simp
    next
      case f: False
      note flds = fm_iter_fields(2,3) [of env fw toward3p l] fm_iter_hitEnd [OF f]
      have "\<exists>l'. fm_loop n env fw toward3p ?l = Some l'"
      proof (rule Suc.IH)
        from True Suc.prems(1) f flds
        show "\<not> l_hitEnd ?l \<and> \<not> l_fail ?l \<longrightarrow>
             (if toward3p then d_al5pf (l_dsc ?l) < size_sub (qlength (env_q env)) 1
              else 0 < d_al5pi (l_dsc ?l))"
          by (auto simp add: size_sub_def split: if_split_asm)
        from True Suc.prems f flds
        show "(if toward3p then size_sub (qlength (env_q env)) 1 - d_al5pf (l_dsc ?l)
            else d_al5pi (l_dsc ?l)) \<le> n"
          by (auto simp add: size_sub_def split: if_split_asm)
      qed
      with True show ?thesis by simp
    qed
  qed
qed

lemma fm_ftab_ends:
  assumes "fm_ftab env fw toward3p l = Some l1"
  shows "d_al5pf (l_dsc l1) = (if toward3p then d_al5pf (l_dsc l) + (ftabChars (env_fw env) - 1)
                               else d_al5pf (l_dsc l))"
    and "d_al5pi (l_dsc l1) = (if toward3p then d_al5pi (l_dsc l)
                               else size_sub (d_al5pi (l_dsc l)) (ftabChars (env_fw env) - 1))"
    and "l_hitEnd l1 = (if toward3p then d_al5pf (l_dsc l1) = size_sub (qlength (env_q env)) 1
                        else d_al5pi (l_dsc l1) = 0)"
    and "l_fail l1 = l_fail l"
  using assms
  apply -
  apply (simp_all only: fm_ftab_def Let_def)
  apply (split if_split_asm, simp, simp only: option.inject, erule subst, simp)+
  done

lemma fm_fchr_ends:
  assumes "fm_fchr env fw toward3p l = Some l1"
  shows "d_al5pf (l_dsc l1) = d_al5pf (l_dsc l)"
    and "d_al5pi (l_dsc l1) = d_al5pi (l_dsc l)"
    and "l_hitEnd l1 = (if toward3p then d_al5pf (l_dsc l1) = size_sub (qlength (env_q env)) 1
                        else d_al5pi (l_dsc l1) = 0)"
    and "l_fail l1 = l_fail l"
  using assms
  apply -
  apply (simp_all only: fm_fchr_def Let_def)
  apply (split if_split_asm, simp, simp only: option.inject, erule subst, simp)+
  done

lemma fm_locs_fields:
  "l_dsc (fm_locs l) = l_dsc l" "l_hitEnd (fm_locs l) = l_hitEnd l" "l_fail (fm_locs l) = l_fail l"
  by (simp_all add: fm_locs_def Let_def)

text \<open>
  \<open>followMatches\<close> returns: for a descent whose extremes lie inside the read, do not
  cover it, and coincide at a root, the direction loop ends and the extension loop
  ends within its fuel. It returns false exactly for a root whose first step fails.
\<close>

lemma followMatches_total:
  assumes le: "d_al5pi dsc \<le> d_al5pf dsc"
      and lt: "d_al5pf dsc < qlength (env_q env)"
      and nc: "\<not> (d_al5pi dsc = 0 \<and> d_al5pf dsc = size_sub (qlength (env_q env)) 1)"
      and rt: "root dsc \<longrightarrow> d_al5pi dsc = d_al5pf dsc"
  shows "\<exists>dsc0 toward3p off5p r st'.
           fm_direction (env_q env) (r_fw (env_rs env ! d_rid dsc)) dsc = Some (dsc0, toward3p, off5p) \<and>
           followMatches env dsc st = Some (r, st') \<and>
           fm_ret r = (root dsc \<longrightarrow>
              fst (fm_root env (r_fw (env_rs env ! d_rid dsc)) toward3p (fm_start dsc0 st off5p)))"
proof -
  define q where "q = env_q env"
  define fw where "fw = r_fw (env_rs env ! d_rid dsc)"
  define qend where "qend = size_sub (qlength q) 1"
  from lt have qe: "qend = qlength q - 1" "d_al5pf dsc \<le> qend"
    by (simp_all add: qend_def q_def size_sub_def)
  from nc obtain dsc0 tw off5p where
    dir: "fm_direction q fw dsc = Some (dsc0, tw, off5p)"
    and d0: "dsc0 = dsc \<or> dsc0 = dsc\<lparr>d_l2r := \<not> d_l2r dsc\<rparr>"
    and t3: "tw \<longrightarrow> d_al5pf dsc \<noteq> qend"
    and t5: "\<not> tw \<longrightarrow> d_al5pi dsc \<noteq> 0"
    and off: "off5p = (if d_al5pi dsc = d_al5pf dsc then d_al5pi dsc
              else if tw then d_al5pf dsc + 1 else size_sub (d_al5pi dsc) 1)"
    unfolding q_def qend_def by (rule fm_direction_some [of dsc "env_q env" fw]) blast
  define l0 where "l0 = fm_start dsc0 st off5p"
  from d0 have l0: "d_al5pi (l_dsc l0) = d_al5pi dsc" "d_al5pf (l_dsc l0) = d_al5pf dsc"
    "root (l_dsc l0) = root dsc" "\<not> l_hitEnd l0" "\<not> l_done l0" "\<not> l_fail l0" "l_off5p l0 = off5p"
    by (auto simp add: l0_def fm_start_def root_def)
  define R where "R = (if root dsc then fm_root env fw tw l0 else (True, l0))"
  have loop: "\<exists>l3. fm_loop (qlength q + 1) env fw tw (fm_locs (snd R)) = Some l3"
    if ok: "fst R" and nh: "\<not> l_hitEnd (snd R)"
  proof -
    have ends: "d_al5pf (l_dsc (snd R)) \<le> qend \<and> d_al5pi (l_dsc (snd R)) \<le> qlength q \<and>
                (\<not> tw \<longrightarrow> 0 < d_al5pi (l_dsc (snd R))) \<and> (tw \<longrightarrow> d_al5pf (l_dsc (snd R)) \<noteq> qend)"
    proof (cases "root dsc")
      case False
      with l0 qe le lt t3 t5 show ?thesis by (simp add: R_def)
    next
      case True
      with rt off have o: "off5p = d_al5pi dsc" "d_al5pi dsc = d_al5pf dsc" by simp_all
      from True ok have s: "fst (fm_root env fw tw l0)" by (simp add: R_def)
      then show ?thesis
      proof (cases rule: fm_root_success)
        case (ftab l1)
        from ftab(3) l0(7) o have fit: "if tw then d_al5pf dsc + ftabChars (env_fw env) \<le> qlength q
                        else ftabChars (env_fw env) \<le> d_al5pi dsc"
          by (simp add: ftabFits_iff q_def)
        from True ftab(6) have sn: "l_dsc (snd R) = l_dsc l1" "l_hitEnd (snd R) = l_hitEnd l1"
          by (simp_all add: R_def)
        from nh sn fm_ftab_ends(1-3) [OF ftab(4)] l0 fit ftab(1) qe le lt
        show ?thesis
          unfolding sn
          by (auto simp add: size_sub_def q_def qend_def split: if_split_asm)
      next
        case (fchr l1)
        from True fchr(4) have sn: "l_dsc (snd R) = l_dsc l1" "l_hitEnd (snd R) = l_hitEnd l1"
          by (simp_all add: R_def)
        from nh sn fm_fchr_ends(1-3) [OF fchr(2)] l0 qe le lt
        show ?thesis
          unfolding sn
          by (auto simp add: size_sub_def q_def qend_def split: if_split_asm)
      qed
    qed
    show ?thesis
    proof (rule fm_loop_total [of "fm_locs (snd R)" tw env "qlength q + 1" fw, unfolded fm_locs_fields q_def [symmetric] qend_def [symmetric]])
      from ends show "\<not> l_hitEnd (snd R) \<and> \<not> l_fail (snd R) \<longrightarrow>
             (if tw then d_al5pf (l_dsc (snd R)) < qend else 0 < d_al5pi (l_dsc (snd R)))"
        by auto
      from ends qe show "(if tw then qend - d_al5pf (l_dsc (snd R)) else d_al5pi (l_dsc (snd R))) \<le> qlength q + 1"
        by auto
    qed
  qed
  have fm: "followMatches env dsc st =
      (if \<not> fst R then
          Some (\<lparr>fm_ret = False, fm_dsc = l_dsc (snd R), fm_branches = False, fm_hitEnd = l_hitEnd (snd R),
                  fm_done = l_done (snd R), fm_topf_bounce = 0, fm_botf_bounce = 0,
                  fm_topb_bounce = 0, fm_botb_bounce = 0\<rparr>,
                st\<lparr>st_pf := l_pf (snd R), st_re := l_re (snd R), st_met := l_met (snd R)\<rparr>)
       else if l_done (snd R) \<or> l_hitEnd (snd R) then Some (fm_exit st (snd R))
       else case fm_loop (qlength q + 1) env fw tw (fm_locs (snd R)) of
              None \<Rightarrow> None | Some l3 \<Rightarrow> Some (fm_exit st l3))"
    unfolding R_def l0(3) [symmetric]
    by (simp only: followMatches_def Let_def q_def [symmetric] fw_def [symmetric] dir option.case
          prod.case l0_def [symmetric] cong: if_cong)
  have "\<exists>x. followMatches env dsc st = Some x"
  proof (cases "fst R \<and> \<not> l_done (snd R) \<and> \<not> l_hitEnd (snd R)")
    case True
    with loop obtain l3 where "fm_loop (qlength q + 1) env fw tw (fm_locs (snd R)) = Some l3" by blast
    with True show ?thesis by (simp add: fm del: fm_loop.simps)
  next
    case False
    then show ?thesis by (auto simp add: fm simp del: fm_loop.simps)
  qed
  then obtain r st' where res: "followMatches env dsc st = Some (r, st')" by (cases) auto
  from followMatches_ret [OF dir [unfolded q_def fw_def] res]
  have "fm_ret r = (root dsc \<longrightarrow> fst (fm_root env (r_fw (env_rs env ! d_rid dsc)) tw (fm_start dsc0 st off5p)))" .
  with dir res show ?thesis unfolding q_def fw_def by blast
qed

section \<open>Properties of followBestOutgoing\<close>











section \<open>The claims\<close>

text \<open>
  Claim C1, as amended. Every edge emitted by \<open>recalcOutgoing\<close> respects the budget of
  its depth: its priority carries the cumulative penalty of the descent plus the cost
  of the edit, and that total is at most \<open>cons\<close> at the depth of the edge. The comparison
  of the cost with the budget left is not strict: at any read position a candidate of
  any kind whose total equals \<open>cons\<close> at the depth exactly is emitted, provided its cost
  is positive. (Edits are entertained only while \<open>cons[d] - pen > 0\<close>, so a candidate of
  cost zero at \<open>pen = cons[d]\<close> is not emitted.)
\<close>

theorem recalcOutgoing_budget:
  "(\<forall>k x. (k, x) \<in> set (fst (recalc_edges q sc re pf rs cs dsc)) \<longrightarrow>
      pri_pen (edge_pri x) = d_pen dsc + kind_cost q sc (r_fw (rs ! d_rid dsc)) (edge_off5p x) k \<and>
      pri_pen (edge_pri x) \<le> cf_cons (cs ! d_rid dsc) (pri_depth (edge_pri x))) \<and>
   (\<forall>k j. candidate q sc re rs cs dsc off5p off3p depth cur5pi cur5pf topd botd topp botp p k j \<and>
      0 < kind_cost q sc (r_fw (rs ! d_rid dsc)) off5p k \<and>
      d_pen dsc + kind_cost q sc (r_fw (rs ! d_rid dsc)) off5p k = cf_cons (cs ! d_rid dsc) depth \<longrightarrow>
      (\<exists>x. (k, x) \<in> set (fst (recalc_pos q sc re rs cs dsc off5p off3p depth d cur5pi cur5pf
                                  topd botd topp botp p)) \<and>
           pri_pen (edge_pri x) = cf_cons (cs ! d_rid dsc) depth \<and> pri_depth (edge_pri x) = depth))"
proof (intro conjI allI impI)
  fix k x
  assume "(k, x) \<in> set (fst (recalc_edges q sc re pf rs cs dsc))"
  from recalc_edges_mem [OF this]
  have f: "edge_fact q sc rs cs dsc (pfat pf (edge_posFlag x)) (k, x)" by simp
  from f show "pri_pen (edge_pri x) = d_pen dsc + kind_cost q sc (r_fw (rs ! d_rid dsc)) (edge_off5p x) k"
    by (simp add: edge_fact_def Let_def)
  from f show "pri_pen (edge_pri x) \<le> cf_cons (cs ! d_rid dsc) (pri_depth (edge_pri x))"
    by (simp add: edge_fact_def Let_def)
next
  fix k j
  assume "candidate q sc re rs cs dsc off5p off3p depth cur5pi cur5pf topd botd topp botp p k j \<and>
      0 < kind_cost q sc (r_fw (rs ! d_rid dsc)) off5p k \<and>
      d_pen dsc + kind_cost q sc (r_fw (rs ! d_rid dsc)) off5p k = cf_cons (cs ! d_rid dsc) depth"
  then show "\<exists>x. (k, x) \<in> set (fst (recalc_pos q sc re rs cs dsc off5p off3p depth d cur5pi cur5pf
                                  topd botd topp botp p)) \<and>
           pri_pen (edge_pri x) = cf_cons (cs ! d_rid dsc) depth \<and> pri_depth (edge_pri x) = depth"
    using recalc_pos_accepts by blast
qed

text \<open>
  On the read of A's the descent emits two mismatch edges, at depths 1 and 2, each of
  total penalty 3, the budget there.
\<close>

lemma ex_trace_kinds:
  "map fst (fst (recalc_edges ex_q ex_sc Map.empty [ex_p, ex_p, ex_p] ex_rs ex_cs ex_d)) = [K_MM, K_MM]"
  by (simp add: ex_defs recalc_defs recalc_loop.simps Let_def)

lemma ex_candidate:
  "candidate ex_q ex_sc Map.empty ex_rs ex_cs ex_d 1 2 1 0 1 30 32 10 12 ex_p K_MM 1"
  by (simp add: candidate_def kind_cost_def ex_defs recalc_defs Let_def)

theorem recalcOutgoing_budget_witness:
  "fst (hd (fst (recalc_edges ex_q ex_sc Map.empty [ex_p, ex_p, ex_p] ex_rs ex_cs ex_d))) = K_MM \<and>
   pri_pen (edge_pri (snd (hd (fst (recalc_edges ex_q ex_sc Map.empty [ex_p, ex_p, ex_p] ex_rs ex_cs ex_d)))))
     \<le> cf_cons (ex_cs ! 0) (pri_depth (edge_pri (snd (hd (fst (recalc_edges ex_q ex_sc Map.empty [ex_p, ex_p, ex_p] ex_rs ex_cs ex_d)))))) \<and>
   candidate ex_q ex_sc Map.empty ex_rs ex_cs ex_d 1 2 1 0 1 30 32 10 12 ex_p K_MM 1 \<and>
   0 < kind_cost ex_q ex_sc True 1 K_MM \<and>
   d_pen ex_d + kind_cost ex_q ex_sc True 1 K_MM = cf_cons (ex_cs ! 0) 1 \<and>
   (\<exists>x. (K_MM, x) \<in> set (fst (recalc_pos ex_q ex_sc Map.empty ex_rs ex_cs ex_d 1 2 1 1 0 1 30 32 10 12 ex_p)) \<and>
        pri_pen (edge_pri x) = 3)"
proof -
  let ?tr = "fst (recalc_edges ex_q ex_sc Map.empty [ex_p, ex_p, ex_p] ex_rs ex_cs ex_d)"
  have ne: "?tr \<noteq> []" using ex_trace_kinds by auto
  have k: "fst (hd ?tr) = K_MM" using ex_trace_kinds ne by (cases ?tr) auto
  have mem: "(K_MM, snd (hd ?tr)) \<in> set ?tr" using ne k by (cases ?tr) auto
  have rid: "d_rid ex_d = 0" "r_fw (ex_rs ! 0) = True" by (simp_all add: ex_defs descent_null_def)
  have c: "0 < kind_cost ex_q ex_sc True 1 K_MM"
          "d_pen ex_d + kind_cost ex_q ex_sc True 1 K_MM = cf_cons (ex_cs ! 0) 1"
          "cf_cons (ex_cs ! 0) 1 = 3"
    by (simp_all add: kind_cost_def ex_defs descent_null_def)
  note inst = recalcOutgoing_budget [of ex_q ex_sc Map.empty "[ex_p, ex_p, ex_p]" ex_rs ex_cs ex_d
                1 2 1 0 1 30 32 10 12 ex_p 1, unfolded rid]
  from inst [THEN conjunct1, rule_format, OF mem]
  have a: "pri_pen (edge_pri (snd (hd ?tr))) \<le> cf_cons (ex_cs ! 0) (pri_depth (edge_pri (snd (hd ?tr))))"
    by simp
  from inst [THEN conjunct2, rule_format, of K_MM 1] ex_candidate c
  have b: "\<exists>x. (K_MM, x) \<in> set (fst (recalc_pos ex_q ex_sc Map.empty ex_rs ex_cs ex_d 1 2 1 1 0 1 30 32 10 12 ex_p)) \<and>
        pri_pen (edge_pri x) = 3"
    by auto
  from k a b ex_candidate c show ?thesis by simp
qed

text \<open>
  Claim C1 as first stated fails where the cost is zero: on the read of N's, with N
  penalty 0 and \<open>cons[0] = 0 = pen\<close>, the mismatch towards C at depth 0 has total
  penalty \<open>cons[0]\<close> exactly and is not emitted; all edges lie at depths 1 and 2.
\<close>

theorem recalcOutgoing_budget_counterexample:
  "candidate ex_qn ex_sc Map.empty ex_rs ex_cs ex_d 0 3 0 0 0 0 0 0 0 ex_p K_MM 1 \<and>
   d_pen ex_d + kind_cost ex_qn ex_sc True 0 K_MM = cf_cons (ex_cs ! 0) 0 \<and>
   fst (recalc_pos ex_qn ex_sc Map.empty ex_rs ex_cs ex_d 0 3 0 0 0 0 0 0 0 0 ex_p) = [] \<and>
   map (\<lambda>kx. pri_depth (edge_pri (snd kx)))
     (fst (recalc_edges ex_qn ex_sc Map.empty [ex_p, ex_p, ex_p] ex_rs ex_cs ex_d)) = [1, 1, 2, 2]"
  by (simp add: candidate_def kind_cost_def ex_defs recalc_defs recalc_loop.simps Let_def)

text \<open>
  Claim C2, as amended. The redundancy check follows the first step of a root descent
  and every extension step that matched, with the key of the extended alignment and the
  penalty of the descent. After the first step of a root, a key already admitted at a
  penalty not above the current one makes the step, and with it \<open>followMatches\<close>, return
  false; otherwise the key is recorded. In the extension loop such a key stalls the
  extension at once: the round fails exactly when the check does, and a failed round
  advances neither the length nor the extremes nor the offset of the descent and sets
  no end flag. The stall does not make \<open>followMatches\<close> return false: for a descent
  whose extremes lie inside the read without covering it (and coincide, at a root)
  \<open>followMatches\<close> returns, and it returns false exactly for a root whose first step fails.
\<close>

theorem followMatches_redundancy:
  "(let l' = snd (fm_root env fw toward3p l0);
        ck = re_check (l_re l0) (fm_key fw l') (d_pen (l_dsc l0))
    in (\<not> fst ck \<longrightarrow> \<not> fst (fm_root env fw toward3p l0)) \<and>
       (fst (fm_root env fw toward3p l0) \<longrightarrow> l_re l' = snd ck)) \<and>
   (let l' = fm_iter env fw toward3p l;
        ck = re_check (l_re l) (fm_next_key fw toward3p (l_dsc l) (l_topf l') (l_botf l'))
               (d_pen (l_dsc l))
    in (\<not> fst (snd (fm_lf env fw l)) \<longrightarrow> l_fail l' = (\<not> fst ck) \<and> l_re l' = snd ck) \<and>
       (l_fail l' \<longrightarrow>
          d_len (l_dsc l') = d_len (l_dsc l) \<and> d_al5pi (l_dsc l') = d_al5pi (l_dsc l) \<and>
          d_al5pf (l_dsc l') = d_al5pf (l_dsc l) \<and> l_off5p l' = l_off5p l \<and>
          l_hitEnd l' = l_hitEnd l \<and> l_done l' = l_done l) \<and>
       (\<not> l_fail l' \<longrightarrow> d_len (l_dsc l') = d_len (l_dsc l) + 1)) \<and>
   (fm_direction (env_q env) (r_fw (env_rs env ! d_rid dsc)) dsc = Some (dsc0, tw, off5p) \<longrightarrow>
    followMatches env dsc st = Some (r, st') \<longrightarrow>
    fm_ret r =
      (root dsc \<longrightarrow> fst (fm_root env (r_fw (env_rs env ! d_rid dsc)) tw (fm_start dsc0 st off5p)))) \<and>
   (d_al5pi dsc \<le> d_al5pf dsc \<and> d_al5pf dsc < qlength (env_q env) \<and>
    \<not> (d_al5pi dsc = 0 \<and> d_al5pf dsc = size_sub (qlength (env_q env)) 1) \<and>
    (root dsc \<longrightarrow> d_al5pi dsc = d_al5pf dsc) \<longrightarrow>
    (\<exists>dsc1 tw1 off1 r1 st1.
       fm_direction (env_q env) (r_fw (env_rs env ! d_rid dsc)) dsc = Some (dsc1, tw1, off1) \<and>
       followMatches env dsc st = Some (r1, st1) \<and>
       fm_ret r1 =
         (root dsc \<longrightarrow> fst (fm_root env (r_fw (env_rs env ! d_rid dsc)) tw1 (fm_start dsc1 st off1)))))"
proof -
  note a = fm_root_check [of l0 fw env toward3p]
  note b = fm_iter_check [of env fw l toward3p]
  note c = fm_iter_stall [of env fw toward3p l] fm_iter_fields(1-4) [of env fw toward3p l]
  note d = followMatches_ret [of env dsc dsc0 tw off5p st r st']
  have 1: "let l' = snd (fm_root env fw toward3p l0);
        ck = re_check (l_re l0) (fm_key fw l') (d_pen (l_dsc l0))
    in (\<not> fst ck \<longrightarrow> \<not> fst (fm_root env fw toward3p l0)) \<and>
       (fst (fm_root env fw toward3p l0) \<longrightarrow> l_re l' = snd ck)"
    using a unfolding Let_def by blast
  have 2: "let l' = fm_iter env fw toward3p l;
        ck = re_check (l_re l) (fm_next_key fw toward3p (l_dsc l) (l_topf l') (l_botf l'))
               (d_pen (l_dsc l))
    in (\<not> fst (snd (fm_lf env fw l)) \<longrightarrow> l_fail l' = (\<not> fst ck) \<and> l_re l' = snd ck) \<and>
       (l_fail l' \<longrightarrow>
          d_len (l_dsc l') = d_len (l_dsc l) \<and> d_al5pi (l_dsc l') = d_al5pi (l_dsc l) \<and>
          d_al5pf (l_dsc l') = d_al5pf (l_dsc l) \<and> l_off5p l' = l_off5p l \<and>
          l_hitEnd l' = l_hitEnd l \<and> l_done l' = l_done l) \<and>
       (\<not> l_fail l' \<longrightarrow> d_len (l_dsc l') = d_len (l_dsc l) + 1)"
    unfolding Let_def
    apply (intro conjI impI)
    using b c by simp_all
  have 4: "d_al5pi dsc \<le> d_al5pf dsc \<and> d_al5pf dsc < qlength (env_q env) \<and>
    \<not> (d_al5pi dsc = 0 \<and> d_al5pf dsc = size_sub (qlength (env_q env)) 1) \<and>
    (root dsc \<longrightarrow> d_al5pi dsc = d_al5pf dsc) \<longrightarrow>
    (\<exists>dsc1 tw1 off1 r1 st1.
       fm_direction (env_q env) (r_fw (env_rs env ! d_rid dsc)) dsc = Some (dsc1, tw1, off1) \<and>
       followMatches env dsc st = Some (r1, st1) \<and>
       fm_ret r1 =
         (root dsc \<longrightarrow> fst (fm_root env (r_fw (env_rs env ! d_rid dsc)) tw1 (fm_start dsc1 st off1))))"
    using followMatches_total [of dsc env st] by blast
  from d have 3: "fm_direction (env_q env) (r_fw (env_rs env ! d_rid dsc)) dsc = Some (dsc0, tw, off5p) \<longrightarrow>
    followMatches env dsc st = Some (r, st') \<longrightarrow>
    fm_ret r =
      (root dsc \<longrightarrow> fst (fm_root env (r_fw (env_rs env ! d_rid dsc)) tw (fm_start dsc0 st off5p)))"
    by blast
  show ?thesis
    apply (rule conjI)
     apply (rule 1)
    apply (rule conjI)
     apply (rule 2)
    apply (rule conjI)
     apply (rule 3)
    apply (rule 4)
    done
qed


lemma ex_l1_val:
  "ex_l1 =
   \<lparr>l_dsc = (mk_root ex_rs 0 0)\<lparr>d_al5pf := 1, d_posid := 0, d_len := 2\<rparr>,
    l_pf = [pos_reset, pos_reset\<lparr>p_c := 0, p_topf := [5, 0, 0, 0], p_botf := [7, 0, 0, 0],
                                   p_topb := [5, 0, 0, 0], p_botb := [7, 0, 0, 0]\<rparr>],
    l_re = [(True, 0, 2, 3, 5, 7) \<mapsto> 0, (True, 0, 1, 2, 5, 7) \<mapsto> 0],
    l_met = \<lparr>bwops = 0, bwops_bi = 0, bwops_1 = 0\<rparr>, l_topf = 5, l_botf = 7, l_topb = 5,
    l_botb = 7, l_off5p = 2, l_tloc = Some 5, l_bloc = Some 7, l_firstPos = False,
    l_branches = False, l_hitEnd = False, l_done = False, l_fail = False\<rparr>"
  by (simp add: ex_l1_def ex_defs ex_defs3 ex_defs4 fm_defs fm_locs_def recalc_defs Let_def
        numeral_2_eq_2)

lemma ex_l1_lf: "\<not> fst (snd (fm_lf ex_env True ex_l1))"
  by (simp add: ex_l1_val fm_lf_def Let_def ex_env_def ex_ix_def ex_q_def mk_root_def rd_def)

lemma ex_l1_iter: "l_fail (fm_iter ex_env True True ex_l1)"
  by (simp add: ex_l1_val fm_iter_def fm_lf_def fm_next_key_def Let_def ex_env_def ex_ix_def ex_q_def
        mk_root_def rd_def re_check_def re_contains_def ref_span_def alloc_def ex_rs_def)

lemma ex_fm_red:
  "map_option (\<lambda>r. (fm_ret (fst r), d_al5pi (fm_dsc (fst r)), d_al5pf (fm_dsc (fst r)),
                     d_len (fm_dsc (fst r)), fm_hitEnd (fst r), length (st_pf (snd r))))
     (followMatches ex_env (mk_root ex_rs 0 0) ex_st_red) = Some (True, 0, 1, 2, False, 3)"
  by (simp add: ex_defs ex_defs3 ex_defs4 fm_defs fm_locs_def recalc_defs Let_def fm_loop_numeral)

lemma ex_fm_fresh:
  "map_option (\<lambda>r. (fm_ret (fst r), d_al5pi (fm_dsc (fst r)), d_al5pf (fm_dsc (fst r)),
                     d_len (fm_dsc (fst r)), fm_hitEnd (fst r), length (st_pf (snd r))))
     (followMatches ex_env (mk_root ex_rs 0 0) ex_st) = Some (True, 0, 3, 4, True, 4)"
  by (simp add: ex_defs ex_defs3 ex_defs4 fm_defs fm_locs_def recalc_defs Let_def fm_loop_numeral)

lemma ex_l1_key:
  "fm_next_key True True (l_dsc ex_l1) (l_topf (fm_iter ex_env True True ex_l1))
     (l_botf (fm_iter ex_env True True ex_l1)) = (True, 0, 2, 3, 5, 7)"
  by (simp add: ex_l1_val fm_iter_def fm_lf_def fm_next_key_def Let_def ex_env_def ex_ix_def ex_q_def
        mk_root_def rd_def ref_span_def ex_rs_def)

lemma ex_l0_root: "fst (fm_root ex_env True True ex_l0)"
  by (simp add: ex_defs ex_defs3 ex_defs4 fm_defs recalc_defs Let_def)

lemma ex_direction:
  "fm_direction (env_q ex_env) (r_fw (env_rs ex_env ! d_rid (mk_root ex_rs 0 0))) (mk_root ex_rs 0 0) =
     Some (mk_root ex_rs 0 0, True, 0)"
  by (simp add: ex_defs ex_defs3 fm_defs recalc_defs Let_def)

theorem followMatches_redundancy_witness:
  "fst (fm_root ex_env True True ex_l0) \<and>
   l_re (snd (fm_root ex_env True True ex_l0)) =
     snd (re_check (l_re ex_l0) (fm_key True (snd (fm_root ex_env True True ex_l0))) (d_pen (l_dsc ex_l0))) \<and>
   \<not> fst (snd (fm_lf ex_env True ex_l1)) \<and>
   \<not> fst (re_check (l_re ex_l1)
           (fm_next_key True True (l_dsc ex_l1) (l_topf (fm_iter ex_env True True ex_l1))
              (l_botf (fm_iter ex_env True True ex_l1))) (d_pen (l_dsc ex_l1))) \<and>
   l_fail (fm_iter ex_env True True ex_l1) \<and>
   d_len (l_dsc (fm_iter ex_env True True ex_l1)) = d_len (l_dsc ex_l1) \<and>
   d_al5pf (l_dsc (fm_iter ex_env True True ex_l1)) = d_al5pf (l_dsc ex_l1) \<and>
   l_off5p (fm_iter ex_env True True ex_l1) = l_off5p ex_l1 \<and>
   root (mk_root ex_rs 0 0) \<and>
   list_all id [d_al5pi (mk_root ex_rs 0 0) \<le> d_al5pf (mk_root ex_rs 0 0),
      d_al5pf (mk_root ex_rs 0 0) < qlength (env_q ex_env),
      \<not> (d_al5pi (mk_root ex_rs 0 0) = 0 \<and> d_al5pf (mk_root ex_rs 0 0) = size_sub (qlength (env_q ex_env)) 1),
      d_al5pi (mk_root ex_rs 0 0) = d_al5pf (mk_root ex_rs 0 0)] \<and>
   (\<exists>r st'. followMatches ex_env (mk_root ex_rs 0 0) ex_st_red = Some (r, st') \<and> fm_ret r)"
proof -
  obtain r st' where eq: "followMatches ex_env (mk_root ex_rs 0 0) ex_st_red = Some (r, st')"
    using ex_fm_red by (cases "followMatches ex_env (mk_root ex_rs 0 0) ex_st_red") auto
  note inst = followMatches_redundancy [where env = ex_env and fw = True and toward3p = True
      and ?l0.0 = ex_l0 and l = ex_l1 and dsc = "mk_root ex_rs 0 0" and ?dsc0.0 = "mk_root ex_rs 0 0"
      and tw = True and ?off5p.0 = 0 and st = ex_st_red and r = r and st' = st']
  have fw: "r_fw (env_rs ex_env ! d_rid (mk_root ex_rs 0 0)) = True"
    by (simp add: ex_env_def ex_rs_def mk_root_def)
  have rt: "root (mk_root ex_rs 0 0)" by (simp add: root_def mk_root_def)
  have l0: "fm_start (mk_root ex_rs 0 0) ex_st_red 0 = ex_l0" by (simp add: ex_l0_def)
  from inst [THEN conjunct1] ex_l0_root
  have a: "l_re (snd (fm_root ex_env True True ex_l0)) =
     snd (re_check (l_re ex_l0) (fm_key True (snd (fm_root ex_env True True ex_l0))) (d_pen (l_dsc ex_l0)))"
    by (simp add: Let_def)
  from inst [THEN conjunct2, THEN conjunct1] ex_l1_lf ex_l1_iter
  have b: "\<not> fst (re_check (l_re ex_l1)
           (fm_next_key True True (l_dsc ex_l1) (l_topf (fm_iter ex_env True True ex_l1))
              (l_botf (fm_iter ex_env True True ex_l1))) (d_pen (l_dsc ex_l1)))"
    and c: "d_len (l_dsc (fm_iter ex_env True True ex_l1)) = d_len (l_dsc ex_l1)"
      "d_al5pf (l_dsc (fm_iter ex_env True True ex_l1)) = d_al5pf (l_dsc ex_l1)"
      "l_off5p (fm_iter ex_env True True ex_l1) = l_off5p ex_l1"
    by (simp_all add: Let_def)
  from inst [THEN conjunct2, THEN conjunct2, THEN conjunct1] ex_direction eq ex_l0_root
  have d: "fm_ret r" by (simp add: fw l0)
  have pre: "d_al5pi (mk_root ex_rs 0 0) \<le> d_al5pf (mk_root ex_rs 0 0) \<and>
      d_al5pf (mk_root ex_rs 0 0) < qlength (env_q ex_env) \<and>
      \<not> (d_al5pi (mk_root ex_rs 0 0) = 0 \<and> d_al5pf (mk_root ex_rs 0 0) = size_sub (qlength (env_q ex_env)) 1) \<and>
      (root (mk_root ex_rs 0 0) \<longrightarrow> d_al5pi (mk_root ex_rs 0 0) = d_al5pf (mk_root ex_rs 0 0))"
    by (simp add: mk_root_def ex_rs_def ex_env_def ex_q_def qlength_def size_sub_def)
  from inst [THEN conjunct2, THEN conjunct2, THEN conjunct2] pre
  obtain dsc1 tw1 off1 r1 st1 where
    t: "fm_direction (env_q ex_env) (r_fw (env_rs ex_env ! d_rid (mk_root ex_rs 0 0))) (mk_root ex_rs 0 0)
          = Some (dsc1, tw1, off1)"
       "followMatches ex_env (mk_root ex_rs 0 0) ex_st_red = Some (r1, st1)"
       "fm_ret r1 = (root (mk_root ex_rs 0 0) \<longrightarrow>
          fst (fm_root ex_env (r_fw (env_rs ex_env ! d_rid (mk_root ex_rs 0 0))) tw1
                 (fm_start dsc1 ex_st_red off1)))"
    by blast
  from t(1) ex_direction have "dsc1 = mk_root ex_rs 0 0" "tw1 = True" "off1 = 0" by simp_all
  with t(3) rt ex_l0_root have "fm_ret r1" by (simp add: fw l0)
  with t(2) have f: "\<exists>r st'. followMatches ex_env (mk_root ex_rs 0 0) ex_st_red = Some (r, st') \<and> fm_ret r"
    by blast
  from pre have e: "list_all id [d_al5pi (mk_root ex_rs 0 0) \<le> d_al5pf (mk_root ex_rs 0 0),
      d_al5pf (mk_root ex_rs 0 0) < qlength (env_q ex_env),
      \<not> (d_al5pi (mk_root ex_rs 0 0) = 0 \<and> d_al5pf (mk_root ex_rs 0 0) = size_sub (qlength (env_q ex_env)) 1),
      d_al5pi (mk_root ex_rs 0 0) = d_al5pf (mk_root ex_rs 0 0)]"
    using rt by auto
  from ex_l0_root a ex_l1_lf b ex_l1_iter c rt e f show ?thesis by blast
qed

text \<open>
  Claim C2 as first stated fails: with the key of the third character already admitted,
  the third character matches, the check fails and the round stalls, yet \<open>followMatches\<close>
  returns true, with two characters aligned and three position records allocated. With
  a fresh filter the same call aligns all four characters.
\<close>

theorem followMatches_redundancy_counterexample:
  "re_contains (st_re ex_st_red) (True, 0, 2, 3, 5, 7) 0 \<and>
   \<not> fst (snd (fm_lf ex_env True ex_l1)) \<and>
   fm_next_key True True (l_dsc ex_l1) (l_topf (fm_iter ex_env True True ex_l1))
     (l_botf (fm_iter ex_env True True ex_l1)) = (True, 0, 2, 3, 5, 7) \<and>
   l_fail (fm_iter ex_env True True ex_l1) \<and>
   map_option (\<lambda>r. (fm_ret (fst r), d_al5pi (fm_dsc (fst r)), d_al5pf (fm_dsc (fst r)),
                     d_len (fm_dsc (fst r)), fm_hitEnd (fst r), length (st_pf (snd r))))
     (followMatches ex_env (mk_root ex_rs 0 0) ex_st_red) = Some (True, 0, 1, 2, False, 3) \<and>
   map_option (\<lambda>r. (fm_ret (fst r), d_al5pi (fm_dsc (fst r)), d_al5pf (fm_dsc (fst r)),
                     d_len (fm_dsc (fst r)), fm_hitEnd (fst r), length (st_pf (snd r))))
     (followMatches ex_env (mk_root ex_rs 0 0) ex_st) = Some (True, 0, 3, 4, True, 4)"
proof -
  have "re_contains (st_re ex_st_red) (True, 0, 2, 3, 5, 7) 0"
    by (simp add: ex_st_red_def ex_st_def re_contains_def)
  with ex_l1_lf ex_l1_key ex_l1_iter ex_fm_red ex_fm_fresh show ?thesis by blast
qed

text \<open>
  Claim C3, as amended. The no-branch depth 20 restricts nothing but the ftab shortcut:
  the first step of a root descent consumes no character, one character, or
  \<open>ftabChars\<close> characters, the last only when \<open>ftabChars \<le> 20\<close>. Branching is governed
  by the consistency function alone: an edge at depth \<open>d\<close> is emitted only if
  \<open>cons[d] > pen\<close>, so within the first 20 characters no edge is emitted where \<open>cons\<close>
  leaves no budget.
\<close>

theorem no_branch_depth:
  "(\<forall>k x. (k, x) \<in> set (fst (recalc_edges q sc re pf rs cs dsc)) \<longrightarrow>
      d_pen dsc < cf_cons (cs ! d_rid dsc) (pri_depth (edge_pri x))) \<and>
   ((\<forall>dd<nobranchDepth. cf_cons (cs ! d_rid dsc) dd \<le> d_pen dsc) \<longrightarrow>
      (\<forall>k x. (k, x) \<in> set (fst (recalc_edges q sc re pf rs cs dsc)) \<longrightarrow>
         nobranchDepth \<le> pri_depth (edge_pri x))) \<and>
   (d_len (l_dsc (snd (fm_root env fw toward3p l))) = d_len (l_dsc l) \<or>
    d_len (l_dsc (snd (fm_root env fw toward3p l))) = d_len (l_dsc l) + 1 \<or>
    (d_len (l_dsc (snd (fm_root env fw toward3p l))) = d_len (l_dsc l) + ftabChars (env_fw env) \<and>
     ftabChars (env_fw env) \<le> nobranchDepth))"
proof -
  have a: "d_pen dsc < cf_cons (cs ! d_rid dsc) (pri_depth (edge_pri x))"
    if "(k, x) \<in> set (fst (recalc_edges q sc re pf rs cs dsc))" for k x
    using recalc_edges_mem [OF that] by (simp add: edge_fact_def Let_def)
  have b: "nobranchDepth \<le> pri_depth (edge_pri x)"
    if "\<forall>dd<nobranchDepth. cf_cons (cs ! d_rid dsc) dd \<le> d_pen dsc"
       "(k, x) \<in> set (fst (recalc_edges q sc re pf rs cs dsc))" for k x
  proof (rule ccontr)
    assume "\<not> nobranchDepth \<le> pri_depth (edge_pri x)"
    with that(1) have "cf_cons (cs ! d_rid dsc) (pri_depth (edge_pri x)) \<le> d_pen dsc" by simp
    with a [OF that(2)] show False by simp
  qed
  from a b fm_root_len show ?thesis by blast
qed

lemma ex_trace20:
  "map (\<lambda>kx. (fst kx, pri_depth (edge_pri (snd kx))))
     (fst (recalc_edges ex_q30 ex_sc Map.empty [ex_p, ex_p, ex_p] ex_rs ex_cs20 ex_d20))
   = [(K_MM, 20), (K_MM, 21), (K_MM, 22)]"
  by (simp add: ex_defs ex_defs2 recalc_defs recalc_loop.simps Let_def)

theorem no_branch_depth_witness:
  "fst (hd (fst (recalc_edges ex_q30 ex_sc Map.empty [ex_p, ex_p, ex_p] ex_rs ex_cs20 ex_d20))) = K_MM \<and>
   list_all (\<lambda>dd. cf_cons (ex_cs20 ! d_rid ex_d20) dd \<le> d_pen ex_d20) [0..<nobranchDepth] \<and>
   d_pen ex_d20 < cf_cons (ex_cs20 ! d_rid ex_d20)
      (pri_depth (edge_pri (snd (hd (fst (recalc_edges ex_q30 ex_sc Map.empty [ex_p, ex_p, ex_p] ex_rs ex_cs20 ex_d20)))))) \<and>
   nobranchDepth \<le> pri_depth (edge_pri (snd (hd (fst (recalc_edges ex_q30 ex_sc Map.empty [ex_p, ex_p, ex_p] ex_rs ex_cs20 ex_d20)))))"
proof -
  let ?tr = "fst (recalc_edges ex_q30 ex_sc Map.empty [ex_p, ex_p, ex_p] ex_rs ex_cs20 ex_d20)"
  have ne: "?tr \<noteq> []" using ex_trace20 by auto
  have k: "fst (hd ?tr) = K_MM" using ex_trace20 ne by (cases ?tr) auto
  have mem: "(K_MM, snd (hd ?tr)) \<in> set ?tr" using ne k by (cases ?tr) auto
  have h: "\<forall>dd<nobranchDepth. cf_cons (ex_cs20 ! d_rid ex_d20) dd \<le> d_pen ex_d20"
    by (simp add: ex_defs2 nobranchDepth_def descent_null_def)
  then have h': "list_all (\<lambda>dd. cf_cons (ex_cs20 ! d_rid ex_d20) dd \<le> d_pen ex_d20) [0..<nobranchDepth]"
    by (simp add: list_all_iff)
  note inst = no_branch_depth [of ex_q30 ex_sc Map.empty "[ex_p, ex_p, ex_p]" ex_rs ex_cs20 ex_d20]
  from inst [THEN conjunct1, rule_format, OF mem]
  have a: "d_pen ex_d20 < cf_cons (ex_cs20 ! d_rid ex_d20) (pri_depth (edge_pri (snd (hd ?tr))))" .
  from inst [THEN conjunct2, THEN conjunct1] h mem
  have b: "nobranchDepth \<le> pri_depth (edge_pri (snd (hd ?tr)))" by blast
  from k h' a b show ?thesis by simp
qed

text \<open>
  Claim C3 as first stated fails: with a budget of 3 from depth 1 on, the descent from
  a root at offset 0 emits mismatch edges at depths 1 and 2, well within the first 20
  characters.
\<close>

theorem no_branch_depth_counterexample:
  "map (\<lambda>kx. (fst kx, pri_depth (edge_pri (snd kx)), e_type (edge_e (snd kx))))
     (fst (recalc_edges ex_q ex_sc Map.empty [ex_p, ex_p, ex_p] ex_rs ex_cs ex_d))
     = [(K_MM, 1, EDIT_TYPE_MM), (K_MM, 2, EDIT_TYPE_MM)] \<and>
   (2::nat) < nobranchDepth \<and>
   root (ex_d\<lparr>d_parent := SIZE_MAX\<rparr>)"
  by (simp add: ex_defs recalc_defs recalc_loop.simps Let_def nobranchDepth_def root_def)

text \<open>
  Claim C5, as amended. When the first step of a root descent succeeds, it is the ftab
  jump exactly when the ftab width \<open>F\<close> satisfies \<open>1 < F\<close>, \<open>F \<le> 20\<close> and the window fits on
  the side of the extension: toward the 3' end \<open>off5p + F \<le> length\<close>, so the window may
  start at the 5' end and may reach the 3' end; toward the 5' end \<open>F \<le> off5p\<close>, so the
  window stays one position away from the 5' end. The jump consumes \<open>F\<close> characters,
  allocates \<open>F\<close> position records and takes its range from the ftab; otherwise the
  step consumes one character and takes its range from fchr.
\<close>

theorem ftab_shortcut:
  assumes "fst (fm_root env fw toward3p l)"
  shows "let F = ftabChars (env_fw env);
             off5p = l_off5p l;
             l' = snd (fm_root env fw toward3p l);
             taken = (1 < F \<and> F \<le> 20 \<and>
                      (if toward3p then off5p + F \<le> qlength (env_q env) else F \<le> off5p));
             w = (if taken then F else 1)
         in d_len (l_dsc l') = d_len (l_dsc l) + w \<and>
            length (l_pf l') = length (l_pf l) + w \<and>
            l_off5p l' = (if toward3p then off5p + w else size_sub off5p w) \<and>
            (l_topf l', l_botf l') =
              (if taken then
                 ftabLoHi (env_fw env) (if fw then q_seq (env_q env) else q_seqrc (env_q env))
                   (let off0 = (if fw then off5p else size_sub (size_sub (qlength (env_q env)) off5p) 1)
                    in if d_l2r (l_dsc l) then off0 else size_sub off0 (F - 1)) False
               else (sq (fchr (env_fw env)) (nat (q_getc (env_q env) off5p fw)),
                     sq (fchr (env_fw env)) (nat (q_getc (env_q env) off5p fw + 1))))"
  using assms
proof (cases rule: fm_root_success)
  case (ftab l1)
  from ftab(1-3) have tk: "(1 < ftabChars (env_fw env) \<and> ftabChars (env_fw env) \<le> 20 \<and>
     (if toward3p then l_off5p l + ftabChars (env_fw env) \<le> qlength (env_q env)
      else ftabChars (env_fw env) \<le> l_off5p l)) = True"
    by (simp add: ftabFits_iff nobranchDepth_def)
  show ?thesis
    apply (simp only: Let_def ftab(6))
    apply (simp only: tk if_True)
    using fm_ftab_len [OF ftab(4)] fm_ftab_fields(1-3) [OF ftab(4)]
    apply (simp add: Let_def)
    done
next
  case (fchr l1)
  from fchr(1) have tk: "(1 < ftabChars (env_fw env) \<and> ftabChars (env_fw env) \<le> 20 \<and>
     (if toward3p then l_off5p l + ftabChars (env_fw env) \<le> qlength (env_q env)
      else ftabChars (env_fw env) \<le> l_off5p l)) = False"
    by (simp add: ftabFits_iff nobranchDepth_def)
  show ?thesis
    apply (simp only: Let_def fchr(4))
    apply (simp only: tk if_False)
    using fm_fchr_len [OF fchr(2)] fm_fchr_fields(1-4) [OF fchr(2)]
    apply simp
    done
qed


lemma ex_root_ok: "fst (fm_root ex_env True True (fm_start (mk_root ex_rs 0 0) ex_st 0))"
  by (simp add: ex_defs ex_defs3 fm_defs recalc_defs Let_def)

lemma ex_root_fb: "fst (fm_root ex_env True False (fm_start (mk_root ex_rs5 0 0) ex_st 1))"
  by (simp add: ex_defs ex_defs3 ex_rs5_def fm_defs recalc_defs Let_def)

theorem ftab_shortcut_witness:
  "fst (fm_root ex_env True True (fm_start (mk_root ex_rs 0 0) ex_st 0)) \<and>
   (let l' = snd (fm_root ex_env True True (fm_start (mk_root ex_rs 0 0) ex_st 0))
    in d_len (l_dsc l') = 2 \<and> length (l_pf l') = 2 \<and> l_off5p l' = 2 \<and>
       (l_topf l', l_botf l') = (5, 7)) \<and>
   fst (fm_root ex_env True False (fm_start (mk_root ex_rs5 0 0) ex_st 1)) \<and>
   (let l' = snd (fm_root ex_env True False (fm_start (mk_root ex_rs5 0 0) ex_st 1))
    in d_len (l_dsc l') = 1 \<and> length (l_pf l') = 1 \<and> l_off5p l' = 0 \<and>
       (l_topf l', l_botf l') = (0, 10))"
  using ftab_shortcut [OF ex_root_ok] ex_root_ok ftab_shortcut [OF ex_root_fb] ex_root_fb
  by (simp add: Let_def ex_defs ex_defs3 ex_rs5_def fm_start_def mk_root_def qlength_def size_sub_def
        sq_def)

text \<open>
  Claim C5 as first stated fails: for a read of two characters and a root at offset 0
  the window of the two-character ftab touches both ends of the read, and the shortcut
  is taken.
\<close>

theorem ftab_shortcut_counterexample:
  "(let l = fm_start (mk_root ex_rs 0 0) ex_st 0;
        l' = snd (fm_root ex_env2 True True l)
    in l_off5p l = 0 \<and> l_off5p l + ftabChars (env_fw ex_env2) = qlength (env_q ex_env2) \<and>
       fst (fm_root ex_env2 True True l) \<and>
       d_len (l_dsc l') = d_len (l_dsc l) + ftabChars (env_fw ex_env2) \<and>
       length (l_pf l') = length (l_pf l) + ftabChars (env_fw ex_env2) \<and>
       (l_topf l', l_botf l') = ftabLoHi (env_fw ex_env2) (q_seq (env_q ex_env2)) 0 False \<and>
       l_topf l' \<noteq> sq (fchr (env_fw ex_env2)) (nat (q_getc (env_q ex_env2) 0 True)))"
  by (simp add: ex_defs ex_defs3 fm_defs recalc_defs Let_def)

text \<open>
  Claim C6. An edge that opens a gap (a read gap or a reference gap) is emitted at a
  read position only if the test \<open>allmatch\<close> of the source fails there, that is, the total
  width of the four ranges differs from the width under the read character. Where the
  ranges of the position are well formed (no range ends below its start) and the read
  character is one of the four bases, this means that some base other than the read's
  has mass there. The position lies at least \<open>gapbar\<close> from the 5' end and, where the
  descent starts inside the read, at least \<open>gapbar\<close> from the 3' end. The mismatch edges
  do not depend on \<open>gapbar\<close>: under the same budget they are the same whatever \<open>gapbar\<close>
  is.
\<close>

theorem recalcOutgoing_gap_open:
  "(\<forall>k x. (k, x) \<in> set (fst (recalc_edges q sc re pf rs cs dsc)) \<and> (k = K_RDG_OP \<or> k = K_RFG_OP) \<longrightarrow>
      (let c = fst (q_get q (edge_off5p x) (r_fw (rs ! d_rid dsc)));
           t = tbl_t dsc (pfat pf (edge_posFlag x));
           b = tbl_b dsc (pfat pf (edge_posFlag x))
       in \<not> allmatch t b c \<and>
          (0 \<le> c \<and> c \<le> 3 \<and> (\<forall>j<4. rd t j \<le> rd b j) \<longrightarrow>
             (\<exists>j\<in>{0, 1, 2, 3::nat}. int j \<noteq> c \<and> rd t j < rd b j))) \<and>
      sc_gapbar sc \<le> edge_off5p x \<and>
      (d_off5p_i dsc < qlength q \<longrightarrow> edge_off5p x + sc_gapbar sc < qlength q)) \<and>
   filter is_mm (fst (recalc_edges q (sc\<lparr>sc_gapbar := g\<rparr>) re pf rs cs dsc))
     = filter is_mm (fst (recalc_edges q sc re pf rs cs dsc))"
proof (intro conjI allI impI)
  fix k x
  assume a: "(k, x) \<in> set (fst (recalc_edges q sc re pf rs cs dsc)) \<and> (k = K_RDG_OP \<or> k = K_RFG_OP)"
  then have k: "k \<noteq> K_MM" "k = K_RDG_OP \<or> k = K_RFG_OP" by auto
  from a recalc_edges_mem [of "(k, x)" q sc re pf rs cs dsc]
  have f: "edge_fact q sc rs cs dsc (pfat pf (edge_posFlag x)) (k, x)"
    and g3: "d_off5p_i dsc < qlength q \<longrightarrow> edge_off5p x + sc_gapbar sc < qlength q"
    using k by auto
  define c where "c = fst (q_get q (edge_off5p x) (r_fw (rs ! d_rid dsc)))"
  define t where "t = tbl_t dsc (pfat pf (edge_posFlag x))"
  define b where "b = tbl_b dsc (pfat pf (edge_posFlag x))"
  from f k have na: "\<not> allmatch t b c"
    by (simp add: edge_fact_def Let_def c_def t_def b_def)
  have mass: "\<exists>j\<in>{0, 1, 2, 3::nat}. int j \<noteq> c \<and> rd t j < rd b j"
    if "0 \<le> c \<and> c \<le> 3 \<and> (\<forall>j<4. rd t j \<le> rd b j)"
    using not_allmatch [OF na] that by blast
  from na mass
  show "let c = fst (q_get q (edge_off5p x) (r_fw (rs ! d_rid dsc)));
            t = tbl_t dsc (pfat pf (edge_posFlag x));
            b = tbl_b dsc (pfat pf (edge_posFlag x))
        in \<not> allmatch t b c \<and>
           (0 \<le> c \<and> c \<le> 3 \<and> (\<forall>j<4. rd t j \<le> rd b j) \<longrightarrow>
              (\<exists>j\<in>{0, 1, 2, 3::nat}. int j \<noteq> c \<and> rd t j < rd b j))"
    unfolding Let_def c_def t_def b_def by blast
  from f k show "sc_gapbar sc \<le> edge_off5p x" by (simp add: edge_fact_def Let_def)
  from g3 show "d_off5p_i dsc < qlength q \<Longrightarrow> edge_off5p x + sc_gapbar sc < qlength q" by simp
next
  show "filter is_mm (fst (recalc_edges q (sc\<lparr>sc_gapbar := g\<rparr>) re pf rs cs dsc))
     = filter is_mm (fst (recalc_edges q sc re pf rs cs dsc))"
    by (rule recalc_edges_mm_gapbar)
qed

text \<open>
  On the read of A's, with a budget of 5 everywhere, gaps are opened at offsets 1 and
  2, where C has mass beside A, and not at offset 0, which is nearer to the 5' end than
  \<open>gapbar\<close>.
\<close>

lemma ex_gap_trace:
  "map (\<lambda>kx. (fst kx, edge_off5p (snd kx), edge_posFlag (snd kx)))
     (fst (recalc_edges ex_q ex_sc Map.empty [ex_p, ex_p, ex_p] ex_rs ex_cs5 ex_d))
   = [(K_MM, 0, 0), (K_MM, 1, 1), (K_RDG_OP, 1, 1), (K_RDG_OP, 1, 1), (K_RFG_OP, 1, 1),
      (K_MM, 2, 2), (K_RDG_OP, 2, 2), (K_RDG_OP, 2, 2), (K_RFG_OP, 2, 2)]"
  by (simp add: ex_defs ex_defs2 recalc_defs recalc_loop.simps Let_def)

lemma ex_p_wf:
  "\<forall>j<4. rd (tbl_t ex_d (pfat [ex_p, ex_p, ex_p] 1)) j \<le> rd (tbl_b ex_d (pfat [ex_p, ex_p, ex_p] 1)) j"
proof (intro allI impI)
  fix j :: nat
  assume "j < 4"
  then consider "j = 0" | "j = 1" | "j = 2" | "j = 3" by linarith
  then show "rd (tbl_t ex_d (pfat [ex_p, ex_p, ex_p] 1)) j \<le> rd (tbl_b ex_d (pfat [ex_p, ex_p, ex_p] 1)) j"
    by cases (simp_all add: ex_defs recalc_defs)
qed

theorem recalcOutgoing_gap_open_witness:
  "fst (fst (recalc_edges ex_q ex_sc Map.empty [ex_p, ex_p, ex_p] ex_rs ex_cs5 ex_d) ! 2) = K_RDG_OP \<and>
   d_off5p_i ex_d < qlength ex_q \<and>
   fst (q_get ex_q 1 (r_fw (ex_rs ! d_rid ex_d))) = 0 \<and>
   list_all (\<lambda>j. rd (tbl_t ex_d (pfat [ex_p, ex_p, ex_p] 1)) j \<le> rd (tbl_b ex_d (pfat [ex_p, ex_p, ex_p] 1)) j)
      [0, 1, 2, 3] \<and>
   \<not> allmatch (tbl_t ex_d (pfat [ex_p, ex_p, ex_p] 1)) (tbl_b ex_d (pfat [ex_p, ex_p, ex_p] 1)) 0 \<and>
   (\<exists>j\<in>{0, 1, 2, 3::nat}. int j \<noteq> 0 \<and>
      rd (tbl_t ex_d (pfat [ex_p, ex_p, ex_p] 1)) j < rd (tbl_b ex_d (pfat [ex_p, ex_p, ex_p] 1)) j) \<and>
   sc_gapbar ex_sc \<le> edge_off5p (snd (fst (recalc_edges ex_q ex_sc Map.empty [ex_p, ex_p, ex_p] ex_rs ex_cs5 ex_d) ! 2)) \<and>
   edge_off5p (snd (fst (recalc_edges ex_q ex_sc Map.empty [ex_p, ex_p, ex_p] ex_rs ex_cs5 ex_d) ! 2))
     + sc_gapbar ex_sc < qlength ex_q \<and>
   length (filter is_mm (fst (recalc_edges ex_q (ex_sc\<lparr>sc_gapbar := 3\<rparr>) Map.empty [ex_p, ex_p, ex_p] ex_rs ex_cs5 ex_d))) = 3"
proof -
  let ?tr = "fst (recalc_edges ex_q ex_sc Map.empty [ex_p, ex_p, ex_p] ex_rs ex_cs5 ex_d)"
  let ?t = "tbl_t ex_d (pfat [ex_p, ex_p, ex_p] 1)"
  let ?b = "tbl_b ex_d (pfat [ex_p, ex_p, ex_p] 1)"
  have len: "length ?tr = 9" using ex_gap_trace [THEN arg_cong, of length] by simp
  have k: "fst (?tr ! 2) = K_RDG_OP"
    using ex_gap_trace [THEN arg_cong, of "\<lambda>xs. fst (xs ! 2)"] len by simp
  have off: "edge_off5p (snd (?tr ! 2)) = 1"
    using ex_gap_trace [THEN arg_cong, of "\<lambda>xs. fst (snd (xs ! 2))"] len by simp
  have pos: "edge_posFlag (snd (?tr ! 2)) = 1"
    using ex_gap_trace [THEN arg_cong, of "\<lambda>xs. snd (snd (xs ! 2))"] len by simp
  have "2 < length ?tr" using len by simp
  then have "(fst (?tr ! 2), snd (?tr ! 2)) \<in> set ?tr" by simp
  then have mem: "(K_RDG_OP, snd (?tr ! 2)) \<in> set ?tr" by (simp only: k)
  have q: "d_off5p_i ex_d < qlength ex_q" by (simp add: ex_defs qlength_def descent_null_def)
  have c: "fst (q_get ex_q 1 (r_fw (ex_rs ! d_rid ex_d))) = 0" by (simp add: ex_defs)
  have wf': "list_all (\<lambda>j. rd ?t j \<le> rd ?b j) [0, 1, 2, 3]"
    by (simp add: ex_defs recalc_defs)
  have ismm: "is_mm = (\<lambda>y. fst y = K_MM)" by (simp add: is_mm_def fun_eq_iff)
  have mm: "length (filter is_mm ?tr) = 3"
    using ex_gap_trace [THEN arg_cong, of "\<lambda>xs. length (filter (\<lambda>y. fst y = K_MM) xs)"]
    by (simp add: ismm filter_map comp_def)
  note inst = recalcOutgoing_gap_open [of ex_q ex_sc Map.empty "[ex_p, ex_p, ex_p]" ex_rs ex_cs5 ex_d 3]
  from inst [THEN conjunct1] mem
  have e: "(let c = fst (q_get ex_q (edge_off5p (snd (?tr ! 2))) (r_fw (ex_rs ! d_rid ex_d)));
           t = tbl_t ex_d (pfat [ex_p, ex_p, ex_p] (edge_posFlag (snd (?tr ! 2))));
           b = tbl_b ex_d (pfat [ex_p, ex_p, ex_p] (edge_posFlag (snd (?tr ! 2))))
       in \<not> allmatch t b c \<and>
          (0 \<le> c \<and> c \<le> 3 \<and> (\<forall>j<4. rd t j \<le> rd b j) \<longrightarrow>
             (\<exists>j\<in>{0, 1, 2, 3::nat}. int j \<noteq> c \<and> rd t j < rd b j))) \<and>
      sc_gapbar ex_sc \<le> edge_off5p (snd (?tr ! 2)) \<and>
      (d_off5p_i ex_d < qlength ex_q \<longrightarrow> edge_off5p (snd (?tr ! 2)) + sc_gapbar ex_sc < qlength ex_q)"
    by blast
  from e [unfolded off pos Let_def c] have na: "\<not> allmatch ?t ?b 0"
    and imp: "(\<forall>j<4. rd ?t j \<le> rd ?b j) \<longrightarrow> (\<exists>j\<in>{0, 1, 2, 3::nat}. int j \<noteq> 0 \<and> rd ?t j < rd ?b j)"
    by simp_all
  from imp ex_p_wf have mass: "\<exists>j\<in>{0, 1, 2, 3::nat}. int j \<noteq> 0 \<and> rd ?t j < rd ?b j" by blast
  from e q have gb: "sc_gapbar ex_sc \<le> edge_off5p (snd (?tr ! 2))"
       "edge_off5p (snd (?tr ! 2)) + sc_gapbar ex_sc < qlength ex_q"
    by simp_all
  from inst [THEN conjunct2] mm
  have fl: "length (filter is_mm (fst (recalc_edges ex_q (ex_sc\<lparr>sc_gapbar := 3\<rparr>) Map.empty [ex_p, ex_p, ex_p] ex_rs ex_cs5 ex_d))) = 3"
    by simp
  from k q c wf' na mass gb fl show ?thesis by blast
qed

text \<open>
  The premise on the ranges is needed. On a position record whose range for C ends
  below its start the width of C wraps around, the total differs from the width under
  A, and gaps are opened although no base other than the read's has mass.
\<close>

lemma recalc_pos_wrap:
  "map fst (fst (recalc_pos ex_q ex_sc Map.empty ex_rs ex_cs5 ex_d 1 2 1 1 0 1 30 32 10 12
      (ex_p\<lparr>p_topb := [30, 41, 0, 0], p_botb := [32, 40, 0, 0]\<rparr>))) = [K_RDG_OP, K_RFG_OP] \<and>
   \<not> (\<exists>j\<in>{1, 2, 3::nat}.
        rd (tbl_t ex_d (ex_p\<lparr>p_topb := [30, 41, 0, 0], p_botb := [32, 40, 0, 0]\<rparr>)) j
          < rd (tbl_b ex_d (ex_p\<lparr>p_topb := [30, 41, 0, 0], p_botb := [32, 40, 0, 0]\<rparr>)) j)"
  by (simp add: ex_defs ex_defs2 recalc_defs Let_def)






end
